(* ===== verification/Prelude.thy ===== *)
theory Prelude
  imports Main
begin

text \<open>
  Shared vocabulary of the development: byte strings, Go's \<^verbatim>\<open>error\<close> values with wrapping,
  results as sums, and the generic list, option and map lemmas the components use.
\<close>

section \<open>Types\<close>

text \<open>
  A Go \<^verbatim>\<open>string\<close> and a Go \<^verbatim>\<open>[]byte\<close> are both finite byte sequences; a HOL \<^typ>\<open>char\<close> is one
  byte, so both are \<^typ>\<open>char list\<close>.  Instants (\<^verbatim>\<open>time.Time\<close>) and spans (\<^verbatim>\<open>time.Duration\<close>)
  are integers counting nanoseconds, instants from the Unix epoch.
\<close>

type_synonym bytes = string
type_synonym time = int
type_synonym duration = int

abbreviation second :: duration where "second \<equiv> 1000000000"
abbreviation minute :: duration where "minute \<equiv> 60 * second"

section \<open>Go errors\<close>

text \<open>
  An \<^verbatim>\<open>error\<close> is an interface value: what the code observes of it is its dynamic type (a type
  assertion), its identity (\<^verbatim>\<open>==\<close> with a sentinel), its chain of wrapped errors
  (\<^verbatim>\<open>errors.Is\<close>) and its text.  \<open>Errorf\<close> is \<^verbatim>\<open>fmt.Errorf\<close> without \<^verbatim>\<open>%w\<close>; \<open>ErrorfW p e s\<close> is
  \<^verbatim>\<open>fmt.Errorf\<close> with one \<^verbatim>\<open>%w\<close>, \<open>p\<close> and \<open>s\<close> being the text around it.  The remaining
  constructors are the sentinels and concrete error types the code tests for, and \<open>Foreign\<close> is an
  error of another package that the code never inspects.
\<close>

datatype goerr =
    Errorf string
  | ErrorfW string goerr string
  | JsonSyntaxError
  | JsonUnmarshalTypeError
  | ContextCanceled
  | ContextDeadlineExceeded
  | ErrKeyNotFound
  | ErrKeyExists
  | ErrLedgerExists
  | ErrLedgerNotFound
  | ErrIndexOutOfRange
  | ErrNotExist
  | LedgerNotFoundError string
  | ValidationFailed string "string list"
  | Foreign string

type_synonym 'a res = "goerr + 'a"

fun errors_is :: "goerr \<Rightarrow> goerr \<Rightarrow> bool" where
  "errors_is (ErrorfW p e s) t = (ErrorfW p e s = t \<or> errors_is e t)"
| "errors_is e t = (e = t)"

fun error_text :: "goerr \<Rightarrow> string" where
  "error_text (Errorf m) = m"
| "error_text (ErrorfW p e s) = p @ error_text e @ s"
| "error_text JsonSyntaxError = ''invalid character in JSON input''"
| "error_text JsonUnmarshalTypeError = ''json: cannot unmarshal value into Go value''"
| "error_text ContextCanceled = ''context canceled''"
| "error_text ContextDeadlineExceeded = ''context deadline exceeded''"
| "error_text ErrKeyNotFound = ''nats: key not found''"
| "error_text ErrKeyExists = ''nats: key exists''"
| "error_text ErrLedgerExists = ''ledger already exists''"
| "error_text ErrLedgerNotFound = ''ledger not found''"
| "error_text ErrIndexOutOfRange = ''index out of range''"
| "error_text ErrNotExist = ''file does not exist''"
| "error_text (LedgerNotFoundError s) = ''ledger not found for subject: '' @ s"
| "error_text (ValidationFailed t ds) =
     ''validation failed for '' @ t @ '': '' @ concat (map (\<lambda>d. d @ ''; '') (butlast ds)) @
     (if ds = [] then [] else last ds)"
| "error_text (Foreign m) = m"

lemma errors_is_refl [simp]: "errors_is e e"
  by (cases e) auto

lemma errors_is_wrap [simp]: "errors_is (ErrorfW p e s) e"
  by simp

section \<open>Collections\<close>

named_theorems go_string_simps \<open>equations of the modelled Go string functions\<close>
named_theorems go_enc \<open>round trips of the modelled encodings\<close>

lemmas res_splits = sum.splits option.splits if_splits prod.splits

section \<open>Maps and loops\<close>

text \<open>
  A Go map as an association list: assigning to a key of the map, where an existing key keeps its place.
\<close>

fun assign :: "string \<Rightarrow> 'a \<Rightarrow> (string \<times> 'a) list \<Rightarrow> (string \<times> 'a) list" where
  "assign k v [] = [(k, v)]"
| "assign k v ((k', v') # xs) = (if k' = k then (k, v) # xs else (k', v') # assign k v xs)"

lemma map_of_assign [simp]: "map_of (assign k v xs) k' = (if k' = k then Some v else map_of xs k')"
  by (induction k v xs rule: assign.induct) auto

lemma set_assign_keys [simp]: "fst ` set (assign k v xs) = insert k (fst ` set xs)"
  by (induction k v xs rule: assign.induct) auto

lemma distinct_assign: "distinct (map fst xs) \<Longrightarrow> distinct (map fst (assign k v xs))"
  by (induction k v xs rule: assign.induct) auto

text \<open>A loop whose body may panic (\<open>None\<close>).\<close>

fun fold_opt :: "('a \<Rightarrow> 's \<Rightarrow> 's option) \<Rightarrow> 'a list \<Rightarrow> 's \<Rightarrow> 's option" where
  "fold_opt f [] s = Some s"
| "fold_opt f (x # xs) s = (case f x s of None \<Rightarrow> None | Some s' \<Rightarrow> fold_opt f xs s')"

section \<open>Generic lemmas\<close>

lemma take_eq_prefix: "take (length p) (p @ s) = p"
  by simp

lemma list_all_takeWhile [simp]: "list_all P (takeWhile P xs)"
  by (induction xs) auto

lemma takeWhile_append_stop:
  "list_all P xs \<Longrightarrow> (ys = [] \<or> \<not> P (hd ys)) \<Longrightarrow> takeWhile P (xs @ ys) = xs"
  by (induction xs) (cases ys; auto)+

lemma dropWhile_append_stop:
  "list_all P xs \<Longrightarrow> (ys = [] \<or> \<not> P (hd ys)) \<Longrightarrow> dropWhile P (xs @ ys) = ys"
  by (induction xs) (cases ys; auto)+

lemma fold_invariant_rule:
  assumes "P s" and "\<And>x s. x \<in> set xs \<Longrightarrow> P s \<Longrightarrow> P (f x s)"
  shows "P (fold f xs s)"
  using assms by (induction xs arbitrary: s) auto

lemma find_Some_set: "find P xs = Some x \<Longrightarrow> x \<in> set xs \<and> P x"
  by (induction xs) (auto split: if_splits)

lemma find_None_all: "find P xs = None \<longleftrightarrow> (\<forall>x \<in> set xs. \<not> P x)"
  by (induction xs) auto

end
