(* ===== verification/GoStrings.thy ===== *)
theory GoStrings
  imports Prelude
begin

text \<open>
  The functions of Go's \<^verbatim>\<open>strings\<close> and \<^verbatim>\<open>strconv\<close> packages that the code calls, on byte strings.
  Case mapping and white space are those of ASCII; bytes above 127 are kept as they are.
\<close>

section \<open>Definitions\<close>

definition has_prefix :: "string \<Rightarrow> string \<Rightarrow> bool" where
  "has_prefix s p \<longleftrightarrow> take (length p) s = p"

definition has_suffix :: "string \<Rightarrow> string \<Rightarrow> bool" where
  "has_suffix s p \<longleftrightarrow> length p \<le> length s \<and> drop (length s - length p) s = p"

definition cut_prefix :: "string \<Rightarrow> string \<Rightarrow> string option" where
  "cut_prefix s p = (if has_prefix s p then Some (drop (length p) s) else None)"

text \<open>\<^verbatim>\<open>strings.Index\<close>: the first position at which \<open>sub\<close> occurs.\<close>

fun index_of :: "string \<Rightarrow> string \<Rightarrow> nat option" where
  "index_of [] sub = (if sub = [] then Some 0 else None)"
| "index_of (c # s) sub =
     (if has_prefix (c # s) sub then Some 0 else map_option Suc (index_of s sub))"

text \<open>\<^verbatim>\<open>strings.Cut\<close>.\<close>

definition cut :: "string \<Rightarrow> string \<Rightarrow> (string \<times> string) option" where
  "cut s sep = (case index_of s sep of None \<Rightarrow> None
     | Some i \<Rightarrow> Some (take i s, drop (i + length sep) s))"

text \<open>\<^verbatim>\<open>strings.Split\<close> with a one-byte separator; the result is never empty.\<close>

fun split_on :: "char \<Rightarrow> string \<Rightarrow> string list" where
  "split_on d [] = [[]]"
| "split_on d (c # s) =
     (if c = d then [] # split_on d s
      else (case split_on d s of [] \<Rightarrow> [[c]] | p # ps \<Rightarrow> (c # p) # ps))"

text \<open>\<^verbatim>\<open>strings.SplitN(s, sep, n)\<close> with a one-byte separator and \<open>n > 0\<close>.\<close>

fun split_n :: "nat \<Rightarrow> char \<Rightarrow> string \<Rightarrow> string list" where
  "split_n 0 d s = []"
| "split_n (Suc 0) d s = [s]"
| "split_n (Suc (Suc n)) d s =
     (if d \<in> set s then takeWhile (\<lambda>c. c \<noteq> d) s # split_n (Suc n) d (tl (dropWhile (\<lambda>c. c \<noteq> d) s))
      else [s])"

fun join :: "string \<Rightarrow> string list \<Rightarrow> string" where
  "join sep [] = []"
| "join sep [x] = x"
| "join sep (x # y # ys) = x @ sep @ join sep (y # ys)"

definition is_upper :: "char \<Rightarrow> bool" where
  "is_upper c \<longleftrightarrow> 65 \<le> (of_char c :: nat) \<and> (of_char c :: nat) \<le> 90"

definition is_lower :: "char \<Rightarrow> bool" where
  "is_lower c \<longleftrightarrow> 97 \<le> (of_char c :: nat) \<and> (of_char c :: nat) \<le> 122"

definition is_digit :: "char \<Rightarrow> bool" where
  "is_digit c \<longleftrightarrow> 48 \<le> (of_char c :: nat) \<and> (of_char c :: nat) \<le> 57"

definition is_alnum :: "char \<Rightarrow> bool" where
  "is_alnum c \<longleftrightarrow> is_upper c \<or> is_lower c \<or> is_digit c"

definition lower_char :: "char \<Rightarrow> char" where
  "lower_char c = (if is_upper c then char_of ((of_char c :: nat) + 32) else c)"

definition to_lower :: "string \<Rightarrow> string" where
  "to_lower s = map lower_char s"

text \<open>ASCII white space: tab, line feed, vertical tab, form feed, carriage return, blank.\<close>

definition is_space :: "char \<Rightarrow> bool" where
  "is_space c \<longleftrightarrow> (9 \<le> (of_char c :: nat) \<and> (of_char c :: nat) \<le> 13) \<or> of_char c = (32 :: nat)"

definition trim_right_by :: "(char \<Rightarrow> bool) \<Rightarrow> string \<Rightarrow> string" where
  "trim_right_by P s = rev (dropWhile P (rev s))"

definition trim_space :: "string \<Rightarrow> string" where
  "trim_space s = trim_right_by is_space (dropWhile is_space s)"

text \<open>\<^verbatim>\<open>strings.TrimRight(s, "/")\<close>.\<close>

definition trim_right_slash :: "string \<Rightarrow> string" where
  "trim_right_slash s = trim_right_by (\<lambda>c. c = CHR ''/'') s"

text \<open>\<^verbatim>\<open>strings.Fields\<close>: the maximal runs of non-blanks.\<close>

fun fields_acc :: "string \<Rightarrow> string \<Rightarrow> string list" where
  "fields_acc acc [] = (if acc = [] then [] else [rev acc])"
| "fields_acc acc (c # s) =
     (if is_space c then (if acc = [] then fields_acc [] s else rev acc # fields_acc [] s)
      else fields_acc (c # acc) s)"

definition fields :: "string \<Rightarrow> string list" where
  "fields s = fields_acc [] s"

text \<open>\<^verbatim>\<open>strings.ReplaceAll\<close> with a one-byte pattern.\<close>

definition replace_all :: "char \<Rightarrow> string \<Rightarrow> string \<Rightarrow> string" where
  "replace_all c r s = concat (map (\<lambda>x. if x = c then r else [x]) s)"

text \<open>Decimal numerals (\<^verbatim>\<open>%d\<close>, \<^verbatim>\<open>strconv.FormatInt\<close>) and \<^verbatim>\<open>strconv.ParseInt(s, 10, 64)\<close>.\<close>

definition digit_char :: "nat \<Rightarrow> char" where
  "digit_char d = char_of (48 + d)"

definition digit_val :: "char \<Rightarrow> nat" where
  "digit_val c = (of_char c :: nat) - 48"

fun show_nat :: "nat \<Rightarrow> string" where
  "show_nat n = (if n < 10 then [digit_char n] else show_nat (n div 10) @ [digit_char (n mod 10)])"

declare show_nat.simps [simp del]

definition show_int :: "int \<Rightarrow> string" where
  "show_int i = (if i < 0 then CHR ''-'' # show_nat (nat (- i)) else show_nat (nat i))"

definition read_digits :: "string \<Rightarrow> nat" where
  "read_digits s = foldl (\<lambda>n c. 10 * n + digit_val c) 0 s"

abbreviation max_int64 :: int where "max_int64 \<equiv> 9223372036854775807"
abbreviation min_int64 :: int where "min_int64 \<equiv> -9223372036854775808"

text \<open>
  The value \<^verbatim>\<open>ParseInt\<close> returns beside its error: 0 on a syntax error, the nearest bound when the
  numeral is out of range.
\<close>

definition parse_int64 :: "string \<Rightarrow> goerr option \<times> int" where
  "parse_int64 s =
     (let neg = (s \<noteq> [] \<and> hd s = CHR ''-'');
          ds = (if s \<noteq> [] \<and> (hd s = CHR ''-'' \<or> hd s = CHR ''+'') then tl s else s)
      in if ds = [] \<or> \<not> list_all is_digit ds then (Some (Errorf ''invalid syntax''), 0)
         else let v = (if neg then - int (read_digits ds) else int (read_digits ds))
              in if v > max_int64 then (Some (Errorf ''value out of range''), max_int64)
                 else if v < min_int64 then (Some (Errorf ''value out of range''), min_int64)
                 else (None, v))"

section \<open>Lemmas\<close>

lemma has_prefix_append [simp]: "has_prefix (p @ s) p"
  by (simp add: has_prefix_def)

lemma has_prefix_iff: "has_prefix s p \<longleftrightarrow> (\<exists>r. s = p @ r)"
proof
  assume "has_prefix s p"
  then have "s = p @ drop (length p) s"
    unfolding has_prefix_def by (metis append_take_drop_id)
  then show "\<exists>r. s = p @ r" ..
qed auto

lemma has_prefix_same_start [simp]: "has_prefix (x @ s) (x @ p) = has_prefix s p"
  by (simp add: has_prefix_iff)

lemma has_suffix_iff: "has_suffix s p \<longleftrightarrow> (\<exists>r. s = r @ p)"
proof
  assume "has_suffix s p"
  then have "s = take (length s - length p) s @ p"
    unfolding has_suffix_def by (metis append_take_drop_id)
  then show "\<exists>r. s = r @ p" ..
qed (auto simp: has_suffix_def)

lemma cut_prefix_Some_iff: "cut_prefix s p = Some r \<longleftrightarrow> s = p @ r"
  by (auto simp: cut_prefix_def has_prefix_iff)

lemma cut_prefix_None_iff: "cut_prefix s p = None \<longleftrightarrow> \<not> has_prefix s p"
  by (auto simp: cut_prefix_def)

lemma index_of_Some: "index_of s sub = Some i \<Longrightarrow> \<exists>r. s = take i s @ sub @ r \<and> i + length sub \<le> length s"
proof (induction s arbitrary: i)
  case Nil
  then show ?case by (simp split: if_splits)
next
  case (Cons c s)
  show ?case
  proof (cases "has_prefix (c # s) sub")
    case True
    with Cons.prems have i0: "i = 0" by simp
    from True obtain r where "c # s = sub @ r" by (auto simp: has_prefix_iff)
    with i0 show ?thesis by auto
  next
    case False
    with Cons.prems obtain j where "index_of s sub = Some j" "i = Suc j" by auto
    with Cons.IH show ?thesis by fastforce
  qed
qed

lemma index_of_None: "index_of s sub = None \<longleftrightarrow> (\<forall>a b. s \<noteq> a @ sub @ b)"
proof (induction s)
  case Nil
  then show ?case by simp
next
  case (Cons c s)
  show ?case
  proof (cases "has_prefix (c # s) sub")
    case True
    then obtain r where "c # s = sub @ r" by (auto simp: has_prefix_iff)
    then have "\<exists>a b. c # s = a @ sub @ b" by (metis append_Nil)
    with True show ?thesis by auto
  next
    case False
    have "(\<exists>a b. c # s = a @ sub @ b) \<longleftrightarrow> (\<exists>a b. s = a @ sub @ b)"
    proof
      assume "\<exists>a b. c # s = a @ sub @ b"
      then obtain a b where ab: "c # s = a @ sub @ b" by blast
      with False have "a \<noteq> []" by (auto simp: has_prefix_iff)
      with ab show "\<exists>a b. s = a @ sub @ b" by (cases a) auto
    next
      assume "\<exists>a b. s = a @ sub @ b"
      then obtain a b where "s = a @ sub @ b" by blast
      then have "c # s = (c # a) @ sub @ b" by simp
      then show "\<exists>a b. c # s = a @ sub @ b" by blast
    qed
    with False Cons show ?thesis by simp blast
  qed
qed

lemma split_on_not_Nil [simp]: "split_on d s \<noteq> []"
  by (induction s) (auto split: list.splits)

lemma split_on_no_sep: "p \<in> set (split_on d s) \<Longrightarrow> d \<notin> set p"
  by (induction s arbitrary: p) (auto split: list.splits if_splits)

lemma split_on_single: "d \<notin> set s \<Longrightarrow> split_on d s = [s]"
  by (induction s) auto

lemma split_on_append:
  "d \<notin> set p \<Longrightarrow> split_on d (p @ d # s) = p # split_on d s"
  by (induction p) auto

lemma join_split_on: "join [d] (split_on d s) = s"
proof (induction s)
  case Nil
  then show ?case by simp
next
  case (Cons c s)
  obtain p ps where sp: "split_on d s = p # ps"
    by (meson neq_Nil_conv split_on_not_Nil)
  have shift: "join [d] ((c # p) # ps) = c # join [d] (p # ps)" by (cases ps) auto
  have front: "join [d] ([] # p # ps) = d # join [d] (p # ps)" by simp
  show ?case
  proof (cases "c = d")
    case True
    with sp front Cons.IH show ?thesis by simp
  next
    case False
    with sp shift Cons.IH show ?thesis by simp
  qed
qed

lemma lower_char_not_upper: "\<not> is_upper (lower_char c)"
proof (cases "is_upper c")
  case True
  then have "(of_char c :: nat) + 32 < 256" by (simp add: is_upper_def)
  then have "of_char (char_of ((of_char c :: nat) + 32)) = (of_char c :: nat) + 32" by simp
  with True show ?thesis by (simp add: lower_char_def is_upper_def)
next
  case False
  then show ?thesis by (simp add: lower_char_def)
qed

lemma lower_char_id: "\<not> is_upper c \<Longrightarrow> lower_char c = c"
  by (simp add: lower_char_def)

lemma to_lower_idem [simp]: "to_lower (to_lower s) = to_lower s"
  by (simp add: to_lower_def lower_char_not_upper lower_char_id comp_def)

lemma lower_char_eq_iff: "lower_char c = c \<longleftrightarrow> \<not> is_upper c"
  by (metis lower_char_not_upper lower_char_id)

lemma to_lower_eq_iff: "to_lower s = s \<longleftrightarrow> list_all (\<lambda>c. \<not> is_upper c) s"
  by (induction s) (simp_all add: to_lower_def lower_char_eq_iff)

lemma to_lower_no_upper: "c \<in> set (to_lower s) \<Longrightarrow> \<not> is_upper c"
  by (auto simp: to_lower_def lower_char_not_upper)

lemma trim_right_by_last: "trim_right_by P s = [] \<or> \<not> P (last (trim_right_by P s))"
proof (cases "dropWhile P (rev s)")
  case Nil
  then show ?thesis by (simp add: trim_right_by_def)
next
  case (Cons a as)
  then have "\<not> P (hd (dropWhile P (rev s)))" by (metis hd_dropWhile list.distinct(1))
  with Cons show ?thesis by (simp add: trim_right_by_def)
qed

lemma trim_right_by_id: "s = [] \<or> \<not> P (last s) \<Longrightarrow> trim_right_by P s = s"
  unfolding trim_right_by_def by (cases s rule: rev_cases) auto

lemma set_trim_right_by: "set (trim_right_by P s) \<subseteq> set s"
  unfolding trim_right_by_def by (auto dest: set_dropWhileD)

lemma fields_acc_no_space:
  "list_all (\<lambda>c. \<not> is_space c) acc \<Longrightarrow>
     list_all (\<lambda>w. w \<noteq> [] \<and> list_all (\<lambda>c. \<not> is_space c) w) (fields_acc acc s)"
proof (induction s arbitrary: acc)
  case Nil
  then show ?case by simp
next
  case (Cons c s)
  then show ?case by (cases "acc = []") simp_all
qed

lemma fields_no_space: "w \<in> set (fields s) \<Longrightarrow> w \<noteq> [] \<and> list_all (\<lambda>c. \<not> is_space c) w"
  using fields_acc_no_space [of "[]" s] by (simp add: fields_def list_all_iff)

lemma replace_all_empty: "replace_all c [] s = filter (\<lambda>x. x \<noteq> c) s"
  by (induction s) (auto simp: replace_all_def)

lemma is_digit_digit_char: "d < 10 \<Longrightarrow> is_digit (digit_char d)"
  by (simp add: is_digit_def digit_char_def)

lemma digit_val_digit_char: "d < 10 \<Longrightarrow> digit_val (digit_char d) = d"
  by (simp add: digit_val_def digit_char_def)

lemma read_digits_snoc: "read_digits (s @ [c]) = 10 * read_digits s + digit_val c"
  by (simp add: read_digits_def)

lemma show_nat_props: "show_nat n \<noteq> [] \<and> list_all is_digit (show_nat n) \<and> read_digits (show_nat n) = n"
proof (induction n rule: show_nat.induct)
  case (1 n)
  show ?case
  proof (cases "n < 10")
    case True
    then have "show_nat n = [digit_char n]" by (simp add: show_nat.simps [of n])
    with True show ?thesis
      by (simp add: is_digit_digit_char digit_val_digit_char read_digits_def)
  next
    case False
    then have eq: "show_nat n = show_nat (n div 10) @ [digit_char (n mod 10)]"
      by (simp add: show_nat.simps [of n])
    from False 1 show ?thesis
      by (simp add: eq is_digit_digit_char digit_val_digit_char read_digits_snoc)
  qed
qed

lemmas show_nat_not_Nil [simp] = show_nat_props [THEN conjunct1]
lemmas show_nat_digits = show_nat_props [THEN conjunct2, THEN conjunct1]
lemmas read_show_nat [go_enc] = show_nat_props [THEN conjunct2, THEN conjunct2]

lemma show_nat_inject: "show_nat m = show_nat n \<longleftrightarrow> m = n"
  by (metis read_show_nat)

lemma is_digit_not_sign: "is_digit c \<Longrightarrow> c \<noteq> CHR ''-'' \<and> c \<noteq> CHR ''+'' \<and> c \<noteq> CHR ''/'' \<and> c \<noteq> CHR ''.''"
  by (auto simp: is_digit_def)

lemma parse_int64_show_int [go_enc]:
  assumes "min_int64 \<le> i" "i \<le> max_int64"
  shows "parse_int64 (show_int i) = (None, i)"
proof (cases "i < 0")
  case True
  then have s: "show_int i = CHR ''-'' # show_nat (nat (- i))" by (simp add: show_int_def)
  show ?thesis
    using True assms by (simp add: s parse_int64_def show_nat_digits read_show_nat)
next
  case False
  then have s: "show_int i = show_nat (nat i)" by (simp add: show_int_def)
  have hd: "is_digit (hd (show_nat (nat i)))"
    using show_nat_digits [of "nat i"] show_nat_not_Nil [of "nat i"]
    by (cases "show_nat (nat i)") auto
  from is_digit_not_sign [OF hd] False assms show ?thesis
    by (simp add: s parse_int64_def show_nat_digits read_show_nat)
qed

lemma show_int_inject: "show_int i = show_int j \<longleftrightarrow> i = j"
proof -
  have "hd (show_nat n) \<noteq> CHR ''-''" for n
    using show_nat_props [of n] by (cases "show_nat n") (auto dest: is_digit_not_sign)
  then have "CHR ''-'' # s \<noteq> show_nat n" for s n by (metis list.sel(1))
  then show ?thesis
    by (auto simp: show_int_def show_nat_inject) metis+
qed

end
