(* ===== verification/GoRegex.thy ===== *)
theory GoRegex
  imports GoStrings
begin

text \<open>
  The fragment of Go's \<^verbatim>\<open>regexp\<close> package the code uses: character classes, sequence, alternation,
  star, plus and a bounded repetition.  \<open>rx_match\<close> is the executable whole-string matcher by
  derivatives; \<open>rx_lang\<close> is its specification.  All patterns of the code are anchored at the start;
  a pattern that is not anchored at the end is written with a trailing \<open>Star rx_any\<close>.

  Classes are sets of bytes.  The code's negated classes exclude ASCII characters only, so a run of
  code points outside the class is exactly a run of bytes outside it.
\<close>

datatype rx =
    Zero
  | One
  | Cls "char \<Rightarrow> bool"
  | Alt rx rx
  | Seq rx rx
  | Star rx
  | UpTo nat rx

definition rx_any :: rx where "rx_any = Cls (\<lambda>_. True)"

text \<open>\<^verbatim>\<open>.\<close> without the \<^verbatim>\<open>s\<close> flag: anything but a line feed.\<close>

definition rx_dot :: rx where "rx_dot = Cls (\<lambda>c. c \<noteq> CHR 0x0A)"

definition rx_not :: "char \<Rightarrow> rx" where "rx_not d = Cls (\<lambda>c. c \<noteq> d)"

fun rx_lit :: "string \<Rightarrow> rx" where
  "rx_lit [] = One"
| "rx_lit (c # s) = Seq (Cls (\<lambda>x. x = c)) (rx_lit s)"

definition rx_plus :: "rx \<Rightarrow> rx" where "rx_plus r = Seq r (Star r)"

fun rx_nullable :: "rx \<Rightarrow> bool" where
  "rx_nullable Zero = False"
| "rx_nullable One = True"
| "rx_nullable (Cls P) = False"
| "rx_nullable (Alt r s) = (rx_nullable r \<or> rx_nullable s)"
| "rx_nullable (Seq r s) = (rx_nullable r \<and> rx_nullable s)"
| "rx_nullable (Star r) = True"
| "rx_nullable (UpTo n r) = True"

fun rx_deriv :: "char \<Rightarrow> rx \<Rightarrow> rx" where
  "rx_deriv c Zero = Zero"
| "rx_deriv c One = Zero"
| "rx_deriv c (Cls P) = (if P c then One else Zero)"
| "rx_deriv c (Alt r s) = Alt (rx_deriv c r) (rx_deriv c s)"
| "rx_deriv c (Seq r s) =
     (if rx_nullable r then Alt (Seq (rx_deriv c r) s) (rx_deriv c s) else Seq (rx_deriv c r) s)"
| "rx_deriv c (Star r) = Seq (rx_deriv c r) (Star r)"
| "rx_deriv c (UpTo 0 r) = Zero"
| "rx_deriv c (UpTo (Suc n) r) = Seq (rx_deriv c r) (UpTo n r)"

fun rx_match :: "rx \<Rightarrow> string \<Rightarrow> bool" where
  "rx_match r [] = rx_nullable r"
| "rx_match r (c # s) = rx_match (rx_deriv c r) s"

text \<open>The words of an expression.\<close>

inductive rx_lang :: "rx \<Rightarrow> string \<Rightarrow> bool" where
  lang_one: "rx_lang One []"
| lang_cls: "P c \<Longrightarrow> rx_lang (Cls P) [c]"
| lang_alt1: "rx_lang r w \<Longrightarrow> rx_lang (Alt r s) w"
| lang_alt2: "rx_lang s w \<Longrightarrow> rx_lang (Alt r s) w"
| lang_seq: "rx_lang r v \<Longrightarrow> rx_lang s w \<Longrightarrow> rx_lang (Seq r s) (v @ w)"
| lang_star0: "rx_lang (Star r) []"
| lang_star: "rx_lang r v \<Longrightarrow> rx_lang (Star r) w \<Longrightarrow> rx_lang (Star r) (v @ w)"
| lang_upto0: "rx_lang (UpTo n r) []"
| lang_upto: "rx_lang r v \<Longrightarrow> rx_lang (UpTo n r) w \<Longrightarrow> rx_lang (UpTo (Suc n) r) (v @ w)"

inductive_simps rx_lang_Zero [simp]: "rx_lang Zero w"
inductive_simps rx_lang_One [simp]: "rx_lang One w"
inductive_simps rx_lang_Cls: "rx_lang (Cls P) w"
inductive_simps rx_lang_Alt [simp]: "rx_lang (Alt r s) w"
inductive_simps rx_lang_Seq: "rx_lang (Seq r s) w"
inductive_cases rx_lang_StarE: "rx_lang (Star r) w"
inductive_cases rx_lang_UpToE: "rx_lang (UpTo n r) w"

section \<open>The matcher is correct\<close>

lemma rx_nullable_iff: "rx_nullable r \<longleftrightarrow> rx_lang r []"
  by (induction r) (auto simp: rx_lang_Cls rx_lang_Seq intro: rx_lang.intros)

lemma rx_lang_UpTo_mono: "rx_lang (UpTo n r) w \<Longrightarrow> rx_lang (UpTo (Suc n) r) w"
proof (induction n arbitrary: w)
  case 0
  then show ?case by (auto elim: rx_lang_UpToE intro: rx_lang.intros)
next
  case (Suc n)
  from Suc.prems show ?case
  proof (cases rule: rx_lang.cases)
    case lang_upto0
    then show ?thesis by (simp add: rx_lang.lang_upto0)
  next
    case (lang_upto v w')
    with Suc.IH show ?thesis by (auto intro: rx_lang.lang_upto)
  qed
qed

lemma rx_lang_Star_Cons: "rx_lang (Star r) (c # w) \<Longrightarrow> \<exists>u v. w = u @ v \<and> rx_lang r (c # u) \<and> rx_lang (Star r) v"
proof (induction "Star r" "c # w" arbitrary: w rule: rx_lang.induct)
  case (lang_star v w')
  show ?case
  proof (cases v)
    case Nil
    with lang_star show ?thesis by simp
  next
    case (Cons a u)
    with lang_star show ?thesis by auto
  qed
qed

lemma rx_lang_UpTo_Cons:
  "rx_lang (UpTo n r) (c # w) \<Longrightarrow> \<exists>m u v. n = Suc m \<and> w = u @ v \<and> rx_lang r (c # u) \<and> rx_lang (UpTo m r) v"
proof (induction n arbitrary: w)
  case 0
  then show ?case by (auto elim: rx_lang_UpToE)
next
  case (Suc n)
  from Suc.prems obtain v w' where vw: "c # w = v @ w'" "rx_lang r v" "rx_lang (UpTo n r) w'"
    by (auto elim: rx_lang_UpToE)
  show ?case
  proof (cases v)
    case Nil
    with vw Suc.IH obtain m u z where "n = Suc m" "w = u @ z" "rx_lang r (c # u)" "rx_lang (UpTo m r) z"
      by fastforce
    then show ?thesis using rx_lang_UpTo_mono by blast
  next
    case (Cons a u)
    with vw show ?thesis by auto
  qed
qed

lemma rx_deriv_iff: "rx_lang (rx_deriv c r) w \<longleftrightarrow> rx_lang r (c # w)"
proof (induction r arbitrary: w rule: rx_deriv.induct)
  case (3 c P)
  then show ?case by (auto simp: rx_lang_Cls)
next
  case (5 c r s)
  have "rx_lang (Seq r s) (c # w) \<longleftrightarrow>
     (rx_nullable r \<and> rx_lang s (c # w)) \<or> (\<exists>u v. w = u @ v \<and> rx_lang r (c # u) \<and> rx_lang s v)"
    by (auto simp: rx_lang_Seq rx_nullable_iff Cons_eq_append_conv)
  with 5 show ?case by (auto simp: rx_lang_Seq)
next
  case (6 c r)
  have "rx_lang (Star r) (c # w) \<longleftrightarrow> (\<exists>u v. w = u @ v \<and> rx_lang r (c # u) \<and> rx_lang (Star r) v)"
    using rx_lang_Star_Cons rx_lang.lang_star by (metis append_Cons)
  with 6 show ?case by (auto simp: rx_lang_Seq)
next
  case (7 c r)
  then show ?case by (auto dest: rx_lang_UpTo_Cons)
next
  case (8 c n r)
  have "rx_lang (UpTo (Suc n) r) (c # w) \<longleftrightarrow> (\<exists>u v. w = u @ v \<and> rx_lang r (c # u) \<and> rx_lang (UpTo n r) v)"
    using rx_lang_UpTo_Cons rx_lang.lang_upto by (metis append_Cons nat.inject)
  with 8 show ?case by (auto simp: rx_lang_Seq)
qed auto

lemma rx_match_iff: "rx_match r w \<longleftrightarrow> rx_lang r w"
  by (induction w arbitrary: r) (auto simp: rx_nullable_iff rx_deriv_iff)

section \<open>The words of the patterns' building blocks\<close>

lemma rx_lang_lit [simp]: "rx_lang (rx_lit l) w \<longleftrightarrow> w = l"
  by (induction l arbitrary: w) (auto simp: rx_lang_Seq rx_lang_Cls)

lemma rx_lang_Seq_Cls [simp]: "rx_lang (Seq (Cls P) r) w \<longleftrightarrow> (\<exists>c v. w = c # v \<and> P c \<and> rx_lang r v)"
proof
  assume "rx_lang (Seq (Cls P) r) w"
  then show "\<exists>c v. w = c # v \<and> P c \<and> rx_lang r v"
    by (auto simp: rx_lang_Seq rx_lang_Cls)
next
  assume "\<exists>c v. w = c # v \<and> P c \<and> rx_lang r v"
  then obtain c v where w: "w = [c] @ v" "P c" "rx_lang r v" by auto
  then show "rx_lang (Seq (Cls P) r) w"
    unfolding w(1) by (intro rx_lang.lang_seq rx_lang.lang_cls)
qed

lemma rx_lang_Seq_lit [simp]: "rx_lang (Seq (rx_lit l) r) w \<longleftrightarrow> (\<exists>v. w = l @ v \<and> rx_lang r v)"
  by (simp add: rx_lang_Seq)

lemma rx_lang_Star_Cls [simp]: "rx_lang (Star (Cls P)) w \<longleftrightarrow> list_all P w"
proof
  show "rx_lang (Star (Cls P)) w \<Longrightarrow> list_all P w"
    by (induction "Star (Cls P)" w rule: rx_lang.induct) (auto simp: rx_lang_Cls)
  show "list_all P w \<Longrightarrow> rx_lang (Star (Cls P)) w"
  proof (induction w)
    case Nil
    then show ?case by (simp add: rx_lang.lang_star0)
  next
    case (Cons c w)
    then have "rx_lang (Star (Cls P)) ([c] @ w)"
      by (intro rx_lang.lang_star rx_lang.lang_cls) auto
    then show ?case by simp
  qed
qed

lemma rx_lang_plus_Cls [simp]: "rx_lang (rx_plus (Cls P)) w \<longleftrightarrow> w \<noteq> [] \<and> list_all P w"
proof
  assume "w \<noteq> [] \<and> list_all P w"
  then obtain c v where w: "w = [c] @ v" "P c" "list_all P v" by (cases w) auto
  then show "rx_lang (rx_plus (Cls P)) w"
    unfolding rx_plus_def w(1) by (intro rx_lang.lang_seq rx_lang.lang_cls) auto
qed (auto simp: rx_plus_def rx_lang_Seq rx_lang_Cls)

lemma rx_lang_UpTo_Cls [simp]: "rx_lang (UpTo n (Cls P)) w \<longleftrightarrow> length w \<le> n \<and> list_all P w"
proof (induction n arbitrary: w)
  case 0
  then show ?case by (auto elim: rx_lang_UpToE intro: rx_lang.intros)
next
  case (Suc n)
  show ?case
  proof
    assume "rx_lang (UpTo (Suc n) (Cls P)) w"
    then show "length w \<le> Suc n \<and> list_all P w"
      by (cases rule: rx_lang_UpToE) (auto simp: rx_lang_Cls Suc)
  next
    assume w: "length w \<le> Suc n \<and> list_all P w"
    show "rx_lang (UpTo (Suc n) (Cls P)) w"
    proof (cases w)
      case Nil
      then show ?thesis by (simp add: rx_lang.lang_upto0)
    next
      case (Cons c v)
      with w Suc have "rx_lang (UpTo (Suc n) (Cls P)) ([c] @ v)"
        by (intro rx_lang.lang_upto rx_lang.lang_cls) auto
      with Cons show ?thesis by simp
    qed
  qed
qed

lemmas rx_block_defs = rx_any_def rx_dot_def rx_not_def

end
