(* ===== verification/Subjects.thy ===== *)
theory Subjects
  imports GoRegex
begin

text \<open>
  Subject identifiers (\<^verbatim>\<open>internal/subjects/validate.go\<close>): the flat slugs that name a ledger
  directory, a KV key and a token of a NATS subject.
\<close>

section \<open>Definitions\<close>

definition subject_char :: "char \<Rightarrow> bool" where
  "subject_char c \<longleftrightarrow> is_alnum c \<or> c = CHR ''_'' \<or> c = CHR ''-''"

text \<open>\<^verbatim>\<open>^[a-zA-Z0-9][a-zA-Z0-9_-]{0,253}$\<close>\<close>

definition subjectIDPattern :: rx where
  "subjectIDPattern = Seq (Cls is_alnum) (UpTo 253 (Cls subject_char))"

text \<open>\<^verbatim>\<open>None\<close> is the nil error.\<close>

definition ValidateSubjectID :: "string \<Rightarrow> goerr option" where
  "ValidateSubjectID subjectID =
     (if subjectID = [] then Some (Errorf ''subjectID cannot be empty'')
      else if \<not> rx_match subjectIDPattern subjectID
        then Some (Errorf ''subjectID must start with alphanumeric and contain only alphanumeric, underscore, hyphen (max 254 chars)'')
      else None)"

section \<open>Lemmas\<close>

definition valid_subject :: "string \<Rightarrow> bool" where
  "valid_subject s \<longleftrightarrow> s \<noteq> [] \<and> length s \<le> 254 \<and> is_alnum (hd s) \<and> list_all subject_char s"

lemma subjectIDPattern_lang: "rx_match subjectIDPattern s \<longleftrightarrow> valid_subject s"
proof -
  have "rx_match subjectIDPattern s \<longleftrightarrow>
      (\<exists>c w. s = c # w \<and> is_alnum c \<and> length w \<le> 253 \<and> list_all subject_char w)"
    unfolding rx_match_iff subjectIDPattern_def by simp
  then show ?thesis
    by (cases s) (auto simp: valid_subject_def subject_char_def)
qed

lemma ValidateSubjectID_None: "ValidateSubjectID s = None \<longleftrightarrow> valid_subject s"
  by (auto simp: ValidateSubjectID_def subjectIDPattern_lang) (simp add: valid_subject_def)

lemma subject_char_not_special:
  "subject_char c \<Longrightarrow> c \<noteq> CHR ''/'' \<and> c \<noteq> CHR ''.'' \<and> c \<noteq> CHR ''*'' \<and> c \<noteq> CHR ''>'' \<and>
     32 < (of_char c :: nat) \<and> (of_char c :: nat) < 127"
  by (auto simp: subject_char_def is_alnum_def is_upper_def is_lower_def is_digit_def)

lemma valid_subject_safe:
  assumes "valid_subject s" "c \<in> set s"
  shows "c \<noteq> CHR ''/'' \<and> c \<noteq> CHR ''.'' \<and> c \<noteq> CHR ''*'' \<and> c \<noteq> CHR ''>'' \<and>
     32 < (of_char c :: nat) \<and> (of_char c :: nat) < 127"
  using assms subject_char_not_special unfolding valid_subject_def list_all_iff by blast

section \<open>Properties\<close>

text \<open>
  C25: \<^verbatim>\<open>ValidateSubjectID\<close> accepts exactly the slugs of 1 to 254 ASCII letters, digits, underscores
  and hyphens that start with a letter or digit.  In particular an accepted identifier has no dot, slash,
  wildcard, space or control character.
\<close>

theorem validate_subject_exact:
  "ValidateSubjectID s = None \<longleftrightarrow>
     1 \<le> length s \<and> length s \<le> 254 \<and> is_alnum (hd s)
     \<and> list_all (\<lambda>c. is_alnum c \<or> c = CHR ''_'' \<or> c = CHR ''-'') s"
  unfolding ValidateSubjectID_None valid_subject_def subject_char_def by (cases s) auto

end
