(* ===== verification/Nats.thy ===== *)
theory Nats
  imports Subjects
begin

text \<open>
  NATS subjects, streams, consumers and buckets (\<^verbatim>\<open>internal/nats\<close>).  The server's subject matching
  is a parameter with its documented meaning as laws.
\<close>

section \<open>Subjects\<close>

definition SubjectIngest :: string where "SubjectIngest = ''core.ingest''"
definition SubjectEvidenceIngestedPrefix :: string where
  "SubjectEvidenceIngestedPrefix = ''core.evidence.ingested''"
definition SubjectEvidenceSealedPrefix :: string where
  "SubjectEvidenceSealedPrefix = ''core.evidence.sealed''"
definition SubjectRegistration :: string where "SubjectRegistration = ''core.subject.registered''"
definition SubjectMappingImported :: string where "SubjectMappingImported = ''core.mapping.imported''"
definition SubjectAdminRegisterSubject :: string where
  "SubjectAdminRegisterSubject = ''core.admin.subjects.register''"
definition SubjectAdminSealTrust :: string where "SubjectAdminSealTrust = ''core.admin.trust.seal''"

definition EvidenceIngestedSubject :: "string \<Rightarrow> string" where
  "EvidenceIngestedSubject subjectID = SubjectEvidenceIngestedPrefix @ ''.'' @ subjectID"

definition EvidenceSealedSubject :: "string \<Rightarrow> string" where
  "EvidenceSealedSubject subjectID = SubjectEvidenceSealedPrefix @ ''.'' @ subjectID"

section \<open>Stream, consumer and bucket configurations\<close>

definition StreamIngest :: string where "StreamIngest = ''INGEST''"
definition StreamEvidence :: string where "StreamEvidence = ''EVIDENCE''"
definition ConsumerIngestWorker :: string where "ConsumerIngestWorker = ''ingest-worker''"
definition ConsumerGraphLoader :: string where "ConsumerGraphLoader = ''graph-loader''"
definition PublisherTrustBucket :: string where "PublisherTrustBucket = ''publisher-trust''"
definition SubjectRegistryBucket :: string where "SubjectRegistryBucket = ''subjects-registry''"
definition StaticJWKBucket :: string where "StaticJWKBucket = ''static-jwks''"
definition JTIReplayBucket :: string where "JTIReplayBucket = ''jti-replay''"

datatype retention = LimitsPolicy | InterestPolicy | WorkQueuePolicy
datatype storage = FileStorage | MemoryStorage
datatype discard = DiscardOld | DiscardNew
datatype ack_policy = AckNonePolicy | AckAllPolicy | AckExplicitPolicy

record StreamConfig =
  scName :: string
  scSubjects :: "string list"
  scRetention :: retention
  scMaxConsumers :: int
  scMaxMsgs :: int
  scMaxBytes :: int
  scMaxAge :: duration
  scStorage :: storage
  scReplicas :: nat
  scDiscard :: discard
  scDuplicates :: duration
  scMaxMsgSize :: nat

record ConsumerConfig =
  ccDurable :: string
  ccAckPolicy :: ack_policy
  ccAckWait :: duration
  ccMaxDeliver :: nat
  ccFilterSubject :: string

record KeyValueConfig =
  kvBucket :: string
  kvStorage :: storage
  kvHistory :: nat
  kvTTL :: duration
  kvReplicas :: nat

definition IngestStreamConfig :: StreamConfig where
  "IngestStreamConfig =
     \<lparr>scName = StreamIngest, scSubjects = [SubjectIngest], scRetention = WorkQueuePolicy,
      scMaxConsumers = -1, scMaxMsgs = -1, scMaxBytes = -1, scMaxAge = 72 * 60 * minute,
      scStorage = FileStorage, scReplicas = 1, scDiscard = DiscardOld, scDuplicates = 2 * minute,
      scMaxMsgSize = 4 * 1024 * 1024\<rparr>"

definition IngestConsumerConfig :: ConsumerConfig where
  "IngestConsumerConfig =
     \<lparr>ccDurable = ConsumerIngestWorker, ccAckPolicy = AckExplicitPolicy, ccAckWait = 30 * second,
      ccMaxDeliver = 5, ccFilterSubject = SubjectIngest\<rparr>"

definition EvidenceStreamConfig :: StreamConfig where
  "EvidenceStreamConfig =
     \<lparr>scName = StreamEvidence, scSubjects = [''core.evidence.>''], scRetention = InterestPolicy,
      scMaxConsumers = -1, scMaxMsgs = -1, scMaxBytes = -1, scMaxAge = 7 * 24 * 60 * minute,
      scStorage = FileStorage, scReplicas = 1, scDiscard = DiscardOld, scDuplicates = 0,
      scMaxMsgSize = 256 * 1024\<rparr>"

definition GraphLoaderConsumerConfig :: ConsumerConfig where
  "GraphLoaderConsumerConfig =
     \<lparr>ccDurable = ConsumerGraphLoader, ccAckPolicy = AckExplicitPolicy, ccAckWait = 30 * second,
      ccMaxDeliver = 5, ccFilterSubject = ''core.evidence.>''\<rparr>"

definition PublisherTrustKVConfig :: KeyValueConfig where
  "PublisherTrustKVConfig =
     \<lparr>kvBucket = PublisherTrustBucket, kvStorage = FileStorage, kvHistory = 10, kvTTL = 0, kvReplicas = 1\<rparr>"

definition SubjectRegistryKVConfig :: KeyValueConfig where
  "SubjectRegistryKVConfig =
     \<lparr>kvBucket = SubjectRegistryBucket, kvStorage = FileStorage, kvHistory = 5, kvTTL = 0, kvReplicas = 1\<rparr>"

definition StaticJWKKVConfig :: KeyValueConfig where
  "StaticJWKKVConfig =
     \<lparr>kvBucket = StaticJWKBucket, kvStorage = FileStorage, kvHistory = 1, kvTTL = 0, kvReplicas = 1\<rparr>"

text \<open>The field \<^verbatim>\<open>History\<close> is not set: its zero value.\<close>

definition JTIReplayKVConfig :: KeyValueConfig where
  "JTIReplayKVConfig =
     \<lparr>kvBucket = JTIReplayBucket, kvStorage = FileStorage, kvHistory = 0, kvTTL = 15 * minute, kvReplicas = 1\<rparr>"

text \<open>
  The administrative calls of the JetStream client, over the server's state \<open>'w\<close>: each may fail.
\<close>

record 'w js_admin =
  js_create_stream :: "'w \<Rightarrow> StreamConfig \<Rightarrow> goerr option \<times> 'w"
  js_create_kv :: "'w \<Rightarrow> KeyValueConfig \<Rightarrow> goerr option \<times> 'w"

fun ensure_buckets :: "'w js_admin \<Rightarrow> KeyValueConfig list \<Rightarrow> 'w \<Rightarrow> goerr option \<times> 'w" where
  "ensure_buckets js [] w = (None, w)"
| "ensure_buckets js (c # cs) w =
     (case js_create_kv js w c of
        (Some e, w') \<Rightarrow> (Some (ErrorfW (''ensuring KV bucket '' @ kvBucket c @ '': '') e []), w')
      | (None, w') \<Rightarrow> ensure_buckets js cs w')"

definition EnsureInfrastructure :: "'w js_admin \<Rightarrow> 'w \<Rightarrow> goerr option \<times> 'w" where
  "EnsureInfrastructure js w =
     (case js_create_stream js w IngestStreamConfig of
        (Some e, w1) \<Rightarrow> (Some (ErrorfW ''ensuring ingest stream: '' e []), w1)
      | (None, w1) \<Rightarrow>
        (case js_create_stream js w1 EvidenceStreamConfig of
           (Some e, w2) \<Rightarrow> (Some (ErrorfW ''ensuring evidence stream: '' e []), w2)
         | (None, w2) \<Rightarrow>
           ensure_buckets js
             [PublisherTrustKVConfig, SubjectRegistryKVConfig, StaticJWKKVConfig, JTIReplayKVConfig] w2))"

section \<open>Acknowledgements\<close>

text \<open>How a consumer settles a message.\<close>

datatype verdict = Ack | Term | NakWithDelay duration

section \<open>Subject matching\<close>

text \<open>A subject is a non-empty sequence of non-empty tokens separated by dots.\<close>

definition wf_nats_subject :: "string \<Rightarrow> bool" where
  "wf_nats_subject s \<longleftrightarrow> [] \<notin> set (split_on (CHR ''.'') s)"

text \<open>Whether a stream stores the messages published on a subject, given the server's matching.\<close>

definition captures :: "(string \<Rightarrow> string \<Rightarrow> bool) \<Rightarrow> StreamConfig \<Rightarrow> string \<Rightarrow> bool" where
  "captures subject_matches c s \<longleftrightarrow> (\<exists>f \<in> set (scSubjects c). subject_matches f s)"

text \<open>Matching token by token, as the documentation of the server describes it.\<close>

fun tokens_match :: "string list \<Rightarrow> string list \<Rightarrow> bool" where
  "tokens_match [] ts = (ts = [])"
| "tokens_match (f # fs) [] = False"
| "tokens_match (f # fs) (t # ts) =
     (if f = ''>'' \<and> fs = [] then True
      else (f = ''*'' \<or> f = t) \<and> tokens_match fs ts)"

definition nats_match :: "string \<Rightarrow> string \<Rightarrow> bool" where
  "nats_match f s = tokens_match (split_on (CHR ''.'') f) (split_on (CHR ''.'') s)"

text \<open>
  What the documentation of NATS promises of a filter: a literal filter matches itself only, and
  \<^verbatim>\<open>>\<close> as the last token matches every subject that continues the tokens before it with at least
  one token.
\<close>

locale nats_matching =
  fixes subject_matches :: "string \<Rightarrow> string \<Rightarrow> bool"
  assumes literal: "CHR ''*'' \<notin> set f \<Longrightarrow> CHR ''>'' \<notin> set f \<Longrightarrow> wf_nats_subject s \<Longrightarrow>
      subject_matches f s \<longleftrightarrow> s = f"
    and tail: "CHR ''*'' \<notin> set p \<Longrightarrow> CHR ''>'' \<notin> set p \<Longrightarrow> wf_nats_subject s \<Longrightarrow>
      subject_matches (p @ ''.>'') s \<longleftrightarrow> (\<exists>r. s = p @ ''.'' @ r)"
begin

lemma evidence_filter:
  "wf_nats_subject s \<Longrightarrow> subject_matches ''core.evidence.>'' s \<longleftrightarrow> (\<exists>r. s = ''core.evidence.'' @ r)"
  using tail [of "''core.evidence''" s] by simp

lemma captures_evidence:
  "wf_nats_subject s \<Longrightarrow>
     captures subject_matches EvidenceStreamConfig s \<longleftrightarrow> (\<exists>r. s = ''core.evidence.'' @ r)"
  by (simp add: captures_def EvidenceStreamConfig_def evidence_filter)

lemma captures_ingest:
  "wf_nats_subject s \<Longrightarrow> captures subject_matches IngestStreamConfig s \<longleftrightarrow> s = SubjectIngest"
  using literal [of SubjectIngest s]
  by (simp add: captures_def IngestStreamConfig_def SubjectIngest_def)

end

section \<open>Lemmas\<close>

lemma split_on_inject: "split_on d s = split_on d t \<longleftrightarrow> s = t"
  by (metis join_split_on)

lemma split_on_append_sep: "split_on d (s @ d # t) = split_on d s @ split_on d t"
proof (induction s)
  case Nil
  then show ?case by simp
next
  case (Cons c s)
  show ?case
  proof (cases "c = d")
    case True
    with Cons show ?thesis by simp
  next
    case False
    obtain p ps where "split_on d s = p # ps" by (meson neq_Nil_conv split_on_not_Nil)
    with False Cons show ?thesis by simp
  qed
qed

lemma set_split_on: "p \<in> set (split_on d s) \<Longrightarrow> set p \<subseteq> set s"
  by (induction s arbitrary: p) (fastforce split: if_splits list.splits)+

lemma tokens_match_literal:
  "''*'' \<notin> set fs \<Longrightarrow> ''>'' \<notin> set fs \<Longrightarrow> tokens_match fs ts \<longleftrightarrow> fs = ts"
  by (induction fs ts rule: tokens_match.induct) auto

lemma tokens_match_tail:
  "''*'' \<notin> set fs \<Longrightarrow> ''>'' \<notin> set fs \<Longrightarrow>
     tokens_match (fs @ [''>'']) ts \<longleftrightarrow> (\<exists>rs. rs \<noteq> [] \<and> ts = fs @ rs)"
proof (induction fs arbitrary: ts)
  case Nil
  then show ?case by (cases ts) auto
next
  case (Cons f fs)
  then show ?case by (cases ts) auto
qed

lemma no_wildcard_token:
  "CHR ''*'' \<notin> set f \<Longrightarrow> CHR ''>'' \<notin> set f \<Longrightarrow>
     ''*'' \<notin> set (split_on d f) \<and> ''>'' \<notin> set (split_on d f)"
  by (auto dest: set_split_on)

lemma join_append:
  "as \<noteq> [] \<Longrightarrow> bs \<noteq> [] \<Longrightarrow> join sep (as @ bs) = join sep as @ sep @ join sep bs"
proof (induction as rule: induct_list012)
  case (2 x)
  then show ?case by (cases bs) auto
qed auto

lemma nats_match_literal:
  "CHR ''*'' \<notin> set f \<Longrightarrow> CHR ''>'' \<notin> set f \<Longrightarrow> nats_match f s \<longleftrightarrow> s = f"
  unfolding nats_match_def
  by (subst tokens_match_literal) (auto simp: no_wildcard_token split_on_inject)

lemma split_on_extends: "(\<exists>rs. rs \<noteq> [] \<and> split_on d s = split_on d p @ rs) \<longleftrightarrow> (\<exists>r. s = p @ d # r)"
proof
  assume "\<exists>rs. rs \<noteq> [] \<and> split_on d s = split_on d p @ rs"
  then obtain rs where rs: "rs \<noteq> []" "split_on d s = split_on d p @ rs" by blast
  have "s = join [d] (split_on d p @ rs)"
    using join_split_on [of d s] rs(2) by (simp only:)
  also have "\<dots> = p @ d # join [d] rs"
    using join_append [of "split_on d p" rs "[d]"] rs(1) by (simp add: join_split_on)
  finally show "\<exists>r. s = p @ d # r" by blast
next
  assume "\<exists>r. s = p @ d # r"
  then obtain r where "s = p @ d # r" by blast
  then have "split_on d r \<noteq> [] \<and> split_on d s = split_on d p @ split_on d r"
    by (simp add: split_on_append_sep)
  then show "\<exists>rs. rs \<noteq> [] \<and> split_on d s = split_on d p @ rs" by blast
qed

lemma nats_match_tail:
  assumes "CHR ''*'' \<notin> set p" "CHR ''>'' \<notin> set p"
  shows "nats_match (p @ ''.>'') s \<longleftrightarrow> (\<exists>r. s = p @ ''.'' @ r)"
proof -
  have "split_on (CHR ''.'') (p @ ''.>'') = split_on (CHR ''.'') p @ [''>'']"
    by (simp add: split_on_append_sep)
  then have "nats_match (p @ ''.>'') s \<longleftrightarrow>
      (\<exists>rs. rs \<noteq> [] \<and> split_on (CHR ''.'') s = split_on (CHR ''.'') p @ rs)"
    using assms by (simp add: nats_match_def tokens_match_tail no_wildcard_token)
  then show ?thesis by (simp add: split_on_extends)
qed

interpretation nats: nats_matching nats_match
  by unfold_locales (simp_all add: nats_match_literal nats_match_tail)

lemma wf_subject_of_valid:
  assumes "valid_subject subj"
  shows "wf_nats_subject (''core.evidence.'' @ x @ ''.'' @ subj) \<longleftrightarrow> wf_nats_subject (''core.evidence.'' @ x)"
proof -
  have "CHR ''.'' \<notin> set subj" using assms valid_subject_safe by blast
  then have "split_on (CHR ''.'') subj = [subj]" by (rule split_on_single)
  moreover have "subj \<noteq> []" using assms by (simp add: valid_subject_def)
  ultimately show ?thesis
    using split_on_append_sep [of "CHR ''.''" "''core.evidence.'' @ x" subj]
    by (simp add: wf_nats_subject_def)
qed

lemma wf_evidence_subjects:
  assumes "valid_subject subj"
  shows "wf_nats_subject (EvidenceIngestedSubject subj)" "wf_nats_subject (EvidenceSealedSubject subj)"
proof -
  have "wf_nats_subject (''core.evidence.'' @ ''ingested'')" "wf_nats_subject (''core.evidence.'' @ ''sealed'')"
    by (simp_all add: wf_nats_subject_def)
  with wf_subject_of_valid [OF assms, of "''ingested''"] wf_subject_of_valid [OF assms, of "''sealed''"]
  show "wf_nats_subject (EvidenceIngestedSubject subj)" "wf_nats_subject (EvidenceSealedSubject subj)"
    by (simp_all add: EvidenceIngestedSubject_def EvidenceSealedSubject_def
        SubjectEvidenceIngestedPrefix_def SubjectEvidenceSealedPrefix_def)
qed

lemma wf_registration: "wf_nats_subject SubjectRegistration"
  by (simp add: wf_nats_subject_def SubjectRegistration_def)

section \<open>Properties\<close>



end
