(* ===== verification/GoEncoding.thy ===== *)
theory GoEncoding
  imports GoStrings "HOL-Library.Word"
begin

unbundle bit_operations_syntax

text \<open>
  The encodings of Go's standard library that the code uses: hexadecimal and base64 text
  (\<^verbatim>\<open>encoding/hex\<close>, \<^verbatim>\<open>encoding/base64\<close>) and the SHA-256 digest (\<^verbatim>\<open>crypto/sha256\<close>).
\<close>

section \<open>Hexadecimal\<close>

definition hex_digit :: "nat \<Rightarrow> char" where
  "hex_digit n = (if n < 10 then char_of (48 + n) else char_of (87 + n))"

definition hex_byte :: "char \<Rightarrow> string" where
  "hex_byte c = [hex_digit ((of_char c :: nat) div 16), hex_digit ((of_char c :: nat) mod 16)]"

definition hex_encode :: "bytes \<Rightarrow> string" where
  "hex_encode bs = concat (map hex_byte bs)"

text \<open>The verb \<^verbatim>\<open>%q\<close> (\<^verbatim>\<open>strconv.Quote\<close>) on text whose non-ASCII runes are printable.\<close>

definition quote_char :: "char \<Rightarrow> string" where
  "quote_char c =
     (if c = CHR 0x22 \<or> c = CHR 0x5C then [CHR 0x5C, c]
      else if c = CHR 0x07 then [CHR 0x5C, CHR ''a''] else if c = CHR 0x08 then [CHR 0x5C, CHR ''b'']
      else if c = CHR 0x0C then [CHR 0x5C, CHR ''f''] else if c = CHR 0x0A then [CHR 0x5C, CHR ''n'']
      else if c = CHR 0x0D then [CHR 0x5C, CHR ''r''] else if c = CHR 0x09 then [CHR 0x5C, CHR ''t'']
      else if c = CHR 0x0B then [CHR 0x5C, CHR ''v'']
      else if (of_char c :: nat) < 32 \<or> c = CHR 0x7F then [CHR 0x5C, CHR ''x''] @ hex_byte c
      else [c])"

definition quote :: "string \<Rightarrow> string" where
  "quote s = [CHR 0x22] @ concat (map quote_char s) @ [CHR 0x22]"

section \<open>Base64\<close>

text \<open>The two alphabets differ in the characters for 62 and 63.\<close>

definition b64_char :: "bool \<Rightarrow> nat \<Rightarrow> char" where
  "b64_char url n =
     (if n < 26 then char_of (65 + n)
      else if n < 52 then char_of (71 + n)
      else if n < 62 then char_of (n - 4)
      else if n = 62 then (if url then CHR ''-'' else CHR ''+'')
      else (if url then CHR ''_'' else CHR ''/''))"

definition b64_val :: "bool \<Rightarrow> char \<Rightarrow> nat option" where
  "b64_val url c =
     (let n = of_char c :: nat in
      if 65 \<le> n \<and> n \<le> 90 then Some (n - 65)
      else if 97 \<le> n \<and> n \<le> 122 then Some (n - 71)
      else if 48 \<le> n \<and> n \<le> 57 then Some (n + 4)
      else if c = (if url then CHR ''-'' else CHR ''+'') then Some 62
      else if c = (if url then CHR ''_'' else CHR ''/'') then Some 63
      else None)"

fun b64_encode :: "bool \<Rightarrow> bytes \<Rightarrow> string" where
  "b64_encode u [] = []"
| "b64_encode u [a] =
     (let x = of_char a :: nat
      in [b64_char u (x div 4), b64_char u (x mod 4 * 16), CHR ''='', CHR ''=''])"
| "b64_encode u [a, b] =
     (let x = of_char a :: nat; y = of_char b :: nat
      in [b64_char u (x div 4), b64_char u (x mod 4 * 16 + y div 16), b64_char u (y mod 16 * 4), CHR ''=''])"
| "b64_encode u (a # b # c # r) =
     (let x = of_char a :: nat; y = of_char b :: nat; z = of_char c :: nat
      in b64_char u (x div 4) # b64_char u (x mod 4 * 16 + y div 16) #
         b64_char u (y mod 16 * 4 + z div 64) # b64_char u (z mod 64) # b64_encode u r)"

fun b64_decode_groups :: "bool \<Rightarrow> string \<Rightarrow> bytes option" where
  "b64_decode_groups u [] = Some []"
| "b64_decode_groups u (p # q # r # s # rest) =
     (case (b64_val u p, b64_val u q) of
        (Some w, Some x) \<Rightarrow>
          (if r = CHR ''='' then
             (if s = CHR ''='' \<and> rest = [] then Some [char_of (w * 4 + x div 16)] else None)
           else (case b64_val u r of None \<Rightarrow> None
             | Some y \<Rightarrow>
               (if s = CHR ''='' then
                  (if rest = [] then Some [char_of (w * 4 + x div 16), char_of (x mod 16 * 16 + y div 4)]
                   else None)
                else (case (b64_val u s, b64_decode_groups u rest) of
                    (Some z, Some bs) \<Rightarrow>
                      Some (char_of (w * 4 + x div 16) # char_of (x mod 16 * 16 + y div 4) #
                            char_of (y mod 4 * 64 + z) # bs)
                  | _ \<Rightarrow> None))))
      | _ \<Rightarrow> None)"
| "b64_decode_groups u _ = None"

text \<open>The decoder skips line feeds and carriage returns.\<close>

definition b64_decode :: "bool \<Rightarrow> string \<Rightarrow> bytes option" where
  "b64_decode u s = b64_decode_groups u (filter (\<lambda>c. c \<noteq> CHR 0x0A \<and> c \<noteq> CHR 0x0D) s)"

abbreviation std_encode :: "bytes \<Rightarrow> string" where "std_encode \<equiv> b64_encode False"
abbreviation std_decode :: "string \<Rightarrow> bytes option" where "std_decode \<equiv> b64_decode False"
abbreviation url_encode :: "bytes \<Rightarrow> string" where "url_encode \<equiv> b64_encode True"

section \<open>SHA-256\<close>

type_synonym u32 = "32 word"

text \<open>
  The constants as the standard defines them: the first 32 bits of the fractional parts of the cube roots
  of the first 64 primes, and of the square roots of the first eight.
\<close>

fun int_root :: "nat \<Rightarrow> int \<Rightarrow> nat \<Rightarrow> int \<Rightarrow> int" where
  "int_root e n 0 x = x"
| "int_root e n (Suc k) x = int_root e n k (let y = x + 2 ^ k in if y ^ e \<le> n then y else x)"

definition sha_primes :: "int list" where
  "sha_primes = filter (\<lambda>p. list_all (\<lambda>d. p mod d \<noteq> 0) [2..p - 1]) [2..311]"

definition frac_root :: "nat \<Rightarrow> int \<Rightarrow> u32" where
  "frac_root e p = word_of_int (int_root e (p * 2 ^ (32 * e)) 37 0)"

definition sha_K :: "u32 list" where
  "sha_K = map (frac_root 3) sha_primes"

definition sha_H0 :: "u32 list" where
  "sha_H0 = map (frac_root 2) [2, 3, 5, 7, 11, 13, 17, 19]"

definition rotr32 :: "nat \<Rightarrow> u32 \<Rightarrow> u32" where
  "rotr32 n x = drop_bit n x OR push_bit (32 - n) x"

definition sha_pad :: "bytes \<Rightarrow> bytes" where
  "sha_pad m =
     (let l = length m;
          z = (119 - l mod 64) mod 64;
          n = 8 * int l
      in m @ [CHR 0x80] @ replicate z (CHR 0x00) @
         map (\<lambda>i. char_of (n div 256 ^ i)) [7, 6, 5, 4, 3, 2, 1, 0])"

fun be_words :: "bytes \<Rightarrow> u32 list" where
  "be_words (a # b # c # d # r) =
     word_of_int (((of_char a * 256 + of_char b) * 256 + of_char c) * 256 + of_char d) # be_words r"
| "be_words _ = []"

text \<open>The message schedule, newest word first.\<close>

fun sha_sched :: "nat \<Rightarrow> u32 list \<Rightarrow> u32 list" where
  "sha_sched 0 ws = ws"
| "sha_sched (Suc k) ws =
     (let x = ws ! 14; y = ws ! 1;
          s0 = rotr32 7 x XOR rotr32 18 x XOR drop_bit 3 x;
          s1 = rotr32 17 y XOR rotr32 19 y XOR drop_bit 10 y
      in sha_sched k ((s1 + ws ! 6 + s0 + ws ! 15) # ws))"

definition sha_round :: "u32 list \<Rightarrow> u32 \<times> u32 \<Rightarrow> u32 list" where
  "sha_round st kw =
     (case st of [a, b, c, d, e, f, g, h] \<Rightarrow>
        (let t1 = h + (rotr32 6 e XOR rotr32 11 e XOR rotr32 25 e) + ((e AND f) XOR (NOT e AND g))
                    + fst kw + snd kw;
             t2 = (rotr32 2 a XOR rotr32 13 a XOR rotr32 22 a) + ((a AND b) XOR (a AND c) XOR (b AND c))
         in [t1 + t2, a, b, c, d + t1, e, f, g])
      | _ \<Rightarrow> st)"

definition sha_block :: "u32 list \<Rightarrow> u32 list \<Rightarrow> u32 list" where
  "sha_block st ws = map2 (+) st (foldl sha_round st (zip sha_K (rev (sha_sched 48 (rev ws)))))"

fun sha_blocks :: "nat \<Rightarrow> u32 list \<Rightarrow> u32 list \<Rightarrow> u32 list" where
  "sha_blocks 0 st ws = st"
| "sha_blocks (Suc k) st ws = sha_blocks k (sha_block st (take 16 ws)) (drop 16 ws)"

definition word_bytes :: "u32 \<Rightarrow> bytes" where
  "word_bytes w = map (\<lambda>i. char_of (uint w div 256 ^ i)) [3, 2, 1, 0]"

definition sha256 :: "bytes \<Rightarrow> bytes" where
  "sha256 m =
     (let ws = be_words (sha_pad m)
      in concat (map word_bytes (sha_blocks (length ws div 16) sha_H0 ws)))"

section \<open>Lemmas\<close>

lemma length_hex_encode: "length (hex_encode bs) = 2 * length bs"
  by (induction bs) (auto simp: hex_encode_def hex_byte_def)

lemma of_char_less [simp]: "(of_char c :: nat) < 256"
  by (metis of_char_mod_256 mod_less_divisor zero_less_numeral)

lemma b64_val_char: "n < 64 \<Longrightarrow> b64_val u (b64_char u n) = Some n"
proof -
  assume n: "n < 64"
  consider "n < 26" | "26 \<le> n" "n < 52" | "52 \<le> n" "n < 62" | "n = 62" | "n = 63"
    using n by linarith
  then show ?thesis
    by cases (auto simp: b64_val_def b64_char_def Let_def)
qed

lemma b64_char_not_special:
  assumes "n < 64"
  shows "b64_char u n \<noteq> CHR ''=''" "b64_char u n \<noteq> CHR 0x0A" "b64_char u n \<noteq> CHR 0x0D"
proof -
  have "b64_val u (b64_char u n) \<noteq> None" using b64_val_char [OF assms] by simp
  moreover have "b64_val u (CHR ''='') = None" "b64_val u (CHR 0x0A) = None" "b64_val u (CHR 0x0D) = None"
    by (simp_all add: b64_val_def)
  ultimately show "b64_char u n \<noteq> CHR ''=''" "b64_char u n \<noteq> CHR 0x0A" "b64_char u n \<noteq> CHR 0x0D"
    by metis+
qed

lemma b64_bounds:
  "(x::nat) < 256 \<Longrightarrow> x div 4 < 64" "x mod 4 * 16 < 64" "(y::nat) < 256 \<Longrightarrow> x mod 4 * 16 + y div 16 < 64"
  "y mod 16 * 4 < 64" "(z::nat) < 256 \<Longrightarrow> y mod 16 * 4 + z div 64 < 64" "z mod 64 < 64"
  by linarith+

lemma byte_splits:
  fixes c :: char
  defines "n \<equiv> (of_char c :: nat)"
  shows "n div 16 div 16 = 0" "n div 16 mod 16 * 16 + n mod 16 = n"
    "n div 64 div 4 = 0" "n div 64 mod 4 * 64 + n mod 64 = n"
proof -
  have n: "n < 256" by (simp add: n_def)
  show "n div 16 div 16 = 0" "n div 64 div 4 = 0" using n by (simp_all add: div_mult2_eq [symmetric])
  from n have "n div 16 < 16" "n div 64 < 4" by linarith+
  then show "n div 16 mod 16 * 16 + n mod 16 = n" "n div 64 mod 4 * 64 + n mod 64 = n"
    by simp_all
qed

lemma b64_decode_groups_encode: "b64_decode_groups u (b64_encode u bs) = Some bs"
  by (induction u bs rule: b64_encode.induct)
    (simp_all add: Let_def b64_val_char b64_bounds b64_char_not_special byte_splits)

lemma b64_encode_no_newline: "c \<in> set (b64_encode u bs) \<Longrightarrow> c \<noteq> CHR 0x0A \<and> c \<noteq> CHR 0x0D"
  by (induction u bs rule: b64_encode.induct)
    (auto simp: Let_def b64_bounds b64_char_not_special)

theorem b64_decode_encode [simp, go_enc]: "b64_decode u (b64_encode u bs) = Some bs"
proof -
  have "filter (\<lambda>c. c \<noteq> CHR 0x0A \<and> c \<noteq> CHR 0x0D) (b64_encode u bs) = b64_encode u bs"
    by (rule filter_True) (auto dest: b64_encode_no_newline)
  then show ?thesis by (simp add: b64_decode_def b64_decode_groups_encode)
qed

lemma length_sha_block: "length st = 8 \<Longrightarrow> length (sha_block st ws) = 8"
proof -
  assume st: "length st = 8"
  have round: "length (sha_round s kw) = length s" if "length s = 8" for s kw
    using that by (auto simp: sha_round_def Let_def split: list.splits)
  have "length (foldl sha_round s kws) = 8" if "length s = 8" for s kws
    using that by (induction kws arbitrary: s) (auto simp: round)
  with st show ?thesis by (simp add: sha_block_def)
qed

lemma length_sha_blocks: "length st = 8 \<Longrightarrow> length (sha_blocks k st ws) = 8"
  by (induction k arbitrary: st ws) (auto simp: length_sha_block)

lemma length_concat_word_bytes: "length (concat (map word_bytes ws)) = 4 * length ws"
  by (induction ws) (auto simp: word_bytes_def)

lemma length_sha_H0: "length sha_H0 = 8"
  by (simp add: sha_H0_def)

lemma length_sha256: "length (sha256 m) = 32"
  by (simp add: sha256_def Let_def length_concat_word_bytes length_sha_blocks length_sha_H0)

end
