(* ===== verification/GoJson.thy ===== *)
theory GoJson
  imports GoEncoding GoRegex
begin

text \<open>
  JSON as Go's \<^verbatim>\<open>encoding/json\<close> reads and writes it: the value type, the compact printer of
  \<^verbatim>\<open>json.Marshal\<close> (with its HTML-safe escapes), the parser behind \<^verbatim>\<open>json.Unmarshal\<close> and
  \<^verbatim>\<open>Decoder.Decode\<close>, and the access patterns of the code (type assertions on decoded maps, struct
  fields matched without regard to case).  Strings are byte strings; the model takes their bytes
  above 127 to be valid UTF-8 and keeps numbers as their lexemes.
\<close>

section \<open>Values and printer\<close>

datatype json =
    JNull
  | JBool bool
  | JNum string
  | JStr string
  | JArr "json list"
  | JObj "(string \<times> json) list"

abbreviation dquote :: char where "dquote \<equiv> CHR 0x22"
abbreviation bslash :: char where "bslash \<equiv> CHR 0x5C"

definition esc_char :: "char \<Rightarrow> string" where
  "esc_char c =
     (if c = dquote then [bslash, dquote]
      else if c = bslash then [bslash, bslash]
      else if c = CHR 0x0A then [bslash, CHR ''n'']
      else if c = CHR 0x0D then [bslash, CHR ''r'']
      else if c = CHR 0x09 then [bslash, CHR ''t'']
      else if c = CHR 0x08 then [bslash, CHR ''b'']
      else if c = CHR 0x0C then [bslash, CHR ''f'']
      else if (of_char c :: nat) < 32 \<or> c = CHR ''<'' \<or> c = CHR ''>'' \<or> c = CHR 0x26
        then [bslash, CHR ''u'', CHR ''0'', CHR ''0''] @ hex_byte c
      else [c])"

definition print_str :: "string \<Rightarrow> string" where
  "print_str s = dquote # concat (map esc_char s) @ [dquote]"

fun print_json :: "json \<Rightarrow> string"
  and print_elems :: "json list \<Rightarrow> string"
  and print_members :: "(string \<times> json) list \<Rightarrow> string"
where
  "print_json JNull = ''null''"
| "print_json (JBool b) = (if b then ''true'' else ''false'')"
| "print_json (JNum l) = l"
| "print_json (JStr s) = print_str s"
| "print_json (JArr js) = CHR ''['' # print_elems js @ [CHR '']'']"
| "print_json (JObj ms) = CHR ''{'' # print_members ms @ [CHR ''}'']"
| "print_elems [] = []"
| "print_elems [j] = print_json j"
| "print_elems (j # k # js) = print_json j @ [CHR '',''] @ print_elems (k # js)"
| "print_members [] = []"
| "print_members [(k, j)] = print_str k @ [CHR '':''] @ print_json j"
| "print_members ((k, j) # m # ms) =
     print_str k @ [CHR '':''] @ print_json j @ [CHR '',''] @ print_members (m # ms)"

section \<open>Parser\<close>

definition hex_val :: "char \<Rightarrow> nat option" where
  "hex_val c = (let n = of_char c :: nat in
     if 48 \<le> n \<and> n \<le> 57 then Some (n - 48)
     else if 97 \<le> n \<and> n \<le> 102 then Some (n - 87)
     else if 65 \<le> n \<and> n \<le> 70 then Some (n - 55)
     else None)"

fun hex4 :: "string \<Rightarrow> nat option" where
  "hex4 (a # b # c # d # r) =
     (case (hex_val a, hex_val b, hex_val c, hex_val d) of
        (Some w, Some x, Some y, Some z) \<Rightarrow> Some (((w * 16 + x) * 16 + y) * 16 + z)
      | _ \<Rightarrow> None)"
| "hex4 _ = None"

definition utf8 :: "nat \<Rightarrow> string" where
  "utf8 v =
     (if v < 128 then [char_of v]
      else if v < 2048 then [char_of (192 + v div 64), char_of (128 + v mod 64)]
      else if v < 65536
        then [char_of (224 + v div 4096), char_of (128 + v div 64 mod 64), char_of (128 + v mod 64)]
      else [char_of (240 + v div 262144), char_of (128 + v div 4096 mod 64),
            char_of (128 + v div 64 mod 64), char_of (128 + v mod 64)])"

definition simple_escape :: "char \<Rightarrow> char option" where
  "simple_escape e =
     (if e = dquote \<or> e = bslash \<or> e = CHR ''/'' then Some e
      else if e = CHR ''n'' then Some (CHR 0x0A)
      else if e = CHR ''r'' then Some (CHR 0x0D)
      else if e = CHR ''t'' then Some (CHR 0x09)
      else if e = CHR ''b'' then Some (CHR 0x08)
      else if e = CHR ''f'' then Some (CHR 0x0C)
      else None)"

text \<open>
  One step of a string body: the bytes it denotes and how many input bytes it takes.  A lone
  surrogate becomes U+FFFD; a high surrogate followed by a low one is one code point.
\<close>

definition str_unit :: "string \<Rightarrow> (string \<times> nat) option" where
  "str_unit s =
     (case s of [] \<Rightarrow> None
      | c # r \<Rightarrow>
        (if (of_char c :: nat) < 32 then None
         else if c \<noteq> bslash then Some ([c], 1)
         else (case r of [] \<Rightarrow> None
           | e # r2 \<Rightarrow>
             (case simple_escape e of Some x \<Rightarrow> Some ([x], 2)
              | None \<Rightarrow>
                (if e \<noteq> CHR ''u'' then None
                 else (case hex4 r2 of None \<Rightarrow> None
                   | Some v \<Rightarrow>
                     (if v < 0xD800 \<or> 0xDFFF < v then Some (utf8 v, 6)
                      else (case (if take 2 (drop 4 r2) = [bslash, CHR ''u''] then hex4 (drop 6 r2) else None) of
                          Some w \<Rightarrow>
                            (if v < 0xDC00 \<and> 0xDC00 \<le> w \<and> w \<le> 0xDFFF
                             then Some (utf8 (65536 + (v - 0xD800) * 1024 + (w - 0xDC00)), 12)
                             else Some (utf8 0xFFFD, 6))
                        | None \<Rightarrow> Some (utf8 0xFFFD, 6)))))))))"

function parse_str :: "string \<Rightarrow> (string \<times> string) option" where
  "parse_str s =
     (case s of [] \<Rightarrow> None
      | c # r \<Rightarrow>
        (if c = dquote then Some ([], r)
         else (case str_unit s of None \<Rightarrow> None
           | Some (u, n) \<Rightarrow> map_option (\<lambda>(t, q). (u @ t, q)) (parse_str (drop (max 1 n) s)))))"
  by pat_completeness auto
termination
  by (relation "measure length") auto

declare parse_str.simps [simp del]

definition is_json_ws :: "char \<Rightarrow> bool" where
  "is_json_ws c \<longleftrightarrow> c = CHR '' '' \<or> c = CHR 0x09 \<or> c = CHR 0x0A \<or> c = CHR 0x0D"

abbreviation skip_ws :: "string \<Rightarrow> string" where "skip_ws \<equiv> dropWhile is_json_ws"

definition num_char :: "char \<Rightarrow> bool" where
  "num_char c \<longleftrightarrow> is_digit c \<or> c = CHR ''-'' \<or> c = CHR ''+'' \<or> c = CHR ''.'' \<or> c = CHR ''e'' \<or> c = CHR ''E''"

definition num_pattern :: rx where
  "num_pattern =
     Seq (UpTo 1 (Cls (\<lambda>c. c = CHR ''-'')))
      (Seq (Alt (rx_lit ''0'') (Seq (Cls (\<lambda>c. is_digit c \<and> c \<noteq> CHR ''0'')) (Star (Cls is_digit))))
       (Seq (UpTo 1 (Seq (rx_lit ''.'') (rx_plus (Cls is_digit))))
            (UpTo 1 (Seq (Cls (\<lambda>c. c = CHR ''e'' \<or> c = CHR ''E''))
               (Seq (UpTo 1 (Cls (\<lambda>c. c = CHR ''-'' \<or> c = CHR ''+''))) (rx_plus (Cls is_digit)))))))"

definition valid_num :: "string \<Rightarrow> bool" where
  "valid_num l \<longleftrightarrow> rx_match num_pattern l"

definition parse_num :: "string \<Rightarrow> (json \<times> string) option" where
  "parse_num s = (let l = takeWhile num_char s
     in if valid_num l then Some (JNum l, dropWhile num_char s) else None)"

definition parse_lit :: "string \<Rightarrow> json \<Rightarrow> string \<Rightarrow> (json \<times> string) option" where
  "parse_lit l j s = map_option (\<lambda>r. (j, r)) (cut_prefix s l)"

fun parse_value :: "nat \<Rightarrow> string \<Rightarrow> (json \<times> string) option"
  and parse_elems :: "nat \<Rightarrow> string \<Rightarrow> (json list \<times> string) option"
  and parse_members :: "nat \<Rightarrow> string \<Rightarrow> ((string \<times> json) list \<times> string) option"
where
  "parse_value 0 s = None"
| "parse_value (Suc n) s =
     (case skip_ws s of [] \<Rightarrow> None
      | c # r \<Rightarrow>
        (if c = dquote then map_option (\<lambda>(t, q). (JStr t, q)) (parse_str r)
         else if c = CHR ''{'' then
           (if take 1 (skip_ws r) = ''}'' then Some (JObj [], tl (skip_ws r))
            else map_option (\<lambda>(ms, q). (JObj ms, q)) (parse_members n r))
         else if c = CHR ''['' then
           (if take 1 (skip_ws r) = '']'' then Some (JArr [], tl (skip_ws r))
            else map_option (\<lambda>(js, q). (JArr js, q)) (parse_elems n r))
         else if c = CHR ''n'' then parse_lit ''null'' JNull (c # r)
         else if c = CHR ''t'' then parse_lit ''true'' (JBool True) (c # r)
         else if c = CHR ''f'' then parse_lit ''false'' (JBool False) (c # r)
         else parse_num (c # r)))"
| "parse_elems 0 s = None"
| "parse_elems (Suc n) s =
     (case parse_value n s of None \<Rightarrow> None
      | Some (v, r) \<Rightarrow>
        (case skip_ws r of [] \<Rightarrow> None
         | d # q \<Rightarrow>
           (if d = CHR '','' then map_option (\<lambda>(vs, z). (v # vs, z)) (parse_elems n q)
            else if d = CHR '']'' then Some ([v], q) else None)))"
| "parse_members 0 s = None"
| "parse_members (Suc n) s =
     (case skip_ws s of [] \<Rightarrow> None
      | c # r \<Rightarrow>
        (if c \<noteq> dquote then None
         else (case parse_str r of None \<Rightarrow> None
           | Some (k, p) \<Rightarrow>
             (case skip_ws p of [] \<Rightarrow> None
              | e # p' \<Rightarrow>
                (if e \<noteq> CHR '':'' then None
                 else (case parse_value n p' of None \<Rightarrow> None
                   | Some (v, x) \<Rightarrow>
                     (case skip_ws x of [] \<Rightarrow> None
                      | d # q \<Rightarrow>
                        (if d = CHR '','' then map_option (\<lambda>(vs, z). ((k, v) # vs, z)) (parse_members n q)
                         else if d = CHR ''}'' then Some ([(k, v)], q) else None))))))))"

text \<open>
  \<^verbatim>\<open>json.Unmarshal\<close> wants one value and nothing but white space after it; \<^verbatim>\<open>Decoder.Decode\<close> takes
  the first value and leaves the rest unread.  Every recursive call of the parser consumes a byte, so
  the length of the input is enough fuel (\<open>json_parse_print\<close> shows it for every printed value).
\<close>

definition json_parse :: "bytes \<Rightarrow> json res" where
  "json_parse s =
     (case parse_value (Suc (length s)) s of
        Some (j, r) \<Rightarrow> (if skip_ws r = [] then Inr j else Inl JsonSyntaxError)
      | None \<Rightarrow> Inl JsonSyntaxError)"

definition json_decode_first :: "bytes \<Rightarrow> json res" where
  "json_decode_first s =
     (case parse_value (Suc (length s)) s of Some (j, r) \<Rightarrow> Inr j | None \<Rightarrow> Inl JsonSyntaxError)"

section \<open>Access\<close>

text \<open>A decoded object is a Go map: a repeated key keeps its last value.\<close>

definition jget :: "(string \<times> json) list \<Rightarrow> string \<Rightarrow> json option" where
  "jget ms k = map_of (rev ms) k"

text \<open>\<^verbatim>\<open>v, ok := m[k].(string)\<close> and \<^verbatim>\<open>v, ok := m[k].(map[string]any)\<close>.\<close>

definition jget_str :: "(string \<times> json) list \<Rightarrow> string \<Rightarrow> string option" where
  "jget_str ms k = (case jget ms k of Some (JStr s) \<Rightarrow> Some s | _ \<Rightarrow> None)"

definition jget_obj :: "(string \<times> json) list \<Rightarrow> string \<Rightarrow> (string \<times> json) list option" where
  "jget_obj ms k = (case jget ms k of Some (JObj o') \<Rightarrow> Some o' | _ \<Rightarrow> None)"

text \<open>Decoding into a \<^verbatim>\<open>map[string]any\<close>: \<^verbatim>\<open>null\<close> gives the nil map, which reads as empty.\<close>

definition to_map :: "json \<Rightarrow> (string \<times> json) list res" where
  "to_map j = (case j of JObj ms \<Rightarrow> Inr ms | JNull \<Rightarrow> Inr [] | _ \<Rightarrow> Inl JsonUnmarshalTypeError)"

definition unmarshal_map :: "bytes \<Rightarrow> (string \<times> json) list res" where
  "unmarshal_map s = (case json_parse s of Inl e \<Rightarrow> Inl e | Inr j \<Rightarrow> to_map j)"

text \<open>
  Decoding into a struct: a key sets the field whose name it equals without regard to case; an
  absent key or \<^verbatim>\<open>null\<close> leaves the zero value.
\<close>

definition jfield :: "(string \<times> json) list \<Rightarrow> string \<Rightarrow> json option" where
  "jfield ms f = map_option snd (find (\<lambda>(k, v). to_lower k = to_lower f) (rev ms))"

text \<open>
  Repeated keys assign one after the other: \<^verbatim>\<open>null\<close> assigns nothing, a value of the wrong type
  makes the whole decoding fail.
\<close>

definition jvals :: "(string \<times> json) list \<Rightarrow> string \<Rightarrow> json list" where
  "jvals ms f = map snd (filter (\<lambda>(k, v). to_lower k = to_lower f) ms)"

fun assign_str :: "string \<Rightarrow> json list \<Rightarrow> string res" where
  "assign_str v [] = Inr v"
| "assign_str v (JNull # js) = assign_str v js"
| "assign_str v (JStr s # js) = assign_str s js"
| "assign_str v (_ # js) = Inl JsonUnmarshalTypeError"

definition field_str :: "(string \<times> json) list \<Rightarrow> string \<Rightarrow> string res" where
  "field_str ms f = assign_str [] (jvals ms f)"

text \<open>A \<^verbatim>\<open>[]byte\<close> field is base64 text; \<^verbatim>\<open>null\<close> makes it nil.\<close>

fun assign_bytes :: "bytes \<Rightarrow> json list \<Rightarrow> bytes res" where
  "assign_bytes v [] = Inr v"
| "assign_bytes v (JNull # js) = assign_bytes [] js"
| "assign_bytes v (JStr s # js) =
     (case std_decode s of None \<Rightarrow> Inl (Foreign ''illegal base64 data'') | Some b \<Rightarrow> assign_bytes b js)"
| "assign_bytes v (_ # js) = Inl JsonUnmarshalTypeError"

definition field_bytes :: "(string \<times> json) list \<Rightarrow> string \<Rightarrow> bytes res" where
  "field_bytes ms f = assign_bytes [] (jvals ms f)"

section \<open>Round trip\<close>

fun wf_json :: "json \<Rightarrow> bool" where
  "wf_json (JNum l) = valid_num l"
| "wf_json (JArr js) = (\<forall>j \<in> set js. wf_json j)"
| "wf_json (JObj ms) = (\<forall>m \<in> set ms. wf_json (snd m))"
| "wf_json _ = True"


lemma hex_val_digit: "n < 16 \<Longrightarrow> hex_val (hex_digit n) = Some n"
proof -
  assume n: "n < 16"
  consider "n < 10" | "10 \<le> n" by linarith
  then show ?thesis
    using n by cases (auto simp: hex_val_def hex_digit_def Let_def)
qed

lemma hex4_low_byte: "hex4 (CHR ''0'' # CHR ''0'' # hex_byte c @ r) = Some (of_char c)"
proof -
  have "(of_char c :: nat) div 16 < 16" using of_char_less [of c] by linarith
  moreover have "hex_val (CHR ''0'') = Some 0" by (simp add: hex_val_def)
  ultimately show ?thesis by (simp add: hex_byte_def hex_val_digit)
qed

lemma parse_str_unit:
  assumes "str_unit (s @ r) = Some (u, length s)" "s \<noteq> []" "hd s \<noteq> dquote"
  shows "parse_str (s @ r) = map_option (\<lambda>(t, q). (u @ t, q)) (parse_str r)"
proof -
  obtain c s' where s: "s = c # s'" using assms(2) by (cases s) auto
  have "parse_str (s @ r) =
      (case str_unit (s @ r) of None \<Rightarrow> None
       | Some (u, n) \<Rightarrow> map_option (\<lambda>(t, q). (u @ t, q)) (parse_str (drop (max 1 n) (s @ r))))"
    using assms(3) by (subst parse_str.simps) (simp add: s)
  also have "\<dots> = map_option (\<lambda>(t, q). (u @ t, q)) (parse_str r)"
    using assms(1,2) by (simp add: max_def Suc_le_eq)
  finally show ?thesis .
qed

lemma str_unit_esc: "str_unit (esc_char c @ r) = Some ([c], length (esc_char c)) \<and> esc_char c \<noteq> [] \<and>
    hd (esc_char c) \<noteq> dquote"
proof (cases "c \<in> {dquote, bslash, CHR 0x0A, CHR 0x0D, CHR 0x09, CHR 0x08, CHR 0x0C}")
  case True
  then show ?thesis by (auto simp: esc_char_def str_unit_def simple_escape_def)
next
  case False
  show ?thesis
  proof (cases "(of_char c :: nat) < 32 \<or> c = CHR ''<'' \<or> c = CHR ''>'' \<or> c = CHR 0x26")
    case True
    with False have e: "esc_char c = [bslash, CHR ''u'', CHR ''0'', CHR ''0''] @ hex_byte c"
      by (simp add: esc_char_def)
    from True have "(of_char c :: nat) < 128" by auto
    moreover have "simple_escape (CHR ''u'') = None" by (simp add: simple_escape_def)
    ultimately show ?thesis
      using hex4_low_byte [of c r]
      by (simp add: e str_unit_def utf8_def hex_byte_def)
  next
    case F: False
    with False have "esc_char c = [c]" by (simp add: esc_char_def)
    with False F show ?thesis by (simp add: str_unit_def)
  qed
qed

lemma parse_str_print [go_enc]: "parse_str (concat (map esc_char s) @ dquote # rest) = Some (s, rest)"
proof (induction s)
  case Nil
  then show ?case by (subst parse_str.simps) simp
next
  case (Cons c s)
  have "parse_str (esc_char c @ (concat (map esc_char s) @ dquote # rest)) = Some ([c] @ s, rest)"
    using parse_str_unit [of "esc_char c"] str_unit_esc [of c] Cons.IH by simp
  then show ?case by simp
qed

lemma parse_str_print_str: "\<exists>r. print_str s @ rest = dquote # r \<and> parse_str r = Some (s, rest)"
  by (simp add: print_str_def parse_str_print)

text \<open>Every byte of a word lies in a class of the expression.\<close>

fun rx_over :: "(char \<Rightarrow> bool) \<Rightarrow> rx \<Rightarrow> bool" where
  "rx_over P Zero = True"
| "rx_over P One = True"
| "rx_over P (Cls Q) = (\<forall>c. Q c \<longrightarrow> P c)"
| "rx_over P (Alt r s) = (rx_over P r \<and> rx_over P s)"
| "rx_over P (Seq r s) = (rx_over P r \<and> rx_over P s)"
| "rx_over P (Star r) = rx_over P r"
| "rx_over P (UpTo n r) = rx_over P r"

lemma rx_over_lang: "rx_lang r w \<Longrightarrow> rx_over P r \<Longrightarrow> list_all P w"
  by (induction rule: rx_lang.induct) auto

lemma valid_num_chars: "valid_num l \<Longrightarrow> l \<noteq> [] \<and> list_all num_char l"
proof
  assume "valid_num l"
  then have l: "rx_match num_pattern l" by (simp add: valid_num_def)
  then show "l \<noteq> []" by (auto simp: num_pattern_def)
  have "rx_over num_char num_pattern"
    by (auto simp: num_pattern_def num_char_def rx_plus_def is_digit_def)
  with l show "list_all num_char l" using rx_match_iff rx_over_lang by blast
qed

definition delim :: "string \<Rightarrow> bool" where
  "delim r \<longleftrightarrow> r = [] \<or> \<not> num_char (hd r)"

lemma num_char_not: "num_char c \<Longrightarrow>
    c \<noteq> dquote \<and> c \<noteq> CHR ''{'' \<and> c \<noteq> CHR ''['' \<and> c \<noteq> CHR '']'' \<and> c \<noteq> CHR ''n'' \<and> c \<noteq> CHR ''t'' \<and>
    c \<noteq> CHR ''f'' \<and> \<not> is_json_ws c"
  by (auto simp: num_char_def is_digit_def is_json_ws_def)

lemma print_json_start:
  "wf_json j \<Longrightarrow> \<exists>c r. print_json j = c # r \<and> \<not> is_json_ws c \<and> c \<noteq> CHR '']''"
proof (cases j)
  case (JNum l)
  moreover assume "wf_json j"
  ultimately have "l \<noteq> [] \<and> list_all num_char l" by (simp add: valid_num_chars)
  with JNum show ?thesis by (cases l) (auto dest: num_char_not)
qed (auto simp: print_str_def is_json_ws_def)

lemma print_json_length: "wf_json j \<Longrightarrow> 0 < length (print_json j)"
  using print_json_start [of j] by auto

abbreviation parses :: "json \<Rightarrow> bool" where
  "parses j \<equiv> (\<forall>n rest. length (print_json j) \<le> n \<longrightarrow> delim rest \<longrightarrow>
     parse_value n (print_json j @ rest) = Some (j, rest))"

lemma delim_Nil [simp]: "delim []"
  by (simp add: delim_def)

lemma delim_puncts [simp]:
  "delim (CHR '','' # r)" "delim (CHR '']'' # r)" "delim (CHR ''}'' # r)"
  by (auto simp: delim_def num_char_def is_digit_def)

lemma ws_puncts [simp]:
  "\<not> is_json_ws (CHR '','')" "\<not> is_json_ws (CHR '']'')" "\<not> is_json_ws (CHR ''}'')"
  "\<not> is_json_ws (CHR '':'')" "\<not> is_json_ws dquote" "\<not> is_json_ws (CHR ''['')" "\<not> is_json_ws (CHR ''{'')"
  by (auto simp: is_json_ws_def)

lemma parse_elems_print:
  "\<forall>x \<in> set js. parses x \<Longrightarrow> js \<noteq> [] \<Longrightarrow> length (print_elems js) < n \<Longrightarrow>
     parse_elems n (print_elems js @ CHR '']'' # rest) = Some (js, rest)"
proof (induction js arbitrary: n)
  case Nil
  then show ?case by simp
next
  case (Cons j js)
  then obtain m where n: "n = Suc m" by (cases n) auto
  show ?case
  proof (cases js)
    case Nil
    with Cons.prems n show ?thesis by simp
  next
    case (Cons k ks)
    have "length (print_json j) \<le> m" using Cons.prems(3) by (simp add: n Cons)
    then have "parse_value m (print_json j @ CHR '','' # print_elems js @ CHR '']'' # rest) =
        Some (j, CHR '','' # print_elems js @ CHR '']'' # rest)"
      using Cons.prems(1) by simp
    moreover have "parse_elems m (print_elems js @ CHR '']'' # rest) = Some (js, rest)"
      using Cons.IH [of m] Cons.prems by (simp add: n Cons)
    ultimately show ?thesis by (simp add: n Cons)
  qed
qed

lemma parse_members_print:
  "\<forall>x \<in> set ms. parses (snd x) \<Longrightarrow> ms \<noteq> [] \<Longrightarrow> length (print_members ms) < n \<Longrightarrow>
     parse_members n (print_members ms @ CHR ''}'' # rest) = Some (ms, rest)"
proof (induction ms arbitrary: n)
  case Nil
  then show ?case by simp
next
  case (Cons m ms)
  obtain k j where m: "m = (k, j)" by (cases m)
  obtain i where n: "n = Suc i" using Cons.prems(3) by (cases n) auto
  have len: "length (print_json j) \<le> i" using Cons.prems(3) by (cases ms) (auto simp: n m)
  have step: "parse_value i (print_json j @ z) = Some (j, z)" if "delim z" for z
    using Cons.prems(1) len that by (simp add: m)
  show ?case
  proof (cases ms)
    case Nil
    then show ?thesis by (simp add: n m print_str_def parse_str_print step)
  next
    case (Cons m' ms')
    have "parse_members i (print_members ms @ CHR ''}'' # rest) = Some (ms, rest)"
      using Cons.IH [of i] Cons.prems by (simp add: n m Cons)
    then show ?thesis by (simp add: n m Cons print_str_def parse_str_print step)
  qed
qed

lemma parse_value_print: "wf_json j \<Longrightarrow> parses j"
proof (induction j)
  case JNull
  show ?case
    by (intro allI impI, case_tac n) (auto simp: is_json_ws_def parse_lit_def cut_prefix_def has_prefix_def)
next
  case (JBool b)
  show ?case
    by (cases b; intro allI impI, case_tac n) (auto simp: is_json_ws_def parse_lit_def cut_prefix_def has_prefix_def)
next
  case (JNum l)
  then have l: "l \<noteq> []" "list_all num_char l" "valid_num l" by (auto simp: valid_num_chars)
  then obtain c l' where cl: "l = c # l'" by (cases l) auto
  show ?case
  proof (intro allI impI)
    fix n rest assume len: "length (print_json (JNum l)) \<le> n" and d: "delim rest"
    then obtain m where n: "n = Suc m" by (cases n) (auto simp: cl)
    from l cl have c: "num_char c" by simp
    have tw: "takeWhile num_char (l @ rest) = l" "dropWhile num_char (l @ rest) = rest"
      using l d by (auto simp: delim_def intro: takeWhile_append_stop dropWhile_append_stop)
    then have "parse_num (c # l' @ rest) = Some (JNum l, rest)"
      using l(3) cl by (simp add: parse_num_def Let_def)
    with num_char_not [OF c] show "parse_value n (print_json (JNum l) @ rest) = Some (JNum l, rest)"
      by (simp add: n cl)
  qed
next
  case (JStr s)
  show ?case
    by (intro allI impI, case_tac n) (auto simp: print_str_def parse_str_print)
next
  case (JArr js)
  show ?case
  proof (intro allI impI)
    fix n rest assume len: "length (print_json (JArr js)) \<le> n" and d: "delim rest"
    then obtain m where n: "n = Suc m" by (cases n) auto
    show "parse_value n (print_json (JArr js) @ rest) = Some (JArr js, rest)"
    proof (cases js)
      case Nil
      then show ?thesis by (simp add: n)
    next
      case (Cons j ks)
      with JArr.prems obtain c r where c: "print_json j = c # r" "\<not> is_json_ws c" "c \<noteq> CHR '']''"
        using print_json_start [of j] by auto
      then obtain r' where r': "print_elems js = c # r'" by (cases ks) (auto simp: Cons)
      have "parse_elems m (print_elems js @ CHR '']'' # rest) = Some (js, rest)"
        using JArr len by (intro parse_elems_print) (auto simp: n Cons)
      with c r' show ?thesis by (simp add: n)
    qed
  qed
next
  case (JObj ms)
  show ?case
  proof (intro allI impI)
    fix n rest assume len: "length (print_json (JObj ms)) \<le> n" and d: "delim rest"
    then obtain m where n: "n = Suc m" by (cases n) auto
    show "parse_value n (print_json (JObj ms) @ rest) = Some (JObj ms, rest)"
    proof (cases ms)
      case Nil
      then show ?thesis by (simp add: n)
    next
      case (Cons p ps)
      obtain r' where r': "print_members ms = dquote # r'"
        by (cases p; cases ps) (auto simp: Cons print_str_def)
      have "parses (snd x)" if "x \<in> set ms" for x
        using JObj.IH [of x "snd x"] JObj.prems that by (cases x) auto
      then have "parse_members m (print_members ms @ CHR ''}'' # rest) = Some (ms, rest)"
        using len by (intro parse_members_print) (simp_all add: n Cons)
      with r' show ?thesis by (simp add: n)
    qed
  qed
qed

theorem json_parse_print [simp, go_enc]: "wf_json j \<Longrightarrow> json_parse (print_json j) = Inr j"
proof -
  assume "wf_json j"
  then have "parse_value (Suc (length (print_json j))) (print_json j @ []) = Some (j, [])"
    using parse_value_print [of j] delim_Nil le_SucI order_refl by blast
  then show ?thesis by (simp add: json_parse_def del: parse_value.simps)
qed

lemma json_decode_first_print [go_enc]: "wf_json j \<Longrightarrow> json_decode_first (print_json j) = Inr j"
proof -
  assume "wf_json j"
  then have "parse_value (Suc (length (print_json j))) (print_json j @ []) = Some (j, [])"
    using parse_value_print [of j] delim_Nil le_SucI order_refl by blast
  then show ?thesis by (simp add: json_decode_first_def del: parse_value.simps)
qed

end
