(* ===== verification/Events.thy ===== *)
theory Events
  imports Nats GoJson
begin

text \<open>
  The messages the services exchange (\<^verbatim>\<open>events/events.go\<close>, \<^verbatim>\<open>internal/ingest/ref.go\<close>,
  \<^verbatim>\<open>internal/admin/types.go\<close>), their JSON encodings, and the CloudEvents publisher
  (\<^verbatim>\<open>internal/events/publisher.go\<close>).  The CloudEvents SDK and the NATS client are parameters: \<open>ce_sdk\<close>
  and \<open>bus\<close>, over a world \<open>'w\<close> that stands for everything outside the process.
\<close>

section \<open>Payloads\<close>

definition TypeEvidenceIngested :: string where
  "TypeEvidenceIngested = ''dev.complytime.evidence.ingested''"
definition TypeEvidenceSealed :: string where
  "TypeEvidenceSealed = ''dev.complytime.evidence.sealed''"
definition TypeSubjectRegistered :: string where
  "TypeSubjectRegistered = ''dev.complytime.subject.registered''"

record PublisherIdentity =
  piIssuer :: string
  piSub :: string

record EvidenceIngestedData =
  eiContentDigest :: string
  eiArtifactType :: string
  eiStorageRef :: string
  eiSubjectID :: string
  eiPublisher :: PublisherIdentity
  eiShardID :: "string option"

record EvidenceSealedData =
  esContentDigest :: string
  esLogIndex :: int
  esReceiptDigest :: string
  esReceiptType :: string
  esStorageRef :: string
  esSubjectID :: string
  esShardID :: "string option"

record IngestRef =
  irJobID :: string
  irSubjectID :: string
  irContentDigest :: string
  irArtifactType :: string
  irReceiptBytes :: bytes

record TrustEntry =
  teIssuer :: string
  teSub :: string

record RegisterRequest =
  rrSubjectID :: string
  rrRegistrantIssuer :: string
  rrRegistrantSub :: string

record RegisterResponse =
  rpVerifierKey :: string
  rpError :: string

record SealTrustRequest =
  stSubjectID :: string
  stTrustedPublishers :: "TrustEntry list"
  stOperatorIssuer :: string
  stOperatorSub :: string

record SealTrustResponse =
  srLogIndex :: nat
  srError :: string

section \<open>JSON encodings\<close>

definition omitempty :: "string \<Rightarrow> string \<Rightarrow> (string \<times> json) list" where
  "omitempty k v = (if v = [] then [] else [(k, JStr v)])"

definition omitnil :: "string \<Rightarrow> string option \<Rightarrow> (string \<times> json) list" where
  "omitnil k v = (case v of None \<Rightarrow> [] | Some s \<Rightarrow> [(k, JStr s)])"

definition publisher_json :: "PublisherIdentity \<Rightarrow> json" where
  "publisher_json p = JObj [(''issuer'', JStr (piIssuer p)), (''sub'', JStr (piSub p))]"

definition ingested_json :: "EvidenceIngestedData \<Rightarrow> json" where
  "ingested_json d = JObj
     ([(''contentDigest'', JStr (eiContentDigest d)), (''artifactType'', JStr (eiArtifactType d))]
      @ omitempty ''storageRef'' (eiStorageRef d)
      @ [(''subjectId'', JStr (eiSubjectID d)), (''publisher'', publisher_json (eiPublisher d))]
      @ omitnil ''shardId'' (eiShardID d))"

definition sealed_json :: "EvidenceSealedData \<Rightarrow> json" where
  "sealed_json d = JObj
     ([(''contentDigest'', JStr (esContentDigest d)), (''logIndex'', JNum (show_int (esLogIndex d))),
       (''receiptDigest'', JStr (esReceiptDigest d)), (''receiptType'', JStr (esReceiptType d)),
       (''storageRef'', JStr (esStorageRef d)), (''subjectId'', JStr (esSubjectID d))]
      @ omitnil ''shardId'' (esShardID d))"

definition registered_json :: "string \<Rightarrow> json" where
  "registered_json subjectID = JObj [(''subjectId'', JStr subjectID)]"

definition ingest_ref_json :: "IngestRef \<Rightarrow> json" where
  "ingest_ref_json r = JObj
     [(''jobId'', JStr (irJobID r)), (''subjectId'', JStr (irSubjectID r)),
      (''contentDigest'', JStr (irContentDigest r)), (''artifactType'', JStr (irArtifactType r)),
      (''receiptBytes'', JStr (std_encode (irReceiptBytes r)))]"

definition marshal_ingest_ref :: "IngestRef \<Rightarrow> bytes" where
  "marshal_ingest_ref r = print_json (ingest_ref_json r)"

definition ingest_ref_of :: "(string \<times> json) list \<Rightarrow> IngestRef res" where
  "ingest_ref_of ms =
     (case field_str ms ''jobId'' of Inl e \<Rightarrow> Inl e | Inr job \<Rightarrow>
     (case field_str ms ''subjectId'' of Inl e \<Rightarrow> Inl e | Inr subj \<Rightarrow>
     (case field_str ms ''contentDigest'' of Inl e \<Rightarrow> Inl e | Inr dig \<Rightarrow>
     (case field_str ms ''artifactType'' of Inl e \<Rightarrow> Inl e | Inr typ \<Rightarrow>
     (case field_bytes ms ''receiptBytes'' of Inl e \<Rightarrow> Inl e | Inr rb \<Rightarrow>
        Inr \<lparr>irJobID = job, irSubjectID = subj, irContentDigest = dig, irArtifactType = typ,
             irReceiptBytes = rb\<rparr>)))))"

definition unmarshal_ingest_ref :: "bytes \<Rightarrow> IngestRef res" where
  "unmarshal_ingest_ref s = (case unmarshal_map s of Inl e \<Rightarrow> Inl e | Inr ms \<Rightarrow> ingest_ref_of ms)"

definition register_request_json :: "RegisterRequest \<Rightarrow> json" where
  "register_request_json r = JObj
     [(''subjectId'', JStr (rrSubjectID r)), (''registrantIssuer'', JStr (rrRegistrantIssuer r)),
      (''registrantSub'', JStr (rrRegistrantSub r))]"

definition unmarshal_register_request :: "bytes \<Rightarrow> RegisterRequest res" where
  "unmarshal_register_request s =
     (case unmarshal_map s of Inl e \<Rightarrow> Inl e | Inr ms \<Rightarrow>
     (case field_str ms ''subjectId'' of Inl e \<Rightarrow> Inl e | Inr subj \<Rightarrow>
     (case field_str ms ''registrantIssuer'' of Inl e \<Rightarrow> Inl e | Inr iss \<Rightarrow>
     (case field_str ms ''registrantSub'' of Inl e \<Rightarrow> Inl e | Inr sub \<Rightarrow>
        Inr \<lparr>rrSubjectID = subj, rrRegistrantIssuer = iss, rrRegistrantSub = sub\<rparr>))))"

definition register_response_json :: "RegisterResponse \<Rightarrow> json" where
  "register_response_json r = JObj (omitempty ''verifierKey'' (rpVerifierKey r) @ omitempty ''error'' (rpError r))"

definition unmarshal_register_response :: "bytes \<Rightarrow> RegisterResponse res" where
  "unmarshal_register_response s =
     (case unmarshal_map s of Inl e \<Rightarrow> Inl e | Inr ms \<Rightarrow>
     (case field_str ms ''verifierKey'' of Inl e \<Rightarrow> Inl e | Inr k \<Rightarrow>
     (case field_str ms ''error'' of Inl e \<Rightarrow> Inl e | Inr er \<Rightarrow>
        Inr \<lparr>rpVerifierKey = k, rpError = er\<rparr>)))"

definition trust_entry_json :: "TrustEntry \<Rightarrow> json" where
  "trust_entry_json t = JObj [(''issuer'', JStr (teIssuer t)), (''sub'', JStr (teSub t))]"

definition trust_list_json :: "TrustEntry list \<Rightarrow> json" where
  "trust_list_json ts = JArr (map trust_entry_json ts)"

definition trust_entry_of :: "json \<Rightarrow> TrustEntry res" where
  "trust_entry_of j =
     (case to_map j of Inl e \<Rightarrow> Inl e | Inr ms \<Rightarrow>
     (case field_str ms ''issuer'' of Inl e \<Rightarrow> Inl e | Inr iss \<Rightarrow>
     (case field_str ms ''sub'' of Inl e \<Rightarrow> Inl e | Inr sub \<Rightarrow>
        Inr \<lparr>teIssuer = iss, teSub = sub\<rparr>)))"

fun map_res :: "('a \<Rightarrow> 'b res) \<Rightarrow> 'a list \<Rightarrow> 'b list res" where
  "map_res f [] = Inr []"
| "map_res f (x # xs) =
     (case f x of Inl e \<Rightarrow> Inl e
      | Inr y \<Rightarrow> (case map_res f xs of Inl e \<Rightarrow> Inl e | Inr ys \<Rightarrow> Inr (y # ys)))"

definition trust_list_of :: "json \<Rightarrow> TrustEntry list res" where
  "trust_list_of j = (case j of JArr js \<Rightarrow> map_res trust_entry_of js | JNull \<Rightarrow> Inr []
     | _ \<Rightarrow> Inl JsonUnmarshalTypeError)"

definition unmarshal_trust_list :: "bytes \<Rightarrow> TrustEntry list res" where
  "unmarshal_trust_list s = (case json_parse s of Inl e \<Rightarrow> Inl e | Inr j \<Rightarrow> trust_list_of j)"

definition field_trust_list :: "(string \<times> json) list \<Rightarrow> string \<Rightarrow> TrustEntry list res" where
  "field_trust_list ms f = (case jfield ms f of None \<Rightarrow> Inr [] | Some j \<Rightarrow> trust_list_of j)"

definition seal_trust_request_json :: "SealTrustRequest \<Rightarrow> json" where
  "seal_trust_request_json r = JObj
     [(''subjectId'', JStr (stSubjectID r)),
      (''trustedPublishers'', trust_list_json (stTrustedPublishers r)),
      (''operatorIssuer'', JStr (stOperatorIssuer r)), (''operatorSub'', JStr (stOperatorSub r))]"

definition unmarshal_seal_trust_request :: "bytes \<Rightarrow> SealTrustRequest res" where
  "unmarshal_seal_trust_request s =
     (case unmarshal_map s of Inl e \<Rightarrow> Inl e | Inr ms \<Rightarrow>
     (case field_str ms ''subjectId'' of Inl e \<Rightarrow> Inl e | Inr subj \<Rightarrow>
     (case field_trust_list ms ''trustedPublishers'' of Inl e \<Rightarrow> Inl e | Inr tps \<Rightarrow>
     (case field_str ms ''operatorIssuer'' of Inl e \<Rightarrow> Inl e | Inr iss \<Rightarrow>
     (case field_str ms ''operatorSub'' of Inl e \<Rightarrow> Inl e | Inr sub \<Rightarrow>
        Inr \<lparr>stSubjectID = subj, stTrustedPublishers = tps, stOperatorIssuer = iss, stOperatorSub = sub\<rparr>)))))"

definition seal_trust_response_json :: "SealTrustResponse \<Rightarrow> json" where
  "seal_trust_response_json r = JObj
     ((if srLogIndex r = 0 then [] else [(''logIndex'', JNum (show_nat (srLogIndex r)))])
      @ omitempty ''error'' (srError r))"

section \<open>The publisher\<close>

record cloud_event =
  ceType :: string
  ceSource :: string
  ceSubject :: string
  ceTime :: time
  ceData :: "json option"

text \<open>The SDK: a fresh event, setting its JSON data, its JSON form and the parser of that form.\<close>

record ce_sdk =
  ce_new :: cloud_event
  ce_set_data :: "cloud_event \<Rightarrow> json \<Rightarrow> cloud_event res"
  ce_marshal :: "cloud_event \<Rightarrow> bytes res"
  ce_parse :: "bytes \<Rightarrow> cloud_event res"

text \<open>The NATS client: core publish, JetStream publish and request-reply.\<close>

record 'w bus =
  nc_publish :: "'w \<Rightarrow> string \<Rightarrow> bytes \<Rightarrow> goerr option \<times> 'w"
  js_publish :: "'w \<Rightarrow> string \<Rightarrow> bytes \<Rightarrow> goerr option \<times> 'w"
  nc_request :: "'w \<Rightarrow> string \<Rightarrow> bytes \<Rightarrow> bytes res \<times> 'w"

text \<open>The three publishing methods differ in the event's type, data, NATS subject and error text.\<close>

definition publish_event ::
    "ce_sdk \<Rightarrow> 'w bus \<Rightarrow> string \<Rightarrow> string \<Rightarrow> string \<Rightarrow> json \<Rightarrow> string \<Rightarrow> string \<Rightarrow> 'w \<Rightarrow> goerr option \<times> 'w" where
  "publish_event sdk nc source typ subj data topic what w =
     (let ev = (ce_new sdk)\<lparr>ceType := typ, ceSource := source, ceSubject := subj\<rparr> in
      case ce_set_data sdk ev data of
        Inl e \<Rightarrow> (Some (ErrorfW ''setting event data: '' e []), w)
      | Inr ev' \<Rightarrow>
        (case ce_marshal sdk ev' of
           Inl e \<Rightarrow> (Some (ErrorfW ''marshaling event: '' e []), w)
         | Inr eventJSON \<Rightarrow>
           (case nc_publish nc w topic eventJSON of
              (Some e, w') \<Rightarrow> (Some (ErrorfW what e []), w')
            | (None, w') \<Rightarrow> (None, w'))))"

definition PublishEvidenceIngested ::
    "ce_sdk \<Rightarrow> 'w bus \<Rightarrow> string \<Rightarrow> EvidenceIngestedData \<Rightarrow> 'w \<Rightarrow> goerr option \<times> 'w" where
  "PublishEvidenceIngested sdk nc source data w =
     publish_event sdk nc source TypeEvidenceIngested (eiSubjectID data) (ingested_json data)
       (EvidenceIngestedSubject (eiSubjectID data)) ''publishing ingested event: '' w"

definition PublishEvidenceSealed ::
    "ce_sdk \<Rightarrow> 'w bus \<Rightarrow> string \<Rightarrow> EvidenceSealedData \<Rightarrow> 'w \<Rightarrow> goerr option \<times> 'w" where
  "PublishEvidenceSealed sdk nc source data w =
     publish_event sdk nc source TypeEvidenceSealed (esSubjectID data) (sealed_json data)
       (EvidenceSealedSubject (esSubjectID data)) ''publishing sealed event: '' w"

definition PublishSubjectRegistered ::
    "ce_sdk \<Rightarrow> 'w bus \<Rightarrow> string \<Rightarrow> string \<Rightarrow> 'w \<Rightarrow> goerr option \<times> 'w" where
  "PublishSubjectRegistered sdk nc source subjectID w =
     publish_event sdk nc source TypeSubjectRegistered subjectID (registered_json subjectID)
       SubjectRegistration ''publishing subject registered event: '' w"

section \<open>Lemmas\<close>

lemmas lower_eval = to_lower_def lower_char_def is_upper_def

lemma jfield_Nil [simp]: "jfield [] f = None"
  by (simp add: jfield_def)

lemma jfield_snoc: "jfield (ms @ [(k, v)]) f = (if to_lower k = to_lower f then Some v else jfield ms f)"
  by (simp add: jfield_def)

lemma jget_Nil [simp]: "jget [] k = None"
  by (simp add: jget_def)

lemma jget_snoc: "jget (ms @ [(k, v)]) f = (if f = k then Some v else jget ms f)"
  by (simp add: jget_def)

lemma map_res_map: "(\<And>x. x \<in> set xs \<Longrightarrow> f (g x) = Inr x) \<Longrightarrow> map_res f (map g xs) = Inr xs"
  by (induction xs) auto

lemma map_res_length: "map_res f xs = Inr ys \<Longrightarrow> length ys = length xs"
  by (induction xs arbitrary: ys) (auto split: sum.splits)

lemma wf_ingest_ref_json: "wf_json (ingest_ref_json r)"
  by (simp add: ingest_ref_json_def)

lemma unmarshal_marshal_ingest_ref [go_enc]: "unmarshal_ingest_ref (marshal_ingest_ref r) = Inr r"
  by (simp add: unmarshal_ingest_ref_def marshal_ingest_ref_def unmarshal_map_def wf_ingest_ref_json)
    (simp add: ingest_ref_json_def to_map_def ingest_ref_of_def field_str_def field_bytes_def
      jvals_def lower_eval)

lemma trust_entry_of_json [simp]: "trust_entry_of (trust_entry_json t) = Inr t"
  by (simp add: trust_entry_json_def trust_entry_of_def to_map_def field_str_def jvals_def lower_eval)

lemma trust_list_of_json [simp]: "trust_list_of (trust_list_json ts) = Inr ts"
  by (simp add: trust_list_json_def trust_list_of_def map_res_map)

lemma wf_trust_list_json [simp]: "wf_json (trust_list_json ts)"
  by (auto simp: trust_list_json_def trust_entry_json_def)

lemma unmarshal_trust_list_print [simp, go_enc]:
  "unmarshal_trust_list (print_json (trust_list_json ts)) = Inr ts"
  by (simp add: unmarshal_trust_list_def)

lemma unmarshal_register_request_print [simp, go_enc]:
  "unmarshal_register_request (print_json (register_request_json r)) = Inr r"
proof -
  have "wf_json (register_request_json r)" by (simp add: register_request_json_def)
  then show ?thesis
    by (simp add: unmarshal_register_request_def unmarshal_map_def)
      (simp add: register_request_json_def to_map_def field_str_def jvals_def lower_eval)
qed

lemma unmarshal_register_response_print [simp, go_enc]:
  "unmarshal_register_response (print_json (register_response_json r)) = Inr r"
proof -
  have "wf_json (register_response_json r)" by (simp add: register_response_json_def omitempty_def)
  then show ?thesis
    by (simp add: unmarshal_register_response_def unmarshal_map_def)
      (simp add: register_response_json_def omitempty_def to_map_def field_str_def jvals_def lower_eval)
qed

lemma unmarshal_seal_trust_request_print [simp, go_enc]:
  "unmarshal_seal_trust_request (print_json (seal_trust_request_json r)) = Inr r"
proof -
  have "wf_json (seal_trust_request_json r)"
    using wf_trust_list_json by (simp add: seal_trust_request_json_def)
  then show ?thesis
    by (simp add: unmarshal_seal_trust_request_def unmarshal_map_def)
      (simp add: seal_trust_request_json_def to_map_def field_str_def field_trust_list_def jfield_def jvals_def lower_eval)
qed

section \<open>A concrete client\<close>

text \<open>A bus that records what is published and answers no request, and an SDK that prints the event.\<close>

definition mem_bus :: "(string \<times> bytes) list bus" where
  "mem_bus = \<lparr>nc_publish = (\<lambda>w t d. (None, w @ [(t, d)])), js_publish = (\<lambda>w t d. (None, w @ [(t, d)])),
     nc_request = (\<lambda>w t d. (Inl (Foreign ''nats: no responders''), w))\<rparr>"

definition event_json :: "cloud_event \<Rightarrow> json" where
  "event_json ev = JObj
     ([(''specversion'', JStr ''1.0''), (''type'', JStr (ceType ev)), (''source'', JStr (ceSource ev)),
       (''subject'', JStr (ceSubject ev)), (''time'', JNum (show_int (ceTime ev)))]
      @ (case ceData ev of None \<Rightarrow> [] | Some d \<Rightarrow> [(''data'', d)]))"

definition event_of :: "(string \<times> json) list \<Rightarrow> cloud_event res" where
  "event_of ms =
     (case (jget_str ms ''type'', jget_str ms ''source'', jget_str ms ''subject'', jget ms ''time'') of
        (Some t, Some src, Some subj, Some (JNum n)) \<Rightarrow>
          Inr \<lparr>ceType = t, ceSource = src, ceSubject = subj, ceTime = snd (parse_int64 n), ceData = jget ms ''data''\<rparr>
      | _ \<Rightarrow> Inl (Foreign ''not an event''))"

definition plain_sdk :: ce_sdk where
  "plain_sdk = \<lparr>ce_new = \<lparr>ceType = [], ceSource = [], ceSubject = [], ceTime = 0, ceData = None\<rparr>,
     ce_set_data = (\<lambda>ev d. Inr (ev\<lparr>ceData := Some d\<rparr>)),
     ce_marshal = (\<lambda>ev. if wf_json (event_json ev) \<and> min_int64 \<le> ceTime ev \<and> ceTime ev \<le> max_int64
        then Inr (print_json (event_json ev)) else Inl (Foreign ''number'')),
     ce_parse = (\<lambda>bs. case unmarshal_map bs of Inl e \<Rightarrow> Inl e | Inr ms \<Rightarrow> event_of ms)\<rparr>"

text \<open>What consumers of events rely on: setting data keeps the rest, and an event survives its JSON form.\<close>

locale cloud_events =
  fixes sdk :: ce_sdk
  assumes set_data: "ce_set_data sdk ev d = Inr ev' \<Longrightarrow> ev' = ev\<lparr>ceData := Some d\<rparr>"
    and parse_marshal: "ce_marshal sdk ev = Inr bs \<Longrightarrow> ce_parse sdk bs = Inr ev"
begin

text \<open>What a successful publish puts on the bus.\<close>

lemma publish_event_done:
  assumes "publish_event sdk nc source typ subj data topic what w = (None, w')"
  shows "\<exists>bs ev. nc_publish nc w topic bs = (None, w') \<and> ce_parse sdk bs = Inr ev
    \<and> ceType ev = typ \<and> ceSource ev = source \<and> ceSubject ev = subj \<and> ceData ev = Some data"
proof -
  let ?ev = "(ce_new sdk)\<lparr>ceType := typ, ceSource := source, ceSubject := subj\<rparr>"
  obtain ev' bs where e: "ce_set_data sdk ?ev data = Inr ev'" "ce_marshal sdk ev' = Inr bs"
      "nc_publish nc w topic bs = (None, w')"
    using assms by (auto simp: publish_event_def Let_def split: sum.splits prod.splits option.splits)
  have "ev' = ?ev\<lparr>ceData := Some data\<rparr>" by (rule set_data [OF e(1)])
  then show ?thesis using e(3) parse_marshal [OF e(2)] by fastforce
qed

end

lemma event_of_json:
  assumes "min_int64 \<le> ceTime ev" "ceTime ev \<le> max_int64"
  shows "\<exists>ms. event_json ev = JObj ms \<and> event_of ms = Inr ev"
  using assms by (auto simp: event_json_def event_of_def jget_str_def jget_def parse_int64_show_int split: option.splits)

interpretation plain_events: cloud_events plain_sdk
proof unfold_locales
  show "ce_parse plain_sdk bs = Inr ev" if "ce_marshal plain_sdk ev = Inr bs" for ev bs
  proof -
    have ok: "wf_json (event_json ev)" "min_int64 \<le> ceTime ev" "ceTime ev \<le> max_int64" "bs = print_json (event_json ev)"
      using that by (auto simp: plain_sdk_def split: if_splits)
    then show ?thesis
      using event_of_json [OF ok(2,3)] json_parse_print [OF ok(1)]
      by (auto simp: plain_sdk_def unmarshal_map_def to_map_def)
  qed
qed (auto simp: plain_sdk_def)

end
