(* ===== verification/GoTime.thy ===== *)
theory GoTime
  imports GoStrings
begin

text \<open>
  Go's \<^verbatim>\<open>time.Time\<close> in UTC as nanoseconds since the Unix epoch: the civil calendar, the layouts
  \<^verbatim>\<open>time.RFC3339\<close> and \<^verbatim>\<open>time.RFC3339Nano\<close> (the JSON form of a time), and the strict parser
  that \<^verbatim>\<open>Time.UnmarshalJSON\<close> uses.  The calendar counts years from 1 March, so that a leap day ends
  its year.
\<close>

section \<open>Calendar\<close>

definition cycle_of :: "int \<Rightarrow> int \<times> int \<times> int \<times> int" where
  "cycle_of doe =
     (let c = min (doe div 36524) 3; r = doe - 36524 * c;
          q = r div 1461; r2 = r - 1461 * q;
          a = min (r2 div 365) 3
      in (c, q, a, r2 - 365 * a))"

definition month_day :: "int \<Rightarrow> int \<times> int" where
  "month_day doy =
     (let mp = (5 * doy + 2) div 153 in (mp, doy - (153 * mp + 2) div 5 + 1))"

definition civil_of_days :: "int \<Rightarrow> int \<times> int \<times> int" where
  "civil_of_days n =
     (let z = n + 719468; era = z div 146097; doe = z mod 146097 in
      case cycle_of doe of (c, q, a, doy) \<Rightarrow>
      (case month_day doy of (mp, d) \<Rightarrow>
         (let y = 400 * era + 100 * c + 4 * q + a in
          if mp < 10 then (y, mp + 3, d) else (y + 1, mp - 9, d))))"

definition days_of_civil :: "int \<times> int \<times> int \<Rightarrow> int" where
  "days_of_civil ymd =
     (case ymd of (y, m, d) \<Rightarrow>
        let y' = (if m \<le> 2 then y - 1 else y); era = y' div 400; yoe = y' mod 400;
            mp = (if m > 2 then m - 3 else m + 9);
            doy = (153 * mp + 2) div 5 + d - 1
        in 146097 * era + (365 * yoe + yoe div 4 - yoe div 100 + doy) - 719468)"

definition is_leap :: "int \<Rightarrow> bool" where
  "is_leap y \<longleftrightarrow> y mod 4 = 0 \<and> (y mod 100 \<noteq> 0 \<or> y mod 400 = 0)"

definition days_in :: "int \<Rightarrow> int \<Rightarrow> int" where
  "days_in m y = (if m = 2 then if is_leap y then 29 else 28
     else if m \<in> {4, 6, 9, 11} then 30 else 31)"

lemma cycle_of_bounds:
  assumes "0 \<le> doe" "doe < 146097" "cycle_of doe = (c, q, a, doy)"
  shows "0 \<le> c" "c \<le> 3" "0 \<le> q" "q \<le> 24" "0 \<le> a" "a \<le> 3" "0 \<le> doy" "doy \<le> 365"
    and "doe = 36524 * c + 1461 * q + 365 * a + doy"
    and "doy = 365 \<Longrightarrow> a = 3 \<and> (q = 24 \<longrightarrow> c = 3)"
proof -
  define r where "r = doe - 36524 * c"
  define r2 where "r2 = r - 1461 * q"
  have c: "c = min (doe div 36524) 3" and q: "q = r div 1461" and a: "a = min (r2 div 365) 3"
    and doy: "doy = r2 - 365 * a"
    using assms(3) by (auto simp: cycle_of_def Let_def r_def r2_def)
  have d1: "doe = 36524 * (doe div 36524) + doe mod 36524" by simp
  have m1: "0 \<le> doe mod 36524" "doe mod 36524 < 36524" by simp_all
  show c_bounds: "0 \<le> c" "c \<le> 3"
    using assms(1) by (auto simp: c pos_imp_zdiv_nonneg_iff)
  have r: "0 \<le> r" "r \<le> 36524" "c < 3 \<Longrightarrow> r < 36524"
    using d1 m1 assms(1,2) unfolding r_def c min_def by (auto split: if_splits)
  have d2: "r = 1461 * q + r mod 1461" by (simp add: q)
  have m2: "0 \<le> r mod 1461" "r mod 1461 < 1461" by simp_all
  show q_bounds: "0 \<le> q" "q \<le> 24"
    using d2 m2 r by linarith+
  have r2: "0 \<le> r2" "r2 < 1461" using d2 m2 by (simp_all add: r2_def)
  have d3: "r2 = 365 * (r2 div 365) + r2 mod 365" by simp
  have m3: "0 \<le> r2 mod 365" "r2 mod 365 < 365" by simp_all
  show "0 \<le> a" "a \<le> 3" using r2 by (auto simp: a pos_imp_zdiv_nonneg_iff)
  show "0 \<le> doy" "doy \<le> 365"
    using d3 m3 r2 unfolding doy a min_def by (auto split: if_splits)
  show "doe = 36524 * c + 1461 * q + 365 * a + doy" by (simp add: doy r2_def r_def)
  show "a = 3 \<and> (q = 24 \<longrightarrow> c = 3)" if "doy = 365"
  proof -
    have a3: "a = 3" using that d3 m3 unfolding doy a min_def by (auto split: if_splits)
    moreover have "c = 3" if "q = 24"
    proof (rule ccontr)
      assume "c \<noteq> 3"
      then have "r < 36524" using c_bounds r(3) by linarith
      moreover have "r2 = 1460" using \<open>doy = 365\<close> a3 doy by simp
      ultimately show False using that r2_def by linarith
    qed
    ultimately show ?thesis by blast
  qed
qed

lemma month_day_bounds:
  assumes "0 \<le> doy" "doy \<le> 365" "month_day doy = (mp, d)"
  shows "0 \<le> mp" "mp \<le> 11" "1 \<le> d" "d \<le> 31"
    and "mp \<in> {1, 3, 6, 8} \<Longrightarrow> d \<le> 30"
    and "mp = 11 \<Longrightarrow> d \<le> 29 \<and> (d = 29 \<longrightarrow> doy = 365)"
    and "doy = (153 * mp + 2) div 5 + d - 1"
proof -
  have mp: "mp = (5 * doy + 2) div 153" and d: "d = doy - (153 * mp + 2) div 5 + 1"
    using assms(3) by (auto simp: month_day_def Let_def)
  have b: "153 * mp \<le> 5 * doy + 2" "5 * doy + 2 < 153 * mp + 153"
    unfolding mp by linarith+
  show m: "0 \<le> mp" "mp \<le> 11" using b assms(1,2) by linarith+
  then have "mp = 0 \<or> mp = 1 \<or> mp = 2 \<or> mp = 3 \<or> mp = 4 \<or> mp = 5 \<or> mp = 6 \<or> mp = 7 \<or> mp = 8 \<or>
     mp = 9 \<or> mp = 10 \<or> mp = 11" by presburger
  then show "1 \<le> d" "d \<le> 31" "mp \<in> {1, 3, 6, 8} \<Longrightarrow> d \<le> 30"
    and "mp = 11 \<Longrightarrow> d \<le> 29 \<and> (d = 29 \<longrightarrow> doy = 365)"
    using b assms(1,2) unfolding d by (elim disjE; simp)+
  show "doy = (153 * mp + 2) div 5 + d - 1" by (simp add: d)
qed

lemma days_of_civil_of_days: "days_of_civil (civil_of_days n) = n"
proof -
  define era where "era = (n + 719468) div 146097"
  define doe where "doe = (n + 719468) mod 146097"
  obtain c q a doy where cyc: "cycle_of doe = (c, q, a, doy)" by (metis prod_cases4)
  obtain mp d where md: "month_day doy = (mp, d)" by fastforce
  have doe: "0 \<le> doe" "doe < 146097" by (simp_all add: doe_def)
  note cb = cycle_of_bounds [OF doe cyc]
  note mb = month_day_bounds [OF cb(7,8) md]
  define s where "s = 100 * c + 4 * q + a"
  have s: "0 \<le> s" "s < 400" using cb(1-6) by (simp_all add: s_def)
  have y: "400 * era + 100 * c + 4 * q + a = s + 400 * era" by (simp add: s_def)
  have yoe: "(400 * era + 100 * c + 4 * q + a) div 400 = era"
      "(400 * era + 100 * c + 4 * q + a) mod 400 = 100 * c + 4 * q + a"
    using s unfolding y by (simp_all add: s_def)
  have quarter: "(100 * c + 4 * q + a) div 4 = 25 * c + q" "(100 * c + 4 * q + a) div 100 = c"
    using cb(1-6) by linarith+
  have n: "146097 * era + doe - 719468 = n" by (simp add: era_def doe_def)
  have civil: "civil_of_days n = (if mp < 10 then (400 * era + 100 * c + 4 * q + a, mp + 3, d)
      else (400 * era + 100 * c + 4 * q + a + 1, mp - 9, d))"
    by (simp add: civil_of_days_def Let_def cyc md flip: era_def doe_def)
  have "365 * (100 * c + 4 * q + a) + (25 * c + q) - c + doy = doe" using cb(9) by (simp add: algebra_simps)
  then show ?thesis
    using n mb(1,2,7) by (auto simp: civil days_of_civil_def Let_def yoe quarter)
qed

text \<open>The day a number of days denotes exists in its month.\<close>

lemma civil_of_days_valid:
  assumes "civil_of_days n = (y, m, d)"
  shows "1 \<le> m" "m \<le> 12" "1 \<le> d" "d \<le> days_in m y"
proof -
  define era where "era = (n + 719468) div 146097"
  define doe where "doe = (n + 719468) mod 146097"
  obtain c q a doy where cyc: "cycle_of doe = (c, q, a, doy)" by (metis prod_cases4)
  obtain mp d' where md: "month_day doy = (mp, d')" by fastforce
  have doe: "0 \<le> doe" "doe < 146097" by (simp_all add: doe_def)
  note cb = cycle_of_bounds [OF doe cyc]
  note mb = month_day_bounds [OF cb(7,8) md]
  define y0 where "y0 = 400 * era + 100 * c + 4 * q + a"
  have civil: "(y, m, d) = (if mp < 10 then (y0, mp + 3, d') else (y0 + 1, mp - 9, d'))"
    using assms cyc md by (simp add: civil_of_days_def Let_def y0_def era_def doe_def split: if_splits)
  show "1 \<le> m" "m \<le> 12" "1 \<le> d" using civil mb(1-3) by (auto split: if_splits)
  have leap: "is_leap (y0 + 1)" if "doy = 365"
  proof -
    have a: "a = 3" and qc: "q = 24 \<longrightarrow> c = 3" using cb(10) that by blast+
    have y1: "y0 + 1 = 400 * era + (100 * c + 4 * (q + 1))" by (simp add: y0_def a)
    show ?thesis
    proof (cases "q = 24")
      case True
      then show ?thesis using qc y1 by (simp add: is_leap_def)
    next
      case False
      then have q: "0 < 4 * (q + 1)" "4 * (q + 1) < 100" using cb(3,4) by auto
      have "(y0 + 1) mod 100 = (4 * (q + 1) + 100 * (4 * era + c)) mod 100"
        unfolding y1 by (rule arg_cong [where f = "\<lambda>x. x mod 100"]) simp
      also have "\<dots> = 4 * (q + 1)" using q by (simp only: mod_mult_self2) simp
      finally have "(y0 + 1) mod 100 \<noteq> 0" using q by simp
      moreover have "(y0 + 1) mod 4 = 0"
      proof -
        have "y0 + 1 = 4 * (100 * era + 25 * c + q + 1)" by (simp add: y1)
        then show ?thesis by simp
      qed
      ultimately show ?thesis by (simp add: is_leap_def)
    qed
  qed
  show "d \<le> days_in m y"
  proof (cases "mp = 11")
    case True
    then show ?thesis using civil mb(6) leap by (auto simp: days_in_def)
  next
    case False
    then show ?thesis using civil mb(1,2,4,5) by (auto simp: days_in_def split: if_splits)
  qed
qed

section \<open>Layouts\<close>

definition pad :: "nat \<Rightarrow> nat \<Rightarrow> string" where
  "pad w n = replicate (w - length (show_nat n)) (CHR ''0'') @ show_nat n"

abbreviation nanos :: int where "nanos \<equiv> 1000000000"

definition date_time :: "int \<Rightarrow> string" where
  "date_time secs =
     (case civil_of_days (secs div 86400) of (y, m, d) \<Rightarrow>
        let s = secs mod 86400 in
        (if y < 0 then ''-'' @ pad 4 (nat (- y)) else pad 4 (nat y))
        @ ''-'' @ pad 2 (nat m) @ ''-'' @ pad 2 (nat d)
        @ ''T'' @ pad 2 (nat (s div 3600)) @ '':'' @ pad 2 (nat (s div 60 mod 60)) @ '':'' @ pad 2 (nat (s mod 60)))"

text \<open>\<^verbatim>\<open>t.UTC().Format(time.RFC3339)\<close>.\<close>

definition format_rfc3339 :: "time \<Rightarrow> string" where
  "format_rfc3339 t = date_time (t div nanos) @ ''Z''"

text \<open>\<^verbatim>\<open>time.RFC3339Nano\<close>: the fraction without its trailing zeros, and no point when it is zero.\<close>

definition fraction :: "int \<Rightarrow> string" where
  "fraction ns = (let f = trim_right_by (\<lambda>c. c = CHR ''0'') (pad 9 (nat ns)) in
     if f = [] then [] else CHR ''.'' # f)"

definition format_rfc3339nano :: "time \<Rightarrow> string" where
  "format_rfc3339nano t = date_time (t div nanos) @ fraction (t mod nanos) @ ''Z''"

definition year_of :: "time \<Rightarrow> int" where
  "year_of t = fst (civil_of_days (t div nanos div 86400))"

text \<open>\<^verbatim>\<open>Time.MarshalJSON\<close> refuses a year outside 0..9999.\<close>

definition time_marshal :: "time \<Rightarrow> string res" where
  "time_marshal t = (if 0 \<le> year_of t \<and> year_of t \<le> 9999 then Inr (format_rfc3339nano t)
     else Inl (Errorf ''Time.MarshalJSON: year outside of range [0,9999]''))"

section \<open>Parsing\<close>

definition take_num :: "nat \<Rightarrow> string \<Rightarrow> (nat \<times> string) option" where
  "take_num w s = (if w \<le> length s \<and> list_all is_digit (take w s) then
     Some (read_digits (take w s), drop w s) else None)"

definition take_ch :: "char \<Rightarrow> string \<Rightarrow> string option" where
  "take_ch c s = (case s of [] \<Rightarrow> None | x # xs \<Rightarrow> if x = c then Some xs else None)"

text \<open>A point must have a digit after it; digits beyond the ninth are dropped.\<close>

definition take_frac :: "string \<Rightarrow> (int \<times> string) option" where
  "take_frac s = (case take_ch (CHR ''.'') s of None \<Rightarrow> Some (0, s)
     | Some r \<Rightarrow>
       (let ds = takeWhile is_digit r in
        if ds = [] then None
        else Some (int (read_digits (take 9 (ds @ replicate 9 (CHR ''0'')))), dropWhile is_digit r)))"

text \<open>The offset in seconds; the zone must end the text.\<close>

definition take_zone :: "string \<Rightarrow> int option" where
  "take_zone s = (case s of
       [] \<Rightarrow> None
     | c # r \<Rightarrow>
       if c = CHR ''Z'' then (if r = [] then Some 0 else None)
       else if c = CHR ''+'' \<or> c = CHR ''-'' then
         Option.bind (take_num 2 r) (\<lambda>(h, r1). Option.bind (take_ch (CHR '':'') r1) (\<lambda>r2.
         Option.bind (take_num 2 r2) (\<lambda>(mi, r3).
           if r3 = [] \<and> h \<le> 23 \<and> mi \<le> 59
           then Some ((if c = CHR ''-'' then -1 else 1) * (int h * 3600 + int mi * 60)) else None)))
       else None)"

definition parse_rfc3339 :: "string \<Rightarrow> time option" where
  "parse_rfc3339 s =
     Option.bind (take_num 4 s) (\<lambda>(y, s). Option.bind (take_ch (CHR ''-'') s) (\<lambda>s.
     Option.bind (take_num 2 s) (\<lambda>(m, s). Option.bind (take_ch (CHR ''-'') s) (\<lambda>s.
     Option.bind (take_num 2 s) (\<lambda>(d, s). Option.bind (take_ch (CHR ''T'') s) (\<lambda>s.
     Option.bind (take_num 2 s) (\<lambda>(h, s). Option.bind (take_ch (CHR '':'') s) (\<lambda>s.
     Option.bind (take_num 2 s) (\<lambda>(mi, s). Option.bind (take_ch (CHR '':'') s) (\<lambda>s.
     Option.bind (take_num 2 s) (\<lambda>(sec, s). Option.bind (take_frac s) (\<lambda>(ns, s).
     Option.bind (take_zone s) (\<lambda>off.
       if 1 \<le> m \<and> m \<le> 12 \<and> 1 \<le> d \<and> int d \<le> days_in (int m) (int y) \<and> h \<le> 23 \<and> mi \<le> 59 \<and> sec \<le> 59
       then Some ((days_of_civil (int y, int m, int d) * 86400 + int h * 3600 + int mi * 60 + int sec - off) * nanos + ns)
       else None)))))))))))))"

text \<open>Year 1, the zero value of \<^verbatim>\<open>time.Time\<close>.\<close>

definition zero_time :: time where
  "zero_time = - 62135596800 * nanos"

section \<open>Round trip\<close>

lemma length_show_nat: "0 < w \<Longrightarrow> n < 10 ^ w \<Longrightarrow> length (show_nat n) \<le> w"
proof (induction n arbitrary: w rule: show_nat.induct)
  case (1 n)
  show ?case
  proof (cases "n < 10")
    case True
    then show ?thesis using "1.prems" by (simp add: show_nat.simps [of n])
  next
    case False
    then obtain v where w: "w = Suc v" "0 < v"
      using "1.prems" by (cases w; cases "w - 1") auto
    have "n div 10 < 10 ^ v" using "1.prems"(2) w by (simp add: less_mult_imp_div_less mult.commute)
    then have "length (show_nat (n div 10)) \<le> v" using "1.IH" False w by blast
    then show ?thesis using False w by (simp add: show_nat.simps [of n])
  qed
qed

lemma read_digits_zeros: "read_digits (replicate k (CHR ''0'') @ s) = read_digits s"
proof -
  have "foldl (\<lambda>n c. 10 * n + digit_val c) 0 (replicate k (CHR ''0'')) = 0"
    by (induction k) (simp_all add: digit_val_def)
  then show ?thesis by (simp add: read_digits_def)
qed

lemma pad_props:
  assumes "0 < w" "n < 10 ^ w"
  shows "length (pad w n) = w" "list_all is_digit (pad w n)" "read_digits (pad w n) = n"
  using length_show_nat [OF assms] show_nat_props [of n]
  by (auto simp: pad_def read_digits_zeros list_all_iff is_digit_def)

lemma take_num_pad [simp]:
  assumes "0 < w" "n < 10 ^ w"
  shows "take_num w (pad w n @ s) = Some (n, s)"
  using pad_props [OF assms] by (simp add: take_num_def)

lemma take_ch_Cons [simp]: "take_ch c (c # s) = Some s"
  by (simp add: take_ch_def)

lemma trim_right_refill:
  assumes "length s = k"
  shows "take k (trim_right_by (\<lambda>c. c = z) s @ replicate k z) = s"
proof -
  let ?t = "rev (dropWhile (\<lambda>c. c = z) (rev s))" and ?d = "rev (takeWhile (\<lambda>c. c = z) (rev s))"
  have s: "s = ?t @ ?d" by (metis rev_append rev_rev_ident takeWhile_dropWhile_id)
  have "set ?d \<subseteq> {z}" by (auto dest: set_takeWhileD)
  then have d: "?d = replicate (length ?d) z" by (metis replicate_eqI singletonD subsetD)
  have "k = length ?t + length ?d" using s assms by (metis length_append)
  then show ?thesis
    using s d by (simp add: trim_right_by_def take_replicate min_def)
qed

lemma take_frac_fraction:
  assumes "0 \<le> ns" "ns < nanos"
  shows "take_frac (fraction ns @ ''Z'') = Some (ns, ''Z'')"
proof -
  let ?p = "pad 9 (nat ns)" and ?f = "trim_right_by (\<lambda>c. c = CHR ''0'') (pad 9 (nat ns))"
  have "nat ns < 10 ^ 9" using assms by simp
  note p = pad_props [OF _ this, simplified]
  have digits: "list_all is_digit ?f"
    using p(2) set_trim_right_by [of "\<lambda>c. c = CHR ''0''" ?p] by (auto simp: list_all_iff)
  have refill: "take 9 (?f @ replicate 9 (CHR ''0'')) = ?p" by (rule trim_right_refill) (rule p)
  show ?thesis
  proof (cases "?f = []")
    case True
    then have "?p = replicate 9 (CHR ''0'')" using refill by simp
    then have "nat ns = 0" using p(3) read_digits_zeros [of 9 "[]"] by (simp add: read_digits_def)
    then show ?thesis using True assms by (simp add: fraction_def take_frac_def take_ch_def)
  next
    case False
    have "takeWhile is_digit (?f @ ''Z'') = ?f" "dropWhile is_digit (?f @ ''Z'') = ''Z''"
      using digits by (auto simp: list_all_iff takeWhile_append2 dropWhile_append2 is_digit_def)
    then show ?thesis using False refill p(3) assms by (simp add: fraction_def take_frac_def Let_def)
  qed
qed

text \<open>The JSON form of a time is read back as the same instant.\<close>

lemma parse_format_rfc3339nano [go_enc]:
  assumes "0 \<le> year_of t" "year_of t \<le> 9999"
  shows "parse_rfc3339 (format_rfc3339nano t) = Some t"
proof -
  obtain y m d where c: "civil_of_days (t div nanos div 86400) = (y, m, d)" by (metis prod_cases3)
  define secs where "secs = t div nanos"
  define h where "h = secs mod 86400 div 3600"
  define mi where "mi = secs mod 86400 div 60 mod 60"
  define se where "se = secs mod 86400 mod 60"
  define ns where "ns = t mod nanos"
  have y: "0 \<le> y" "y \<le> 9999" using assms c by (simp_all add: year_of_def)
  note v = civil_of_days_valid [OF c]
  have d31: "d \<le> 31" using v(4) by (auto simp: days_in_def split: if_splits)
  have hms: "0 \<le> h" "h < 24" "0 \<le> mi" "mi < 60" "0 \<le> se" "se < 60"
    by (simp_all add: h_def mi_def se_def pos_imp_zdiv_nonneg_iff)
  have "secs mod 86400 div 60 div 60 = h" by (simp add: h_def zdiv_zmult2_eq [symmetric])
  moreover have "secs mod 86400 div 60 div 60 * 60 + mi = secs mod 86400 div 60"
    unfolding mi_def by (rule div_mult_mod_eq)
  moreover have "secs mod 86400 div 60 * 60 + se = secs mod 86400"
    unfolding se_def by (rule div_mult_mod_eq)
  ultimately have sum: "h * 3600 + mi * 60 + se = secs mod 86400" by simp
  have days: "days_of_civil (y, m, d) * 86400 + secs mod 86400 = secs"
    using days_of_civil_of_days [of "secs div 86400"] c by (simp add: secs_def)
  have t: "secs * nanos + ns = t" by (simp add: secs_def ns_def)
  have total: "(days_of_civil (y, m, d) * 86400 + h * 3600 + mi * 60 + se - 0) * nanos + ns = t"
    using days sum t by (simp add: add.assoc)
  have n: "nat y < 10 ^ 4" "nat m < 10 ^ 2" "nat d < 10 ^ 2" "nat h < 10 ^ 2" "nat mi < 10 ^ 2" "nat se < 10 ^ 2"
    using y v(1,2) d31 hms by simp_all
  have frac: "take_frac (fraction ns @ ''Z'') = Some (ns, ''Z'')"
    unfolding ns_def by (rule take_frac_fraction) simp_all
  have zone: "take_zone ''Z'' = Some 0" by (simp add: take_zone_def)
  have dt: "format_rfc3339nano t = pad 4 (nat y) @ CHR ''-'' # pad 2 (nat m) @ CHR ''-'' # pad 2 (nat d)
      @ CHR ''T'' # pad 2 (nat h) @ CHR '':'' # pad 2 (nat mi) @ CHR '':''
      # pad 2 (nat se) @ fraction ns @ ''Z''"
    using y c unfolding format_rfc3339nano_def date_time_def h_def mi_def se_def ns_def secs_def
    by (simp add: Let_def)
  have ok: "1 \<le> nat m \<and> nat m \<le> 12 \<and> 1 \<le> nat d \<and> int (nat d) \<le> days_in (int (nat m)) (int (nat y))
      \<and> nat h \<le> 23 \<and> nat mi \<le> 59 \<and> nat se \<le> 59"
    using y v hms by (simp add: nat_le_iff Suc_le_eq)
  have ints: "int (nat y) = y" "int (nat m) = m" "int (nat d) = d" "int (nat h) = h" "int (nat mi) = mi" "int (nat se) = se"
    using y v hms by simp_all
  note nums = n [THEN take_num_pad [rotated], simplified]
  show ?thesis
    unfolding dt parse_rfc3339_def nums take_ch_Cons frac zone Option.bind.simps prod.case ints total
    by (rule if_P [OF ok [unfolded ints]])
qed

end
