(* ===== verification/Trust.thy ===== *)
theory Trust
  imports Events GoTime
begin

text \<open>
  The trust store (\<^verbatim>\<open>internal/trust/store.go\<close>) over four JetStream key-value buckets.  A bucket is a
  parameter: the record \<open>kv\<close> holds its operations over a bucket state \<open>'s\<close> and the locale
  \<open>kv_store\<close> states the documented behaviour the store relies on (a successful create found no live key, a
  successful update saw the expected revision, other keys are untouched).  \<open>mem_kv\<close> is an in-memory bucket
  with these laws.
\<close>

section \<open>The key-value interface\<close>

record kv_entry =
  keValue :: bytes
  keRevision :: nat

record 's kv =
  kv_get :: "'s \<Rightarrow> time \<Rightarrow> string \<Rightarrow> kv_entry res"
  kv_create :: "'s \<Rightarrow> time \<Rightarrow> string \<Rightarrow> bytes \<Rightarrow> nat res \<times> 's"
  kv_put :: "'s \<Rightarrow> time \<Rightarrow> string \<Rightarrow> bytes \<Rightarrow> nat res \<times> 's"
  kv_update :: "'s \<Rightarrow> time \<Rightarrow> string \<Rightarrow> bytes \<Rightarrow> nat \<Rightarrow> nat res \<times> 's"

text \<open>A key written at \<open>t0\<close> lives for the bucket's TTL; a zero TTL never expires.\<close>

definition kv_live :: "duration \<Rightarrow> time \<Rightarrow> time \<Rightarrow> bool" where
  "kv_live ttl t0 t \<longleftrightarrow> ttl = 0 \<or> t < t0 + ttl"

locale kv_store =
  fixes kv :: "'s kv"
    and view :: "'s \<Rightarrow> time \<Rightarrow> string \<Rightarrow> kv_entry option"
    and ttl :: "'s \<Rightarrow> duration"
  assumes view_no_ttl: "ttl s = 0 \<Longrightarrow> view s t k = view s t' k"
    and get_found: "kv_get kv s t k = Inr e \<Longrightarrow> view s t k = Some e"
    and get_missing: "kv_get kv s t k = Inl err \<Longrightarrow> errors_is err ErrKeyNotFound \<Longrightarrow> view s t k = None"
    and create_done: "kv_create kv s t k v = (Inr r, s') \<Longrightarrow> kv_live (ttl s) t t' \<Longrightarrow>
        view s t k = None \<and> view s' t' k = Some \<lparr>keValue = v, keRevision = r\<rparr>"
    and create_taken: "view s t k = Some e \<Longrightarrow> kv_create kv s t k v = (q, s') \<Longrightarrow>
        (\<exists>err. q = Inl err) \<and> view s' = view s"
    and create_frame: "kv_create kv s t k v = (q, s') \<Longrightarrow> ttl s' = ttl s \<and> (k' \<noteq> k \<longrightarrow> view s' t' k' = view s t' k')"
    and put_done: "kv_put kv s t k v = (Inr r, s') \<Longrightarrow> kv_live (ttl s) t t' \<Longrightarrow>
        view s' t' k = Some \<lparr>keValue = v, keRevision = r\<rparr>"
    and put_frame: "kv_put kv s t k v = (q, s') \<Longrightarrow> ttl s' = ttl s \<and> (k' \<noteq> k \<longrightarrow> view s' t' k' = view s t' k')"
    and update_done: "kv_update kv s t k v r0 = (Inr r, s') \<Longrightarrow> kv_live (ttl s) t t' \<Longrightarrow>
        (\<exists>e. view s t k = Some e \<and> keRevision e = r0) \<and> r0 < r \<and>
        view s' t' k = Some \<lparr>keValue = v, keRevision = r\<rparr>"
    and update_stale: "\<forall>e. view s t k = Some e \<longrightarrow> keRevision e \<noteq> r0 \<Longrightarrow> kv_update kv s t k v r0 = (q, s') \<Longrightarrow>
        (\<exists>err. q = Inl err) \<and> view s' = view s"
    and update_frame: "kv_update kv s t k v r0 = (q, s') \<Longrightarrow> ttl s' = ttl s \<and> (k' \<noteq> k \<longrightarrow> view s' t' k' = view s t' k')"

section \<open>The store\<close>

record JWKRecord =
  jrJWK :: "json option"
  jrNotAfter :: time

record 's TrustStore =
  publisherKV :: 's
  subjectKV :: 's
  jwkKV :: 's
  jtiKV :: 's

definition NewTrustStore :: "(string \<Rightarrow> 's res) \<Rightarrow> 's TrustStore res" where
  "NewTrustStore js_KeyValue =
     (case js_KeyValue PublisherTrustBucket of
        Inl e \<Rightarrow> Inl (ErrorfW ''accessing publisher trust KV: '' e [])
      | Inr p \<Rightarrow>
     (case js_KeyValue SubjectRegistryBucket of
        Inl e \<Rightarrow> Inl (ErrorfW ''accessing subject registry KV: '' e [])
      | Inr s \<Rightarrow>
     (case js_KeyValue StaticJWKBucket of
        Inl e \<Rightarrow> Inl (ErrorfW ''accessing static JWK KV: '' e [])
      | Inr j \<Rightarrow>
     (case js_KeyValue JTIReplayBucket of
        Inl e \<Rightarrow> Inl (ErrorfW ''accessing JTI replay KV: '' e [])
      | Inr i \<Rightarrow> Inr \<lparr>publisherKV = p, subjectKV = s, jwkKV = j, jtiKV = i\<rparr>))))"

definition strip_newlines :: "string \<Rightarrow> string" where
  "strip_newlines s = replace_all (CHR 0x0D) [] (replace_all (CHR 0x0A) [] s)"

definition subjectKey :: "string \<Rightarrow> string" where
  "subjectKey subjectID = ''subjects.'' @ subjectID"

fun trust_scan :: "TrustEntry list \<Rightarrow> string \<Rightarrow> string \<Rightarrow> bool" where
  "trust_scan [] issuer sub = False"
| "trust_scan (t # ts) issuer sub = (if teIssuer t = issuer \<and> teSub t = sub then True else trust_scan ts issuer sub)"

definition IsPublisherTrusted ::
    "'s kv \<Rightarrow> 's TrustStore \<Rightarrow> time \<Rightarrow> string \<Rightarrow> string \<Rightarrow> string \<Rightarrow> bool res" where
  "IsPublisherTrusted kv s now subjectID issuer sub =
     (case kv_get kv (publisherKV s) now (subjectKey subjectID) of
        Inl err \<Rightarrow>
          if errors_is err ErrKeyNotFound then Inr False
          else Inl (ErrorfW (''trust lookup failed for subject '' @ strip_newlines subjectID @ '': '') err [])
      | Inr entry \<Rightarrow>
        (case unmarshal_trust_list (keValue entry) of
           Inl err \<Rightarrow> Inl (ErrorfW (''parsing trust list for subject '' @ strip_newlines subjectID @ '': '') err [])
         | Inr trustList \<Rightarrow> Inr (trust_scan trustList issuer sub)))"

text \<open>
  The compare-and-swap of \<^verbatim>\<open>SetPublisherTrust\<close> in its two round trips: the read of the current entry
  and the write that depends on it.  Another gateway may write between them.
\<close>

definition trust_read :: "'s kv \<Rightarrow> 's TrustStore \<Rightarrow> time \<Rightarrow> string \<Rightarrow> kv_entry option res" where
  "trust_read kv s now subjectID =
     (case kv_get kv (publisherKV s) now (subjectKey subjectID) of
        Inl err \<Rightarrow>
          if errors_is err ErrKeyNotFound then Inr None
          else Inl (ErrorfW (''reading current trust for subject '' @ strip_newlines subjectID @ '': '') err [])
      | Inr entry \<Rightarrow> Inr (Some entry))"

definition trust_write ::
    "'s kv \<Rightarrow> 's TrustStore \<Rightarrow> time \<Rightarrow> string \<Rightarrow> bytes \<Rightarrow> kv_entry option \<Rightarrow> goerr option \<times> 's TrustStore" where
  "trust_write kv s now subjectID data snapshot =
     (case snapshot of
        None \<Rightarrow>
          (case kv_create kv (publisherKV s) now (subjectKey subjectID) data of
             (Inl err, p) \<Rightarrow> (Some (ErrorfW (''creating trust for subject '' @ strip_newlines subjectID @ '': '') err []),
                              s\<lparr>publisherKV := p\<rparr>)
           | (Inr _, p) \<Rightarrow> (None, s\<lparr>publisherKV := p\<rparr>))
      | Some entry \<Rightarrow>
          (case kv_update kv (publisherKV s) now (subjectKey subjectID) data (keRevision entry) of
             (Inl err, p) \<Rightarrow> (Some (ErrorfW (''updating trust for subject '' @ strip_newlines subjectID
                                @ '' (concurrent modification): '') err []), s\<lparr>publisherKV := p\<rparr>)
           | (Inr _, p) \<Rightarrow> (None, s\<lparr>publisherKV := p\<rparr>)))"

definition SetPublisherTrust ::
    "'s kv \<Rightarrow> 's TrustStore \<Rightarrow> time \<Rightarrow> string \<Rightarrow> TrustEntry list \<Rightarrow> goerr option \<times> 's TrustStore" where
  "SetPublisherTrust kv s now subjectID publishers =
     (let data = print_json (trust_list_json publishers) in
      case trust_read kv s now subjectID of
        Inl err \<Rightarrow> (Some err, s)
      | Inr snapshot \<Rightarrow> trust_write kv s now subjectID data snapshot)"

definition RegisterSubject :: "'s kv \<Rightarrow> 's TrustStore \<Rightarrow> time \<Rightarrow> string \<Rightarrow> goerr option \<times> 's TrustStore" where
  "RegisterSubject kv s now subjectID =
     (case kv_put kv (subjectKV s) now subjectID ''{}'' of
        (Inl err, b) \<Rightarrow> (Some (ErrorfW (''registering subject '' @ strip_newlines subjectID @ '': '') err []),
                         s\<lparr>subjectKV := b\<rparr>)
      | (Inr _, b) \<Rightarrow> (None, s\<lparr>subjectKV := b\<rparr>))"

definition SubjectExists :: "'s kv \<Rightarrow> 's TrustStore \<Rightarrow> time \<Rightarrow> string \<Rightarrow> bool res" where
  "SubjectExists kv s now subjectID =
     (case kv_get kv (subjectKV s) now subjectID of
        Inl err \<Rightarrow>
          if errors_is err ErrKeyNotFound then Inr False
          else Inl (ErrorfW (''checking subject existence '' @ strip_newlines subjectID @ '': '') err [])
      | Inr _ \<Rightarrow> Inr True)"

definition ClaimJTI :: "'s kv \<Rightarrow> 's TrustStore \<Rightarrow> time \<Rightarrow> string \<Rightarrow> duration \<Rightarrow> goerr option \<times> 's TrustStore" where
  "ClaimJTI kv s now jti _ =
     (case kv_create kv (jtiKV s) now jti ''1'' of
        (Inl err, b) \<Rightarrow>
          (if errors_is err ErrKeyExists
           then Some (Errorf (''token jti '' @ quote jti @ '' already used (replay attempt)''))
           else Some (ErrorfW ''claiming jti: '' err []), s\<lparr>jtiKV := b\<rparr>)
      | (Inr _, b) \<Rightarrow> (None, s\<lparr>jtiKV := b\<rparr>))"

text \<open>
  The JSON form of a record.  A \<^verbatim>\<open>json.RawMessage\<close> is kept as the JSON value it holds (\<open>None\<close> is
  the nil message, printed as \<^verbatim>\<open>null\<close>).
\<close>

definition marshal_jwk_record :: "JWKRecord \<Rightarrow> bytes res" where
  "marshal_jwk_record rec =
     (case time_marshal (jrNotAfter rec) of
        Inl e \<Rightarrow> Inl e
      | Inr t \<Rightarrow> Inr (print_json (JObj [(''jwk'', case jrJWK rec of None \<Rightarrow> JNull | Some j \<Rightarrow> j), (''not_after'', JStr t)])))"

fun assign_time :: "time \<Rightarrow> json list \<Rightarrow> time res" where
  "assign_time v [] = Inr v"
| "assign_time v (JNull # js) = assign_time v js"
| "assign_time v (JStr s # js) =
     (case parse_rfc3339 s of None \<Rightarrow> Inl (Foreign ''parsing time'') | Some t \<Rightarrow> assign_time t js)"
| "assign_time v (_ # js) = Inl (Errorf ''Time.UnmarshalJSON: input is not a JSON string'')"

definition field_time :: "(string \<times> json) list \<Rightarrow> string \<Rightarrow> time res" where
  "field_time ms f = assign_time zero_time (jvals ms f)"

definition jwk_record_of :: "(string \<times> json) list \<Rightarrow> JWKRecord res" where
  "jwk_record_of ms =
     (case field_time ms ''not_after'' of Inl e \<Rightarrow> Inl e
      | Inr t \<Rightarrow> Inr \<lparr>jrJWK = jfield ms ''jwk'', jrNotAfter = t\<rparr>)"

definition unmarshal_jwk_record :: "bytes \<Rightarrow> JWKRecord res" where
  "unmarshal_jwk_record s = (case unmarshal_map s of Inl e \<Rightarrow> Inl e | Inr ms \<Rightarrow> jwk_record_of ms)"

definition StoreJWK ::
    "'s kv \<Rightarrow> 's TrustStore \<Rightarrow> time \<Rightarrow> string \<Rightarrow> json option \<Rightarrow> time \<Rightarrow> goerr option \<times> 's TrustStore" where
  "StoreJWK kv s now issuerID jwk notAfter =
     (case marshal_jwk_record \<lparr>jrJWK = jwk, jrNotAfter = notAfter\<rparr> of
        Inl err \<Rightarrow> (Some (ErrorfW ''marshaling JWK record: '' err []), s)
      | Inr data \<Rightarrow>
        (case kv_put kv (jwkKV s) now issuerID data of
           (Inl err, b) \<Rightarrow> (Some (ErrorfW (''storing JWK for issuer '' @ issuerID @ '': '') err []), s\<lparr>jwkKV := b\<rparr>)
         | (Inr _, b) \<Rightarrow> (None, s\<lparr>jwkKV := b\<rparr>)))"

definition GetJWK :: "'s kv \<Rightarrow> 's TrustStore \<Rightarrow> time \<Rightarrow> string \<Rightarrow> JWKRecord option res" where
  "GetJWK kv s now issuerID =
     (case kv_get kv (jwkKV s) now issuerID of
        Inl err \<Rightarrow>
          if errors_is err ErrKeyNotFound then Inr None
          else Inl (ErrorfW (''fetching JWK for issuer '' @ issuerID @ '': '') err [])
      | Inr entry \<Rightarrow>
        (case unmarshal_jwk_record (keValue entry) of
           Inl err \<Rightarrow> Inl (ErrorfW (''parsing JWK record for issuer '' @ issuerID @ '': '') err [])
         | Inr rec \<Rightarrow> if jrNotAfter rec < now then Inr None else Inr (Some rec)))"

section \<open>An in-memory bucket\<close>

record mem_bucket =
  memTTL :: duration
  memSeq :: nat
  memMap :: "(string \<times> kv_entry \<times> time) list"

definition mem_view :: "mem_bucket \<Rightarrow> time \<Rightarrow> string \<Rightarrow> kv_entry option" where
  "mem_view b t k = (case map_of (memMap b) k of None \<Rightarrow> None
     | Some (e, t0) \<Rightarrow> if kv_live (memTTL b) t0 t then Some e else None)"

definition mem_write :: "mem_bucket \<Rightarrow> time \<Rightarrow> string \<Rightarrow> bytes \<Rightarrow> nat res \<times> mem_bucket" where
  "mem_write b t k v =
     (let r = Suc (memSeq b) in
      (Inr r, b\<lparr>memSeq := r, memMap := (k, \<lparr>keValue = v, keRevision = r\<rparr>, t) # memMap b\<rparr>))"

definition mem_kv :: "mem_bucket kv" where
  "mem_kv = \<lparr>kv_get = (\<lambda>b t k. case mem_view b t k of None \<Rightarrow> Inl ErrKeyNotFound | Some e \<Rightarrow> Inr e),
     kv_create = (\<lambda>b t k v. case mem_view b t k of None \<Rightarrow> mem_write b t k v | Some _ \<Rightarrow> (Inl ErrKeyExists, b)),
     kv_put = mem_write,
     kv_update = (\<lambda>b t k v r. case mem_view b t k of
        Some e \<Rightarrow> if keRevision e = r \<and> r \<le> memSeq b then mem_write b t k v else (Inl (Foreign ''wrong last sequence''), b)
      | None \<Rightarrow> (Inl (Foreign ''wrong last sequence''), b))\<rparr>"

definition mem_bucket_new :: "KeyValueConfig \<Rightarrow> mem_bucket" where
  "mem_bucket_new c = \<lparr>memTTL = kvTTL c, memSeq = 0, memMap = []\<rparr>"

definition mem_store :: "mem_bucket TrustStore" where
  "mem_store = \<lparr>publisherKV = mem_bucket_new PublisherTrustKVConfig, subjectKV = mem_bucket_new SubjectRegistryKVConfig,
     jwkKV = mem_bucket_new StaticJWKKVConfig, jtiKV = mem_bucket_new JTIReplayKVConfig\<rparr>"

interpretation mem: kv_store mem_kv mem_view memTTL
  by unfold_locales
    (auto simp: mem_kv_def mem_view_def mem_write_def kv_live_def Let_def split: option.splits if_splits)

section \<open>What the store promises\<close>

text \<open>
  The contract the authorization middleware and the admin handlers rely on: a lookup answers by
  membership in the subject's trust list, a successful write replaces the list of its subject and no
  other.
\<close>

locale trust_provider =
  fixes provisioned :: "'st \<Rightarrow> bool"
    and trusted :: "'st \<Rightarrow> time \<Rightarrow> string \<Rightarrow> TrustEntry list"
    and is_trusted :: "'st \<Rightarrow> time \<Rightarrow> string \<Rightarrow> string \<Rightarrow> string \<Rightarrow> bool res"
    and set_trust :: "'st \<Rightarrow> time \<Rightarrow> string \<Rightarrow> TrustEntry list \<Rightarrow> goerr option \<times> 'st"
  assumes lookup: "is_trusted st t subj i s = Inr b \<Longrightarrow> b = (\<lparr>teIssuer = i, teSub = s\<rparr> \<in> set (trusted st t subj))"
    and set_done: "provisioned st \<Longrightarrow> set_trust st t subj ps = (None, st') \<Longrightarrow> trusted st' t' subj = ps"
    and set_frame: "set_trust st t subj ps = (q, st') \<Longrightarrow> subj' \<noteq> subj \<Longrightarrow> trusted st' t' subj' = trusted st t' subj'"
    and set_provisioned: "provisioned st \<Longrightarrow> set_trust st t subj ps = (q, st') \<Longrightarrow> provisioned st'"
begin

lemma lookup_after_set:
  assumes "provisioned st" "set_trust st t subj ps = (None, st')" "is_trusted st' t' subj i s = Inr b"
  shows "b = (\<lparr>teIssuer = i, teSub = s\<rparr> \<in> set ps)"
  using lookup [OF assms(3)] set_done [OF assms(1,2)] by simp

lemma lookup_other_subject:
  assumes "set_trust st t subj ps = (q, st')" "subj' \<noteq> subj"
    "is_trusted st' t' subj' i s = Inr b'" "is_trusted st t' subj' i s = Inr b"
  shows "b' = b"
  using lookup [OF assms(3)] lookup [OF assms(4)] set_frame [OF assms(1,2)] by simp

end

definition trusted_list :: "('s \<Rightarrow> time \<Rightarrow> string \<Rightarrow> kv_entry option) \<Rightarrow> 's TrustStore \<Rightarrow> time \<Rightarrow> string \<Rightarrow> TrustEntry list" where
  "trusted_list view s t subj =
     (case view (publisherKV s) t (subjectKey subj) of None \<Rightarrow> []
      | Some e \<Rightarrow> (case unmarshal_trust_list (keValue e) of Inl _ \<Rightarrow> [] | Inr l \<Rightarrow> l))"

text \<open>The buckets have the TTLs that \<^verbatim>\<open>EnsureInfrastructure\<close> gives them.\<close>

definition store_provisioned :: "('s \<Rightarrow> duration) \<Rightarrow> 's TrustStore \<Rightarrow> bool" where
  "store_provisioned ttl s \<longleftrightarrow>
     ttl (publisherKV s) = kvTTL PublisherTrustKVConfig \<and> ttl (subjectKV s) = kvTTL SubjectRegistryKVConfig
     \<and> ttl (jwkKV s) = kvTTL StaticJWKKVConfig \<and> ttl (jtiKV s) = kvTTL JTIReplayKVConfig"

lemmas kv_configs = PublisherTrustKVConfig_def SubjectRegistryKVConfig_def StaticJWKKVConfig_def JTIReplayKVConfig_def

lemma trust_scan_iff: "trust_scan ts i s \<longleftrightarrow> \<lparr>teIssuer = i, teSub = s\<rparr> \<in> set ts"
  by (induction ts) auto

lemma subjectKey_inject [simp]: "subjectKey a = subjectKey b \<longleftrightarrow> a = b"
  by (simp add: subjectKey_def)

lemma kv_live_forever [simp]: "kv_live 0 t0 t"
  by (simp add: kv_live_def)

lemma jwk_record_round_trip:
  assumes "marshal_jwk_record \<lparr>jrJWK = Some j, jrNotAfter = t\<rparr> = Inr data" "wf_json j"
  shows "unmarshal_jwk_record data = Inr \<lparr>jrJWK = Some j, jrNotAfter = t\<rparr>"
proof -
  let ?j = "JObj [(''jwk'', j), (''not_after'', JStr (format_rfc3339nano t))]"
  have y: "0 \<le> year_of t" "year_of t \<le> 9999" and d: "data = print_json ?j"
    using assms(1) by (auto simp: marshal_jwk_record_def time_marshal_def split: if_splits)
  have "wf_json ?j" using assms(2) by simp
  then have "json_parse data = Inr ?j" unfolding d by (rule json_parse_print)
  then show ?thesis
    using y by (simp add: unmarshal_jwk_record_def unmarshal_map_def to_map_def jwk_record_of_def
        field_time_def jvals_def jfield_def lower_eval parse_format_rfc3339nano)
qed

context kv_store
begin

abbreviation trusted :: "'s TrustStore \<Rightarrow> time \<Rightarrow> string \<Rightarrow> TrustEntry list" where
  "trusted \<equiv> trusted_list view"

lemma trust_read_view: "trust_read kv s t subj = Inr snap \<Longrightarrow> view (publisherKV s) t (subjectKey subj) = snap"
  by (auto simp: trust_read_def get_found get_missing split: sum.splits if_splits)

lemma trust_write_done:
  assumes "trust_write kv s t subj data snap = (None, s')" "kv_live (ttl (publisherKV s)) t t'"
  shows "(case snap of None \<Rightarrow> view (publisherKV s) t (subjectKey subj) = None
      | Some e \<Rightarrow> \<exists>e'. view (publisherKV s) t (subjectKey subj) = Some e' \<and> keRevision e' = keRevision e)
    \<and> (\<exists>r. view (publisherKV s') t' (subjectKey subj) = Some \<lparr>keValue = data, keRevision = r\<rparr>)"
  using assms by (auto simp: trust_write_def split: option.splits prod.splits sum.splits
      dest: create_done update_done)

lemma trust_write_frame:
  assumes "trust_write kv s t subj data snap = (q, s')"
  shows "ttl (publisherKV s') = ttl (publisherKV s)" "subjectKV s' = subjectKV s" "jwkKV s' = jwkKV s" "jtiKV s' = jtiKV s"
    and "subj' \<noteq> subj \<Longrightarrow> view (publisherKV s') t' (subjectKey subj') = view (publisherKV s) t' (subjectKey subj')"
  using assms
  by (auto simp: trust_write_def split: option.splits prod.splits sum.splits
      dest: create_frame [where k' = "subjectKey subj'" and t' = t'] update_frame [where k' = "subjectKey subj'" and t' = t'])

text \<open>A write whose snapshot is no longer current fails and changes nothing.\<close>

lemma trust_write_stale:
  assumes "map_option keRevision (view (publisherKV s) t (subjectKey subj)) \<noteq> map_option keRevision snap"
    and "trust_write kv s t subj data snap = (q, s')"
  shows "q \<noteq> None \<and> view (publisherKV s') = view (publisherKV s)"
proof (cases snap)
  case None
  then obtain e where "view (publisherKV s) t (subjectKey subj) = Some e" using assms(1) by auto
  then show ?thesis
    using assms(2) None create_taken by (fastforce simp: trust_write_def split: prod.splits sum.splits)
next
  case (Some e)
  then have "\<forall>e'. view (publisherKV s) t (subjectKey subj) = Some e' \<longrightarrow> keRevision e' \<noteq> keRevision e"
    using assms(1) by auto
  then show ?thesis
    using assms(2) Some update_stale by (fastforce simp: trust_write_def split: prod.splits sum.splits)
qed

lemma trust_write_revision:
  assumes "trust_write kv s t subj data snap = (None, s')" "kv_live (ttl (publisherKV s)) t t'"
  shows "map_option keRevision (view (publisherKV s) t (subjectKey subj))
    \<noteq> map_option keRevision (view (publisherKV s') t' (subjectKey subj))"
  using assms
  by (fastforce simp: trust_write_def split: option.splits prod.splits sum.splits
      dest: create_done [where t' = t'] update_done [where t' = t'])

text \<open>Two writers that read the same entry: the second write fails.\<close>

lemma trust_no_lost_update:
  assumes "ttl (publisherKV s) = 0" "trust_read kv s t0 subj = Inr snap"
    "SetPublisherTrust kv s t1 subj ps = (None, s1)" "trust_write kv s1 t2 subj data snap = (q, s2)"
  shows "q \<noteq> None \<and> view (publisherKV s2) = view (publisherKV s1)"
proof -
  obtain snap' where "trust_write kv s t1 subj (print_json (trust_list_json ps)) snap' = (None, s1)"
    using assms(3) by (auto simp: SetPublisherTrust_def Let_def split: sum.splits)
  from trust_write_revision [OF this, of t2] assms(1)
  have "map_option keRevision (view (publisherKV s) t1 (subjectKey subj))
      \<noteq> map_option keRevision (view (publisherKV s1) t2 (subjectKey subj))" by simp
  moreover have "view (publisherKV s) t1 (subjectKey subj) = snap"
    using trust_read_view [OF assms(2)] view_no_ttl [OF assms(1)] by metis
  ultimately show ?thesis using trust_write_stale [OF _ assms(4)] by simp
qed

lemma SetPublisherTrust_frame:
  assumes "SetPublisherTrust kv s t subj ps = (q, s')"
  shows "ttl (publisherKV s') = ttl (publisherKV s)" "subjectKV s' = subjectKV s" "jwkKV s' = jwkKV s" "jtiKV s' = jtiKV s"
    and "subj' \<noteq> subj \<Longrightarrow> view (publisherKV s') t' (subjectKey subj') = view (publisherKV s) t' (subjectKey subj')"
  using assms trust_write_frame [where s' = s']
  by (auto simp: SetPublisherTrust_def Let_def split: sum.splits)

lemma SetPublisherTrust_done:
  assumes "SetPublisherTrust kv s t subj ps = (None, s')" "ttl (publisherKV s) = 0"
  shows "trusted s' t' subj = ps"
proof -
  obtain snap where "trust_write kv s t subj (print_json (trust_list_json ps)) snap = (None, s')"
    using assms(1) by (auto simp: SetPublisherTrust_def Let_def split: sum.splits)
  then show ?thesis
    using trust_write_done [where t' = t'] assms(2) by (fastforce simp: trusted_list_def)
qed

lemma IsPublisherTrusted_lookup:
  "IsPublisherTrusted kv s t subj i u = Inr b \<Longrightarrow> b = (\<lparr>teIssuer = i, teSub = u\<rparr> \<in> set (trusted s t subj))"
  by (auto simp: IsPublisherTrusted_def trusted_list_def get_found get_missing trust_scan_iff
      split: sum.splits if_splits)

lemma RegisterSubject_done:
  assumes "RegisterSubject kv s t subj = (None, s')" "ttl (subjectKV s) = 0" "SubjectExists kv s' t' subj = Inr b"
  shows b
proof -
  obtain r v where "view (subjectKV s') t' subj = Some \<lparr>keValue = v, keRevision = r\<rparr>"
    using assms(1,2) put_done [where t' = t']
    by (fastforce simp: RegisterSubject_def split: prod.splits sum.splits)
  then show ?thesis
    using assms(3) get_missing by (fastforce simp: SubjectExists_def split: sum.splits if_splits)
qed

lemma RegisterSubject_frame:
  "RegisterSubject kv s t subj = (q, s') \<Longrightarrow>
     publisherKV s' = publisherKV s \<and> jwkKV s' = jwkKV s \<and> jtiKV s' = jtiKV s \<and> ttl (subjectKV s') = ttl (subjectKV s)"
  by (auto simp: RegisterSubject_def split: prod.splits sum.splits dest: put_frame)

text \<open>While the bucket keeps a claimed identifier, nobody claims it again.\<close>

lemma ClaimJTI_once:
  assumes "ClaimJTI kv s t jti d = (None, s')" "kv_live (ttl (jtiKV s)) t t'"
  shows "fst (ClaimJTI kv s' t' jti d') \<noteq> None"
proof -
  obtain e where "view (jtiKV s') t' jti = Some e"
    using assms by (auto simp: ClaimJTI_def split: prod.splits sum.splits if_splits dest: create_done)
  then show ?thesis
    using create_taken by (fastforce simp: ClaimJTI_def split: prod.splits sum.splits)
qed

lemma ClaimJTI_frame:
  assumes "ClaimJTI kv s t jti d = (q, s')"
  shows "publisherKV s' = publisherKV s" "subjectKV s' = subjectKV s" "jwkKV s' = jwkKV s"
    "ttl (jtiKV s') = ttl (jtiKV s)" "jti' \<noteq> jti \<Longrightarrow> view (jtiKV s') t' jti' = view (jtiKV s) t' jti'"
  using assms create_frame [where k' = jti' and t' = t']
  by (auto simp: ClaimJTI_def split: prod.splits sum.splits)

lemma GetJWK_after_store:
  assumes "StoreJWK kv s t iss (Some j) na = (None, s')" "wf_json j" "ttl (jwkKV s) = 0"
    "GetJWK kv s' t' iss = Inr r"
  shows "r = (if na < t' then None else Some \<lparr>jrJWK = Some j, jrNotAfter = na\<rparr>)"
proof -
  obtain data rv where m: "marshal_jwk_record \<lparr>jrJWK = Some j, jrNotAfter = na\<rparr> = Inr data"
    and v: "view (jwkKV s') t' iss = Some \<lparr>keValue = data, keRevision = rv\<rparr>"
    using assms(1,3) put_done [where t' = t'] by (fastforce simp: StoreJWK_def split: prod.splits sum.splits)
  show ?thesis
    using assms(4) get_found get_missing v jwk_record_round_trip [OF m assms(2)]
    by (fastforce simp: GetJWK_def split: sum.splits if_splits)
qed

end

sublocale kv_store \<subseteq> trust: trust_provider "store_provisioned ttl" "trusted_list view"
    "IsPublisherTrusted kv" "SetPublisherTrust kv"
proof unfold_locales
  show "trusted_list view s' t' subj = ps"
    if "store_provisioned ttl s" "SetPublisherTrust kv s t subj ps = (None, s')" for s t subj ps s' t'
    using SetPublisherTrust_done [OF that(2)] that(1) by (simp add: store_provisioned_def kv_configs)
  show "trusted_list view s' t' subj' = trusted_list view s t' subj'"
    if "SetPublisherTrust kv s t subj ps = (q, s')" "subj' \<noteq> subj" for s t subj ps q s' t' subj'
    using SetPublisherTrust_frame(5) [OF that] by (simp add: trusted_list_def)
  show "store_provisioned ttl s'"
    if "store_provisioned ttl s" "SetPublisherTrust kv s t subj ps = (q, s')" for s t subj ps q s'
    using SetPublisherTrust_frame(1-4) [OF that(2)] that(1) by (simp add: store_provisioned_def)
qed (rule IsPublisherTrusted_lookup)

context kv_store
begin

lemmas IsPublisherTrusted_after_set = trust.lookup_after_set

lemmas IsPublisherTrusted_other = trust.lookup_other_subject

end

section \<open>Properties\<close>

text \<open>
  C9: after \<^verbatim>\<open>SetPublisherTrust\<close> succeeds, every lookup that answers says "trusted" for exactly the
  (issuer, sub) pairs of the new list, at any later time, and lookups for every other subject answer as before.
\<close>

theorem set_trust_then_lookup:
  assumes "kv_store kv view ttl" "store_provisioned ttl s"
    and "SetPublisherTrust kv s t subj ps = (None, s')"
  shows "(\<forall>t' i u b. IsPublisherTrusted kv s' t' subj i u = Inr b \<longrightarrow> b = (\<lparr>teIssuer = i, teSub = u\<rparr> \<in> set ps))
    \<and> (\<forall>subj' t' i u b b'. subj' \<noteq> subj \<longrightarrow> IsPublisherTrusted kv s' t' subj' i u = Inr b'
          \<longrightarrow> IsPublisherTrusted kv s t' subj' i u = Inr b \<longrightarrow> b' = b)"
proof -
  show ?thesis
    using kv_store.IsPublisherTrusted_after_set [OF assms] kv_store.IsPublisherTrusted_other [OF assms(1,3)] by blast
qed

definition ex_entry :: TrustEntry where
  "ex_entry = \<lparr>teIssuer = ''iss'', teSub = ''ci''\<rparr>"

definition ex_store :: "mem_bucket TrustStore" where
  "ex_store = snd (SetPublisherTrust mem_kv mem_store 5 ''app'' [ex_entry])"

lemma mem_store_provisioned: "store_provisioned memTTL mem_store"
  by (simp add: store_provisioned_def mem_store_def mem_bucket_new_def)

lemma ex_store_set: "SetPublisherTrust mem_kv mem_store 5 ''app'' [ex_entry] = (None, ex_store)"
  unfolding ex_store_def by code_simp

theorem set_trust_then_lookup_witness:
  "IsPublisherTrusted mem_kv ex_store 9 ''app'' ''iss'' ''ci'' = Inr True \<and>
   True = (\<lparr>teIssuer = ''iss'', teSub = ''ci''\<rparr> \<in> set [ex_entry])"
proof -
  have "IsPublisherTrusted mem_kv ex_store 9 ''app'' ''iss'' ''ci'' = Inr True" by code_simp
  then show ?thesis
    using set_trust_then_lookup [OF mem.kv_store_axioms mem_store_provisioned ex_store_set] by blast
qed

text \<open>
  C14: the compare-and-swap of \<^verbatim>\<open>SetPublisherTrust\<close> loses no update.  When another writer's
  \<^verbatim>\<open>SetPublisherTrust\<close> succeeds between this writer's read and its write, this write returns an error
  and the trust list stays the other writer's.
\<close>

theorem set_trust_no_lost_update:
  assumes "kv_store kv view ttl" "store_provisioned ttl s"
    and "trust_read kv s t0 subj = Inr snap"
    and "SetPublisherTrust kv s t1 subj others = (None, s1)"
    and "trust_write kv s1 t2 subj data snap = (q, s2)"
  shows "q \<noteq> None \<and> trusted_list view s2 t' subj = others"
proof -
  have ttl: "ttl (publisherKV s) = 0" using assms(2) by (simp add: store_provisioned_def kv_configs)
  show ?thesis
    using kv_store.trust_no_lost_update [OF assms(1) ttl assms(3,4,5)]
      kv_store.SetPublisherTrust_done [OF assms(1,4) ttl, of t'] by (simp add: trusted_list_def)
qed

theorem set_trust_no_lost_update_witness:
  "fst (trust_write mem_kv ex_store 6 ''app'' ''[]'' None) \<noteq> None \<and>
   trusted_list mem_view (snd (trust_write mem_kv ex_store 6 ''app'' ''[]'' None)) 7 ''app'' = [ex_entry]"
proof -
  have "trust_read mem_kv mem_store 4 ''app'' = Inr None" by code_simp
  then show ?thesis
    using set_trust_no_lost_update [OF mem.kv_store_axioms mem_store_provisioned _ ex_store_set prod.collapse [symmetric]]
    by blast
qed

text \<open>
  C24: a token identifier that \<^verbatim>\<open>ClaimJTI\<close> accepted is refused by every later claim within the
  15 minutes the replay bucket keeps it.
\<close>

theorem claim_jti_once:
  assumes "kv_store kv view ttl" "store_provisioned ttl s"
    and "ClaimJTI kv s t jti d = (None, s')" "t' < t + 15 * minute"
  shows "fst (ClaimJTI kv s' t' jti d') \<noteq> None"
proof -
  have "kv_live (ttl (jtiKV s)) t t'"
    using assms(2,4) by (simp add: store_provisioned_def kv_configs kv_live_def)
  then show ?thesis by (rule kv_store.ClaimJTI_once [OF assms(1,3)])
qed

theorem claim_jti_once_witness:
  "fst (ClaimJTI mem_kv (snd (ClaimJTI mem_kv mem_store 0 ''j'' 0)) (14 * minute) ''j'' 0) \<noteq> None"
proof -
  have "ClaimJTI mem_kv mem_store 0 ''j'' 0 = (None, snd (ClaimJTI mem_kv mem_store 0 ''j'' 0))" by code_simp
  then show ?thesis
    by (rule claim_jti_once [OF mem.kv_store_axioms mem_store_provisioned]) simp
qed

text \<open>
  A JWK stored for a scanner is returned by \<^verbatim>\<open>GetJWK\<close> with its expiry up to and including the
  \<^verbatim>\<open>not_after\<close> instant, and never after it; the record survives its JSON form, the RFC 3339 time included.
\<close>

theorem store_jwk_then_get:
  assumes "kv_store kv view ttl" "store_provisioned ttl s" "wf_json j"
    and "StoreJWK kv s t iss (Some j) na = (None, s')" "GetJWK kv s' t' iss = Inr r"
  shows "r = (if na < t' then None else Some \<lparr>jrJWK = Some j, jrNotAfter = na\<rparr>)"
proof -
  have "ttl (jwkKV s) = 0" using assms(2) by (simp add: store_provisioned_def kv_configs)
  then show ?thesis by (rule kv_store.GetJWK_after_store [OF assms(1,4,3) _ assms(5)])
qed

theorem store_jwk_then_get_witness:
  "GetJWK mem_kv (snd (StoreJWK mem_kv mem_store 0 ''s'' (Some (JStr ''k'')) (90 * minute))) (91 * minute) ''s'' = Inr None"
proof -
  let ?s = "snd (StoreJWK mem_kv mem_store 0 ''s'' (Some (JStr ''k'')) (90 * minute))"
  have st: "StoreJWK mem_kv mem_store 0 ''s'' (Some (JStr ''k'')) (90 * minute) = (None, ?s)" by code_simp
  have "\<not> isl (GetJWK mem_kv ?s (91 * minute) ''s'')" by code_simp
  then obtain r where r: "GetJWK mem_kv ?s (91 * minute) ''s'' = Inr r" by (metis sum.collapse(2))
  have "r = None"
    using store_jwk_then_get [OF mem.kv_store_axioms mem_store_provisioned _ st r] by simp
  then show ?thesis using r by simp
qed

end
