(* ===== verification/GoFiles.thy ===== *)
theory GoFiles
  imports GoJson "HOL-Library.List_Lexorder" "HOL-Library.Char_ord"
begin

text \<open>
  Unix paths (\<^verbatim>\<open>path/filepath\<close>), a file system with faults (\<^verbatim>\<open>os\<close>) and HTTP responses
  (\<^verbatim>\<open>net/http\<close>), as far as the services use them.
\<close>

section \<open>Paths\<close>

text \<open>
  \<^verbatim>\<open>filepath.Clean\<close>: drop empty and \<^verbatim>\<open>.\<close> elements, let \<^verbatim>\<open>..\<close> remove the element before
  it, and drop \<^verbatim>\<open>..\<close> at a root.  The accumulator holds the kept elements, last first.
\<close>

fun clean_elems :: "bool \<Rightarrow> string list \<Rightarrow> string list \<Rightarrow> string list" where
  "clean_elems rooted acc [] = rev acc"
| "clean_elems rooted acc (e # es) =
     (if e = [] \<or> e = ''.'' then clean_elems rooted acc es
      else if e = ''..'' then
        (case acc of
           a # as \<Rightarrow> if a = ''..'' then clean_elems rooted (e # acc) es else clean_elems rooted as es
         | [] \<Rightarrow> if rooted then clean_elems rooted [] es else clean_elems rooted [e] es)
      else clean_elems rooted (e # acc) es)"

definition is_rooted :: "string \<Rightarrow> bool" where
  "is_rooted p = has_prefix p ''/''"

definition render_path :: "bool \<Rightarrow> string list \<Rightarrow> string" where
  "render_path rooted es = (if rooted then CHR ''/'' # join ''/'' es else if es = [] then ''.'' else join ''/'' es)"

definition path_clean :: "string \<Rightarrow> string" where
  "path_clean p = (if p = [] then ''.''
     else render_path (is_rooted p) (clean_elems (is_rooted p) [] (split_on (CHR ''/'') p)))"

definition path_join :: "string list \<Rightarrow> string" where
  "path_join ps = (let qs = filter (\<lambda>p. p \<noteq> []) ps in if qs = [] then [] else path_clean (join ''/'' qs))"

text \<open>\<^verbatim>\<open>filepath.Dir\<close>: everything up to the last slash, cleaned.\<close>

definition path_dir :: "string \<Rightarrow> string" where
  "path_dir p = path_clean (rev (dropWhile (\<lambda>c. c \<noteq> CHR ''/'') (rev p)))"

section \<open>Files\<close>

datatype fnode = File bytes | Dir

text \<open>The files, and the error the operating system raises for an operation on a path, if any.\<close>

record fs =
  fsNodes :: "(string \<times> fnode) list"
  fsFault :: "string \<Rightarrow> string \<Rightarrow> goerr option"

definition fs_get :: "fs \<Rightarrow> string \<Rightarrow> fnode option" where
  "fs_get f p = map_of (fsNodes f) p"

definition fs_set :: "fs \<Rightarrow> string \<Rightarrow> fnode \<Rightarrow> fs" where
  "fs_set f p n = f\<lparr>fsNodes := (p, n) # filter (\<lambda>(q, _). q \<noteq> p) (fsNodes f)\<rparr>"

definition fs_del :: "fs \<Rightarrow> string \<Rightarrow> fs" where
  "fs_del f p = f\<lparr>fsNodes := filter (\<lambda>(q, _). q \<noteq> p) (fsNodes f)\<rparr>"

definition read_file :: "fs \<Rightarrow> string \<Rightarrow> bytes res" where
  "read_file f p = (case fsFault f ''read'' p of Some e \<Rightarrow> Inl e | None \<Rightarrow>
     (case fs_get f p of Some (File d) \<Rightarrow> Inr d | Some Dir \<Rightarrow> Inl (Foreign ''is a directory'') | None \<Rightarrow> Inl ErrNotExist))"

definition stat_file :: "fs \<Rightarrow> string \<Rightarrow> fnode res" where
  "stat_file f p = (case fsFault f ''stat'' p of Some e \<Rightarrow> Inl e | None \<Rightarrow>
     (case fs_get f p of Some n \<Rightarrow> Inr n | None \<Rightarrow> Inl ErrNotExist))"

text \<open>\<^verbatim>\<open>os.ReadDir\<close>: the entries of a directory in the order of their names.\<close>

definition child_name :: "string \<Rightarrow> string \<Rightarrow> string option" where
  "child_name dir p = (case cut_prefix p (dir @ ''/'') of
     Some n \<Rightarrow> if n \<noteq> [] \<and> CHR ''/'' \<notin> set n then Some n else None | None \<Rightarrow> None)"

definition read_dir :: "fs \<Rightarrow> string \<Rightarrow> (string \<times> fnode) list res" where
  "read_dir f dir = (case fsFault f ''readdir'' dir of Some e \<Rightarrow> Inl e | None \<Rightarrow>
     (case fs_get f dir of
        Some Dir \<Rightarrow> Inr (sort_key fst (List.map_filter (\<lambda>(p, n). map_option (\<lambda>c. (c, n)) (child_name dir p)) (fsNodes f)))
      | Some (File _) \<Rightarrow> Inl (Foreign ''not a directory'')
      | None \<Rightarrow> Inl ErrNotExist))"

definition mkdir_all :: "fs \<Rightarrow> string \<Rightarrow> goerr option \<times> fs" where
  "mkdir_all f p = (case fsFault f ''mkdir'' p of Some e \<Rightarrow> (Some e, f) | None \<Rightarrow>
     (case fs_get f p of Some (File _) \<Rightarrow> (Some (Foreign ''not a directory''), f)
      | Some Dir \<Rightarrow> (None, f) | None \<Rightarrow> (None, fs_set f p Dir)))"

definition create_file :: "fs \<Rightarrow> string \<Rightarrow> goerr option \<times> fs" where
  "create_file f p = (case fsFault f ''create'' p of Some e \<Rightarrow> (Some e, f) | None \<Rightarrow> (None, fs_set f p (File [])))"

text \<open>A write that fails may have written a prefix of the data; here it has written none of it.\<close>

definition write_file :: "fs \<Rightarrow> string \<Rightarrow> bytes \<Rightarrow> goerr option \<times> fs" where
  "write_file f p d = (case fsFault f ''write'' p of Some e \<Rightarrow> (Some e, f) | None \<Rightarrow> (None, fs_set f p (File d)))"

definition rename_file :: "fs \<Rightarrow> string \<Rightarrow> string \<Rightarrow> goerr option \<times> fs" where
  "rename_file f p q = (case fsFault f ''rename'' q of Some e \<Rightarrow> (Some e, f) | None \<Rightarrow>
     (case fs_get f p of None \<Rightarrow> (Some ErrNotExist, f) | Some n \<Rightarrow> (None, fs_set (fs_del f p) q n)))"

section \<open>Responses\<close>

datatype body = Text string | Json json | Raw bytes

record response =
  rsStatus :: nat
  rsBody :: body

definition http_error :: "string \<Rightarrow> nat \<Rightarrow> response" where
  "http_error msg status = \<lparr>rsStatus = status, rsBody = Text msg\<rparr>"

definition json_response :: "nat \<Rightarrow> json \<Rightarrow> response" where
  "json_response status j = \<lparr>rsStatus = status, rsBody = Json j\<rparr>"

lemma http_error_simps [simp]: "rsStatus (http_error m s) = s" "rsBody (http_error m s) = Text m"
  by (simp_all add: http_error_def)

lemma json_response_simps [simp]: "rsStatus (json_response s j) = s" "rsBody (json_response s j) = Json j"
  by (simp_all add: json_response_def)

text \<open>The answers of the web: whether a request can be built, and the status and body it gets.\<close>

record web =
  web_request :: "string \<Rightarrow> goerr option"
  web_do :: "string \<Rightarrow> (int \<times> bytes res) res"

section \<open>Lemmas\<close>

lemma fs_get_set [simp]: "fs_get (fs_set f p n) q = (if q = p then Some n else fs_get f q)"
proof -
  have "map_of (filter (\<lambda>(r, _). r \<noteq> p) xs) q = map_of xs q" if "q \<noteq> p" for xs :: "(string \<times> fnode) list"
    using that by (induction xs) auto
  then show ?thesis by (simp add: fs_get_def fs_set_def)
qed

lemma fs_get_del [simp]: "fs_get (fs_del f p) q = (if q = p then None else fs_get f q)"
proof -
  have "map_of (filter (\<lambda>(r, _). r \<noteq> p) xs) q = (if q = p then None else map_of xs q)" for xs :: "(string \<times> fnode) list"
    by (induction xs) auto
  then show ?thesis by (simp add: fs_get_def fs_del_def)
qed

lemma fsFault_set [simp]: "fsFault (fs_set f p n) = fsFault f" "fsFault (fs_del f p) = fsFault f"
  by (simp_all add: fs_set_def fs_del_def)

lemma join_Cons: "join sep (x # xs) = (if xs = [] then x else x @ sep @ join sep xs)"
  by (cases xs) simp_all

text \<open>A plain element: not empty, not a dot element, no slash.\<close>

definition plain_elem :: "string \<Rightarrow> bool" where
  "plain_elem e \<longleftrightarrow> e \<noteq> [] \<and> e \<noteq> ''.'' \<and> e \<noteq> ''..'' \<and> CHR ''/'' \<notin> set e"

lemma clean_elems_plain:
  "list_all plain_elem es \<Longrightarrow> clean_elems r acc (es @ fs) = clean_elems r (rev es @ acc) fs"
  by (induction es arbitrary: acc) (auto simp: plain_elem_def)

lemma split_join_plain: "es \<noteq> [] \<Longrightarrow> list_all plain_elem es \<Longrightarrow> split_on (CHR ''/'') (join ''/'' es) = es"
proof (induction es)
  case (Cons e es)
  then have e: "CHR ''/'' \<notin> set e" by (simp add: plain_elem_def)
  show ?case
  proof (cases "es = []")
    case True
    then show ?thesis using e by (simp add: split_on_single)
  next
    case False
    then have "split_on (CHR ''/'') (join ''/'' es) = es" using Cons by simp
    moreover have "split_on (CHR ''/'') (e @ CHR ''/'' # r) = e # split_on (CHR ''/'') r" for r
      using e split_on_append [of "CHR ''/''" e r] by simp
    ultimately show ?thesis using False by (simp add: join_Cons)
  qed
qed simp

text \<open>An absolute path of plain elements is clean.\<close>

lemma path_clean_plain: "list_all plain_elem es \<Longrightarrow> path_clean (CHR ''/'' # join ''/'' es) = CHR ''/'' # join ''/'' es"
proof (cases "es = []")
  case False
  assume es: "list_all plain_elem es"
  have "split_on (CHR ''/'') (CHR ''/'' # join ''/'' es) = [] # es"
    using split_join_plain [OF False es] by simp
  then show ?thesis
    using clean_elems_plain [OF es, of True "[]" "[]"]
    by (simp add: path_clean_def is_rooted_def has_prefix_def render_path_def)
qed (simp add: path_clean_def is_rooted_def has_prefix_def render_path_def)

text \<open>A rooted path is cleaned to a path of plain elements, so cleaning it again changes nothing.\<close>

lemma clean_elems_rooted:
  "list_all (\<lambda>e. CHR ''/'' \<notin> set e) es \<Longrightarrow> list_all plain_elem acc \<Longrightarrow> list_all plain_elem (clean_elems True acc es)"
proof (induction es arbitrary: acc)
  case (Cons e es)
  show ?case
  proof (cases "e = ''..''")
    case True
    then show ?thesis using Cons by (cases acc) (auto simp: plain_elem_def)
  next
    case False
    then show ?thesis using Cons by (auto simp: plain_elem_def)
  qed
qed (simp add: list_all_iff)

lemma split_on_no_slash: "list_all (\<lambda>e. CHR ''/'' \<notin> set e) (split_on (CHR ''/'') p)"
  using split_on_no_sep [of _ "CHR ''/''" p] by (auto simp: list_all_iff)

lemma path_clean_rooted:
  assumes "is_rooted p"
  obtains es where "list_all plain_elem es" "path_clean p = CHR ''/'' # join ''/'' es"
    "es = clean_elems True [] (split_on (CHR ''/'') p)"
proof -
  have "p \<noteq> []" using assms by (auto simp: is_rooted_def has_prefix_def)
  then have "path_clean p = CHR ''/'' # join ''/'' (clean_elems True [] (split_on (CHR ''/'') p))"
    using assms by (simp add: path_clean_def render_path_def)
  then show thesis using that clean_elems_rooted [OF split_on_no_slash, of "[]" p] by simp
qed

lemma path_clean_idem: "is_rooted p \<Longrightarrow> path_clean (path_clean p) = path_clean p"
  by (metis path_clean_rooted path_clean_plain)

definition abs_path :: "string list \<Rightarrow> string" where
  "abs_path es = CHR ''/'' # join ''/'' es"

lemma path_join_plain:
  assumes "list_all plain_elem es" "es \<noteq> []" "plain_elem e"
  shows "path_join [abs_path es, e] = abs_path (es @ [e])"
proof -
  have "join ''/'' (es @ [e]) = join ''/'' es @ CHR ''/'' # e"
    using assms(2) by (induction es) (auto simp: join_Cons)
  then have "path_join [abs_path es, e] = path_clean (CHR ''/'' # join ''/'' (es @ [e]))"
    using assms(3) by (simp add: path_join_def abs_path_def plain_elem_def)
  also have "\<dots> = CHR ''/'' # join ''/'' (es @ [e])" by (rule path_clean_plain) (use assms in simp)
  finally show ?thesis by (simp add: abs_path_def)
qed

lemma abs_path_snoc: "es \<noteq> [] \<Longrightarrow> abs_path (es @ [e]) = abs_path es @ CHR ''/'' # e"
  by (induction es) (auto simp: abs_path_def join_Cons)

end
