(* ===== verification/Publishers.thy ===== *)
theory Publishers
  imports Trust GoFiles
begin

text \<open>
  The trusted-publisher issuers (\<^verbatim>\<open>internal/authn/publisher\<close>): construction, token validation and the format of
  trust entries for GitHub Actions, GitLab CI, GCP, Kubernetes, SPIFFE, generic workloads and static scanner keys.
  The JWT library, its key cache and the web are parameters; the locale \<open>jwt_library\<close> states what token
  validation checks.  A call runs at one instant \<open>now\<close>.
\<close>

section \<open>Tokens and the JWT library\<close>

text \<open>What the accessors of a parsed token return, and what marshalling it to JSON gives.\<close>

record jwt_token =
  tkIssuer :: "string option"
  tkSubject :: "string option"
  tkIssuedAt :: "time option"
  tkExpiration :: "time option"
  tkJwtID :: "string option"
  tkJSON :: "bytes res"

text \<open>\<open>jwt_parse keys issuer audience skew now token\<close> is \<^verbatim>\<open>jwt.Parse\<close> with those options.\<close>

record 'k jwx =
  jwt_parse :: "'k \<Rightarrow> string \<Rightarrow> string \<Rightarrow> duration \<Rightarrow> time \<Rightarrow> string \<Rightarrow> jwt_token res"
  jwt_parse_insecure :: "string \<Rightarrow> jwt_token res"
  jwk_parse :: "json option \<Rightarrow> 'k res"
  cache_new :: "goerr option"
  cache_register :: "string \<Rightarrow> goerr option"
  cache_refresh :: "time \<Rightarrow> string \<Rightarrow> 'k res"
  cache_lookup :: "time \<Rightarrow> string \<Rightarrow> 'k res"

definition acceptable_skew :: duration where "acceptable_skew = 30 * second"

record PublisherPrincipal =
  ppIssuer :: string
  ppSub :: string

section \<open>Discovery\<close>

definition discovery_doc :: "bytes \<Rightarrow> string res" where
  "discovery_doc body = (case unmarshal_map body of Inl e \<Rightarrow> Inl e | Inr ms \<Rightarrow> field_str ms ''jwks_uri'')"

definition DiscoverJWKSURI :: "web \<Rightarrow> string \<Rightarrow> string res" where
  "DiscoverJWKSURI W issuerURL =
     (let discoveryURL = issuerURL @ ''/.well-known/openid-configuration'' in
      case web_request W discoveryURL of
        Some err \<Rightarrow> Inl (ErrorfW ''building discovery request: '' err [])
      | None \<Rightarrow>
     (case web_do W discoveryURL of
        Inl err \<Rightarrow> Inl (ErrorfW (''fetching '' @ discoveryURL @ '': '') err [])
      | Inr (status, rbody) \<Rightarrow>
        if status \<noteq> 200 then Inl (Errorf (''discovery endpoint '' @ discoveryURL @ '' returned '' @ show_int status))
        else
     (case rbody of
        Inl err \<Rightarrow> Inl (ErrorfW ''reading discovery response: '' err [])
      | Inr body \<Rightarrow>
     (case discovery_doc body of
        Inl err \<Rightarrow> Inl (ErrorfW ''parsing discovery document: '' err [])
      | Inr uri \<Rightarrow>
        if uri = [] then Inl (Errorf (''discovery document at '' @ discoveryURL @ '' missing jwks_uri''))
        else Inr uri))))"

section \<open>The steps the key-set issuers share\<close>

text \<open>The fields \<^verbatim>\<open>url\<close> and \<^verbatim>\<open>jwksURL\<close>; the cache is the library's.\<close>

record jwks_issuer =
  jiUrl :: string
  jiJwksURL :: string

definition open_cache :: "'k jwx \<Rightarrow> time \<Rightarrow> string \<Rightarrow> string \<Rightarrow> string \<Rightarrow> goerr option" where
  "open_cache X now whom name jwksURL =
     (case cache_new X of
        Some err \<Rightarrow> Some (ErrorfW (''creating JWKS cache for '' @ whom @ '': '') err [])
      | None \<Rightarrow>
     (case cache_register X jwksURL of
        Some err \<Rightarrow> Some (ErrorfW (''registering '' @ name @ '' JWKS '' @ jwksURL @ '': '') err [])
      | None \<Rightarrow>
     (case cache_refresh X now jwksURL of
        Inl err \<Rightarrow> Some (ErrorfW (''fetching '' @ name @ '' JWKS from '' @ jwksURL @ '': '') err [])
      | Inr _ \<Rightarrow> None)))"

definition new_jwks_issuer :: "'k jwx \<Rightarrow> time \<Rightarrow> string \<Rightarrow> string \<Rightarrow> string \<Rightarrow> string \<Rightarrow> jwks_issuer res" where
  "new_jwks_issuer X now whom name issuerURL jwksURL =
     (case open_cache X now whom name jwksURL of
        Some err \<Rightarrow> Inl err | None \<Rightarrow> Inr \<lparr>jiUrl = issuerURL, jiJwksURL = jwksURL\<rparr>)"

definition normalize_url :: "string \<Rightarrow> string" where
  "normalize_url u = trim_right_slash (trim_space u)"

definition shown_issuer :: "string option \<Rightarrow> string" where
  "shown_issuer i = quote (case i of None \<Rightarrow> [] | Some s \<Rightarrow> s)"

definition jwks_authenticate ::
    "'k jwx \<Rightarrow> string \<Rightarrow> string \<Rightarrow> jwks_issuer \<Rightarrow> time \<Rightarrow> string \<Rightarrow> string \<Rightarrow> PublisherPrincipal res" where
  "jwks_authenticate X name failed g now tokenString audience =
     (case cache_lookup X now (jiJwksURL g) of
        Inl err \<Rightarrow> Inl (ErrorfW (''fetching '' @ name @ '' JWKS: '') err [])
      | Inr keys \<Rightarrow>
     (case jwt_parse X keys (jiUrl g) audience acceptable_skew now tokenString of
        Inl err \<Rightarrow> Inl (ErrorfW (failed @ '' token validation failed: '') err [])
      | Inr tok \<Rightarrow>
        if tkIssuer tok \<noteq> Some (jiUrl g)
        then Inl (Errorf (''issuer mismatch: got '' @ shown_issuer (tkIssuer tok) @ '' expected '' @ quote (jiUrl g)))
        else
     (case tkSubject tok of
        None \<Rightarrow> Inl (Errorf ''missing sub claim'')
      | Some sub \<Rightarrow>
        if sub = [] then Inl (Errorf ''missing sub claim'')
        else Inr \<lparr>ppIssuer = jiUrl g, ppSub = sub\<rparr>)))"

definition validate_sub :: "rx \<Rightarrow> string \<Rightarrow> string \<Rightarrow> string \<Rightarrow> goerr option" where
  "validate_sub pattern pre post sub =
     (if sub = [] then Some (Errorf ''sub is required'')
      else if \<not> rx_match pattern sub then Some (Errorf (pre @ quote sub @ post))
      else None)"

section \<open>GitHub Actions\<close>

definition GitHubActionsIssuerURL :: string where
  "GitHubActionsIssuerURL = ''https://token.actions.githubusercontent.com''"

definition gitHubSubPattern :: rx where
  "gitHubSubPattern = Seq (rx_lit ''repo:'') (Seq (rx_plus (rx_not CHR ''/'')) (Seq (rx_lit ''/'')
     (Seq (rx_plus (rx_not CHR ''/'')) (Seq (rx_lit '':'')
     (Seq (Alt (rx_lit ''ref'') (Alt (rx_lit ''environment'') (Alt (rx_lit ''pull_request'') (Alt (rx_lit ''tag'') (rx_lit ''branch'')))))
     (Seq (rx_lit '':'') (Star rx_dot)))))))"

definition NewGitHubActionsIssuer :: "'k jwx \<Rightarrow> time \<Rightarrow> string \<Rightarrow> jwks_issuer res" where
  "NewGitHubActionsIssuer X now url =
     (let issuerURL = normalize_url (if url = [] then GitHubActionsIssuerURL else url) in
      new_jwks_issuer X now ''GitHub Actions'' ''GitHub Actions'' issuerURL (issuerURL @ ''/.well-known/jwks.json''))"

definition GitHub_Authenticate :: "'k jwx \<Rightarrow> jwks_issuer \<Rightarrow> time \<Rightarrow> string \<Rightarrow> string \<Rightarrow> PublisherPrincipal res" where
  "GitHub_Authenticate X = jwks_authenticate X ''GitHub Actions'' ''GitHub Actions''"

definition GitHub_ValidateTrustEntry :: "string \<Rightarrow> goerr option" where
  "GitHub_ValidateTrustEntry = validate_sub gitHubSubPattern ''invalid GitHub Actions sub ''
     '': must match repo:{owner}/{name}:{filter_type}:{value} (e.g. repo:org/repo:ref:refs/heads/main)''"

section \<open>GitLab CI\<close>

definition GitLabCIIssuerURL :: string where "GitLabCIIssuerURL = ''https://gitlab.com''"

definition gitLabSubPattern :: rx where
  "gitLabSubPattern = Seq (rx_lit ''project_path:'') (Seq (rx_plus (rx_not CHR '':'')) (Seq (rx_lit ''/'')
     (Seq (rx_plus (rx_not CHR '':'')) (Seq (rx_lit '':ref_type:'') (Seq (Alt (rx_lit ''branch'') (rx_lit ''tag''))
     (Seq (rx_lit '':ref:'') (rx_plus rx_dot)))))))"

definition NewGitLabCIIssuer :: "'k jwx \<Rightarrow> time \<Rightarrow> string \<Rightarrow> jwks_issuer res" where
  "NewGitLabCIIssuer X now url =
     (let issuerURL = normalize_url (if url = [] then GitLabCIIssuerURL else url) in
      new_jwks_issuer X now ''GitLab CI'' ''GitLab CI'' issuerURL (issuerURL @ ''/.well-known/jwks.json''))"

definition GitLab_Authenticate :: "'k jwx \<Rightarrow> jwks_issuer \<Rightarrow> time \<Rightarrow> string \<Rightarrow> string \<Rightarrow> PublisherPrincipal res" where
  "GitLab_Authenticate X = jwks_authenticate X ''GitLab CI'' ''GitLab CI''"

definition GitLab_ValidateTrustEntry :: "string \<Rightarrow> goerr option" where
  "GitLab_ValidateTrustEntry = validate_sub gitLabSubPattern ''invalid GitLab CI sub ''
     '': must match project_path:{group}/{project}:ref_type:{branch|tag}:ref:{ref_name}''"

section \<open>GCP workload identity\<close>

definition GCPWorkloadIssuerURL :: string where "GCPWorkloadIssuerURL = ''https://accounts.google.com''"
definition gcpDefaultJWKSURL :: string where "gcpDefaultJWKSURL = ''https://www.googleapis.com/oauth2/v3/certs''"

definition gcpSubPattern :: rx where
  "gcpSubPattern = Alt (Seq (rx_lit ''https://iam.googleapis.com/'') (Star rx_any))
     (Seq (rx_plus (rx_not CHR ''@'')) (Seq (rx_lit ''@'') (Seq (rx_plus (rx_not CHR ''@'')) (rx_lit ''.iam.gserviceaccount.com''))))"

definition NewGCPWorkloadIssuer :: "'k jwx \<Rightarrow> time \<Rightarrow> string \<Rightarrow> jwks_issuer res" where
  "NewGCPWorkloadIssuer X now url =
     (let issuerURL = normalize_url (if url = [] then GCPWorkloadIssuerURL else url);
          jwksURL = (if issuerURL \<noteq> GCPWorkloadIssuerURL then issuerURL @ ''/.well-known/jwks.json'' else gcpDefaultJWKSURL) in
      new_jwks_issuer X now ''GCP Workload Identity'' ''GCP Workload Identity'' issuerURL jwksURL)"

definition GCP_Authenticate :: "'k jwx \<Rightarrow> jwks_issuer \<Rightarrow> time \<Rightarrow> string \<Rightarrow> string \<Rightarrow> PublisherPrincipal res" where
  "GCP_Authenticate X = jwks_authenticate X ''GCP Workload Identity'' ''GCP Workload Identity''"

definition GCP_ValidateTrustEntry :: "string \<Rightarrow> goerr option" where
  "GCP_ValidateTrustEntry = validate_sub gcpSubPattern ''invalid GCP Workload Identity sub ''
     ('': must be a workload identity pool URL (https://iam.googleapis.com/...) or service account email '' @
      ''({name}@'' @ ''{project}.iam.gserviceaccount.com)'')"

section \<open>Kubernetes\<close>

definition kubernetesSubPattern :: rx where
  "kubernetesSubPattern = Seq (rx_lit ''system:serviceaccount:'') (Seq (rx_plus (rx_not CHR '':'')) (Seq (rx_lit '':'')
     (rx_plus (rx_not CHR '':''))))"

definition NewKubernetesIssuer :: "'k jwx \<Rightarrow> web \<Rightarrow> time \<Rightarrow> string \<Rightarrow> jwks_issuer res" where
  "NewKubernetesIssuer X W now url =
     (if url = [] then Inl (Errorf ''issuerURL is required for Kubernetes (use the cluster OIDC provider URL)'')
      else
        let issuerURL = normalize_url url in
        case DiscoverJWKSURI W issuerURL of
          Inl err \<Rightarrow> Inl (ErrorfW (''OIDC discovery for Kubernetes issuer '' @ issuerURL @ '': '') err [])
        | Inr jwksURL \<Rightarrow> new_jwks_issuer X now ''Kubernetes issuer'' ''Kubernetes'' issuerURL jwksURL)"

definition Kubernetes_Authenticate :: "'k jwx \<Rightarrow> jwks_issuer \<Rightarrow> time \<Rightarrow> string \<Rightarrow> string \<Rightarrow> PublisherPrincipal res" where
  "Kubernetes_Authenticate X = jwks_authenticate X ''Kubernetes'' ''kubernetes''"

definition Kubernetes_ValidateTrustEntry :: "string \<Rightarrow> goerr option" where
  "Kubernetes_ValidateTrustEntry = validate_sub kubernetesSubPattern ''invalid Kubernetes sub ''
     '': must match system:serviceaccount:{namespace}:{name}''"

section \<open>SPIFFE\<close>

definition spiffeSubPattern :: rx where
  "spiffeSubPattern = Seq (rx_lit ''spiffe://'') (Seq (rx_plus (rx_not CHR ''/'')) (Seq (rx_lit ''/'') (rx_plus rx_dot)))"

definition NewSPIFFEIssuer :: "'k jwx \<Rightarrow> time \<Rightarrow> string \<Rightarrow> jwks_issuer res" where
  "NewSPIFFEIssuer X now url =
     (if url = [] then Inl (Errorf ''issuerURL is required for SPIFFE (no default trust domain)'')
      else let issuerURL = normalize_url url in
        new_jwks_issuer X now ''SPIFFE'' ''SPIFFE'' issuerURL (issuerURL @ ''/.well-known/jwks.json''))"

definition SPIFFE_Authenticate :: "'k jwx \<Rightarrow> jwks_issuer \<Rightarrow> time \<Rightarrow> string \<Rightarrow> string \<Rightarrow> PublisherPrincipal res" where
  "SPIFFE_Authenticate X = jwks_authenticate X ''SPIFFE'' ''SPIFFE''"

definition SPIFFE_ValidateTrustEntry :: "string \<Rightarrow> goerr option" where
  "SPIFFE_ValidateTrustEntry = validate_sub spiffeSubPattern ''invalid SPIFFE ID '' '': must match spiffe://{trust_domain}/{path}''"

section \<open>Generic workloads\<close>

definition NewWorkloadIssuer :: "'k jwx \<Rightarrow> time \<Rightarrow> string \<Rightarrow> jwks_issuer res" where
  "NewWorkloadIssuer X now url =
     (if url = [] then Inl (Errorf ''issuerURL is required for workload issuer'')
      else let issuerURL = normalize_url url in
        new_jwks_issuer X now ''workload issuer'' ''workload'' issuerURL (issuerURL @ ''/.well-known/jwks.json''))"

definition Workload_Authenticate :: "'k jwx \<Rightarrow> jwks_issuer \<Rightarrow> time \<Rightarrow> string \<Rightarrow> string \<Rightarrow> PublisherPrincipal res" where
  "Workload_Authenticate X = jwks_authenticate X ''workload'' ''workload''"

definition Workload_ValidateTrustEntry :: "string \<Rightarrow> goerr option" where
  "Workload_ValidateTrustEntry sub = (if sub = [] then Some (Errorf ''sub is required'') else None)"

section \<open>The interface\<close>

text \<open>\<^verbatim>\<open>PublisherIssuer\<close> is an interface; its implementations are the constructors.\<close>

datatype publisher_issuer =
  GitHubActions jwks_issuer | GitLabCI jwks_issuer | GCPWorkload jwks_issuer | Kubernetes jwks_issuer
| SPIFFE jwks_issuer | Workload jwks_issuer

fun publisher_issuer_of :: "publisher_issuer \<Rightarrow> jwks_issuer" where
  "publisher_issuer_of (GitHubActions g) = g"
| "publisher_issuer_of (GitLabCI g) = g"
| "publisher_issuer_of (GCPWorkload g) = g"
| "publisher_issuer_of (Kubernetes g) = g"
| "publisher_issuer_of (SPIFFE g) = g"
| "publisher_issuer_of (Workload g) = g"

definition publisher_URL :: "publisher_issuer \<Rightarrow> string" where
  "publisher_URL p = jiUrl (publisher_issuer_of p)"

fun publisher_Authenticate :: "'k jwx \<Rightarrow> publisher_issuer \<Rightarrow> time \<Rightarrow> string \<Rightarrow> string \<Rightarrow> PublisherPrincipal res" where
  "publisher_Authenticate X (GitHubActions g) = GitHub_Authenticate X g"
| "publisher_Authenticate X (GitLabCI g) = GitLab_Authenticate X g"
| "publisher_Authenticate X (GCPWorkload g) = GCP_Authenticate X g"
| "publisher_Authenticate X (Kubernetes g) = Kubernetes_Authenticate X g"
| "publisher_Authenticate X (SPIFFE g) = SPIFFE_Authenticate X g"
| "publisher_Authenticate X (Workload g) = Workload_Authenticate X g"

fun publisher_ValidateTrustEntry :: "publisher_issuer \<Rightarrow> string \<Rightarrow> goerr option" where
  "publisher_ValidateTrustEntry (GitHubActions g) = GitHub_ValidateTrustEntry"
| "publisher_ValidateTrustEntry (GitLabCI g) = GitLab_ValidateTrustEntry"
| "publisher_ValidateTrustEntry (GCPWorkload g) = GCP_ValidateTrustEntry"
| "publisher_ValidateTrustEntry (Kubernetes g) = Kubernetes_ValidateTrustEntry"
| "publisher_ValidateTrustEntry (SPIFFE g) = SPIFFE_ValidateTrustEntry"
| "publisher_ValidateTrustEntry (Workload g) = Workload_ValidateTrustEntry"

section \<open>Static scanner keys\<close>

record StoredJWK =
  sjJWK :: "json option"
  sjNotAfter :: time

type_synonym 's jti_claim = "'s \<Rightarrow> time \<Rightarrow> string \<Rightarrow> duration \<Rightarrow> goerr option \<times> 's"

record 's StaticJWKIssuer =
  siUrl :: string
  siJwk :: "json option"
  siNotAfter :: time
  siJtiStore :: "'s jti_claim option"

definition NewStaticJWKIssuer :: "string \<Rightarrow> json option \<Rightarrow> time \<Rightarrow> 's jti_claim option \<Rightarrow> 's StaticJWKIssuer" where
  "NewStaticJWKIssuer issuerURL storedJWK notAfter jtiStore =
     \<lparr>siUrl = issuerURL, siJwk = storedJWK, siNotAfter = notAfter, siJtiStore = jtiStore\<rparr>"

text \<open>\<^verbatim>\<open>time.Time.String\<close> of an instant in UTC.\<close>

definition time_string :: "time \<Rightarrow> string" where
  "time_string t = (let s = format_rfc3339nano t in take 10 s @ '' '' @ butlast (drop 11 s) @ '' +0000 UTC'')"

text \<open>\<^verbatim>\<open>time.Duration.String\<close> of a span of at least one second.  Spans are not cut off at 292 years, which no
  comparison below depends on.\<close>

definition duration_string :: "duration \<Rightarrow> string" where
  "duration_string d =
     (let h = d div (60 * minute); m = d div minute mod 60; s = d div second mod 60; f = d mod second;
          frac = trim_right_by (\<lambda>c. c = CHR ''0'') (drop 1 (show_int (second + f))) in
      (if h = 0 then [] else show_int h @ ''h'') @ (if h = 0 \<and> m = 0 then [] else show_int m @ ''m'') @
      show_int s @ (if f = 0 then [] else ''.'' @ frac) @ ''s'')"

definition max_lifetime :: duration where "max_lifetime = 10 * minute"

definition claim_token :: "'s jti_claim option \<Rightarrow> 's \<Rightarrow> time \<Rightarrow> string \<Rightarrow> time \<Rightarrow> goerr option \<times> 's" where
  "claim_token store st now jti expiry =
     (case store of
        None \<Rightarrow> (None, st)
      | Some claim \<Rightarrow>
        let remaining = (if expiry - now \<le> 0 then second else expiry - now) in
        case claim st now jti remaining of
          (Some err, st') \<Rightarrow> (Some (ErrorfW ''jti replay check failed: '' err []), st')
        | (None, st') \<Rightarrow> (None, st'))"

definition StaticJWK_Authenticate ::
    "'k jwx \<Rightarrow> 's StaticJWKIssuer \<Rightarrow> 's \<Rightarrow> time \<Rightarrow> string \<Rightarrow> string \<Rightarrow> PublisherPrincipal res \<times> 's" where
  "StaticJWK_Authenticate X s st now tokenString audience =
     (if now > siNotAfter s
      then (Inl (Errorf (''JWK for issuer '' @ siUrl s @ '' has expired (not_after: '' @ time_string (siNotAfter s) @ '')'')), st)
      else case jwk_parse X (siJwk s) of
        Inl err \<Rightarrow> (Inl (ErrorfW (''parsing static JWK for issuer '' @ siUrl s @ '': '') err []), st)
      | Inr keys \<Rightarrow>
     (case jwt_parse X keys (siUrl s) audience acceptable_skew now tokenString of
        Inl err \<Rightarrow> (Inl (ErrorfW (''static JWK validation failed for '' @ siUrl s @ '': '') err []), st)
      | Inr tok \<Rightarrow>
        if tkIssuer tok \<noteq> Some (siUrl s)
        then (Inl (Errorf (''static JWK issuer mismatch: got '' @ shown_issuer (tkIssuer tok) @ '' expected '' @ quote (siUrl s))), st)
        else
     (case (tkIssuedAt tok, tkExpiration tok) of
        (None, _) \<Rightarrow> (Inl (Errorf ''static JWK token missing iat claim''), st)
      | (_, None) \<Rightarrow> (Inl (Errorf ''static JWK token missing exp claim''), st)
      | (Some iat, Some expiry) \<Rightarrow>
        if expiry - iat > max_lifetime
        then (Inl (Errorf (''static JWK token lifetime exceeds 10-minute maximum (iat-to-exp: '' @ duration_string (expiry - iat) @ '')'')), st)
        else
     (case tkJwtID tok of
        None \<Rightarrow> (Inl (Errorf ''static JWK token missing jti claim''), st)
      | Some jti \<Rightarrow>
        if jti = [] then (Inl (Errorf ''static JWK token missing jti claim''), st)
        else
     (case claim_token (siJtiStore s) st now jti expiry of
        (Some err, st') \<Rightarrow> (Inl err, st')
      | (None, st') \<Rightarrow>
     (case tkSubject tok of
        None \<Rightarrow> (Inl (Errorf ''static JWK token missing sub claim''), st')
      | Some sub \<Rightarrow>
        if sub = [] then (Inl (Errorf ''static JWK token missing sub claim''), st')
        else (Inr \<lparr>ppIssuer = siUrl s, ppSub = sub\<rparr>, st')))))))"

definition StaticJWK_ValidateTrustEntry :: "'s StaticJWKIssuer \<Rightarrow> string \<Rightarrow> goerr option" where
  "StaticJWK_ValidateTrustEntry s sub =
     (if sub = [] then Some (Errorf ''sub is required'')
      else if sub \<noteq> siUrl s
      then Some (Errorf (''static JWK issuer trust entries must have issuer == sub (got issuer='' @ quote (siUrl s) @ '' sub='' @
        quote sub @ ''); the scanner identity is the issuer ID''))
      else None)"

section \<open>Formats of trust entries\<close>

definition no_char :: "char \<Rightarrow> string \<Rightarrow> bool" where
  "no_char c s \<longleftrightarrow> s \<noteq> [] \<and> c \<notin> set s"

fun well_formed_sub :: "publisher_issuer \<Rightarrow> string \<Rightarrow> bool" where
  "well_formed_sub (GitHubActions g) sub \<longleftrightarrow> (\<exists>owner name kind v. no_char CHR ''/'' owner \<and> no_char CHR ''/'' name \<and>
     kind \<in> {''ref'', ''environment'', ''pull_request'', ''tag'', ''branch''} \<and> CHR 0x0A \<notin> set v \<and>
     sub = ''repo:'' @ owner @ ''/'' @ name @ '':'' @ kind @ '':'' @ v)"
| "well_formed_sub (GitLabCI g) sub \<longleftrightarrow> (\<exists>group project kind v. no_char CHR '':'' group \<and> no_char CHR '':'' project \<and>
     kind \<in> {''branch'', ''tag''} \<and> no_char CHR 0x0A v \<and>
     sub = ''project_path:'' @ group @ ''/'' @ project @ '':ref_type:'' @ kind @ '':ref:'' @ v)"
| "well_formed_sub (GCPWorkload g) sub \<longleftrightarrow> (\<exists>v. sub = ''https://iam.googleapis.com/'' @ v) \<or>
     (\<exists>name project. no_char CHR ''@'' name \<and> no_char CHR ''@'' project \<and> sub = name @ ''@'' @ project @ ''.iam.gserviceaccount.com'')"
| "well_formed_sub (Kubernetes g) sub \<longleftrightarrow> (\<exists>namespace name. no_char CHR '':'' namespace \<and> no_char CHR '':'' name \<and>
     sub = ''system:serviceaccount:'' @ namespace @ '':'' @ name)"
| "well_formed_sub (SPIFFE g) sub \<longleftrightarrow> (\<exists>domain path. no_char CHR ''/'' domain \<and> no_char CHR 0x0A path \<and>
     sub = ''spiffe://'' @ domain @ ''/'' @ path)"
| "well_formed_sub (Workload g) sub \<longleftrightarrow> sub \<noteq> []"

declare rx_lit.simps [simp del]

lemma list_all_neq [simp]: "list_all (\<lambda>c. c \<noteq> d) s \<longleftrightarrow> d \<notin> set s"
  by (induction s) auto

lemma rx_lang_Seq_plus_not [simp]:
  "rx_lang (Seq (rx_plus (Cls (\<lambda>c. c \<noteq> d))) r) w \<longleftrightarrow> (\<exists>u v. w = u @ v \<and> no_char d u \<and> rx_lang r v)"
  by (auto simp: rx_lang_Seq no_char_def)

lemma rx_lang_plus_not: "rx_lang (rx_plus (Cls (\<lambda>c. c \<noteq> d))) w \<longleftrightarrow> no_char d w"
  by (simp add: no_char_def)

lemma rx_lang_Seq_Alt: "rx_lang (Seq (Alt r q) s) w \<longleftrightarrow> (\<exists>u v. w = u @ v \<and> rx_lang (Alt r q) u \<and> rx_lang s v)"
  by (simp only: rx_lang_Seq)

lemmas sub_pattern_simps = rx_block_defs rx_lang_Seq_lit rx_lang_Seq_plus_not rx_lang_plus_not rx_lang_Seq_Alt
  rx_lang_lit rx_lang_Star_Cls list_all_neq well_formed_sub.simps

lemma part_chain:
  "(\<exists>v. s = a @ v \<and> (\<exists>u w. v = u @ w \<and> P u \<and> (\<exists>x. w = b @ x \<and> (\<exists>y z. x = y @ z \<and> Q y \<and>
     (\<exists>p. z = c @ p \<and> (\<exists>k q. p = k @ q \<and> K k \<and> (\<exists>v. q = d @ v \<and> R v)))))))
   \<longleftrightarrow> (\<exists>u y k v. P u \<and> Q y \<and> K k \<and> R v \<and> s = a @ u @ b @ y @ c @ k @ d @ v)"
  (is "?L \<longleftrightarrow> ?R")
proof
  show "?L \<Longrightarrow> ?R" by (elim exE conjE) (intro exI conjI; (assumption | simp only: append_assoc))
  show "?R \<Longrightarrow> ?L" by (elim exE conjE) (intro exI conjI; (assumption | rule refl))
qed

lemma github_kinds:
  "rx_lang (Alt (rx_lit ''ref'') (Alt (rx_lit ''environment'') (Alt (rx_lit ''pull_request'') (Alt (rx_lit ''tag'') (rx_lit ''branch''))))) w
   \<longleftrightarrow> w \<in> {''ref'', ''environment'', ''pull_request'', ''tag'', ''branch''}"
  by (simp only: rx_lang_Alt rx_lang_lit insert_iff empty_iff simp_thms)

lemma gitlab_kinds: "rx_lang (Alt (rx_lit ''branch'') (rx_lit ''tag'')) w \<longleftrightarrow> w \<in> {''branch'', ''tag''}"
  by (simp only: rx_lang_Alt rx_lang_lit insert_iff empty_iff simp_thms)

lemma validate_sub_None: "validate_sub r a b sub = None \<longleftrightarrow> sub \<noteq> [] \<and> rx_lang r sub"
  by (simp add: validate_sub_def rx_match_iff)

lemmas trust_entry_defs = GitHub_ValidateTrustEntry_def GitLab_ValidateTrustEntry_def GCP_ValidateTrustEntry_def
  Kubernetes_ValidateTrustEntry_def SPIFFE_ValidateTrustEntry_def Workload_ValidateTrustEntry_def

lemma github_lang: "rx_lang gitHubSubPattern sub \<longleftrightarrow> well_formed_sub (GitHubActions g) sub"
  unfolding gitHubSubPattern_def github_kinds sub_pattern_simps by (rule part_chain)

lemma gitlab_lang: "rx_lang gitLabSubPattern sub \<longleftrightarrow> well_formed_sub (GitLabCI g) sub"
  unfolding gitLabSubPattern_def gitlab_kinds sub_pattern_simps by (rule part_chain)

lemma gcp_lang: "rx_lang gcpSubPattern sub \<longleftrightarrow> well_formed_sub (GCPWorkload g) sub"
  unfolding gcpSubPattern_def rx_lang_Alt sub_pattern_simps list_all_iff by blast

lemma kubernetes_lang: "rx_lang kubernetesSubPattern sub \<longleftrightarrow> well_formed_sub (Kubernetes g) sub"
  unfolding kubernetesSubPattern_def sub_pattern_simps by blast

lemma spiffe_lang: "rx_lang spiffeSubPattern sub \<longleftrightarrow> well_formed_sub (SPIFFE g) sub"
  unfolding spiffeSubPattern_def sub_pattern_simps by blast

section \<open>What token validation guarantees\<close>

text \<open>
  The documented checks of \<^verbatim>\<open>jwt.Parse\<close> with a key set, an issuer, an audience and a skew: the signature
  verifies under the key set, the token is meant for the audience, \<^verbatim>\<open>iss\<close> is the issuer, and \<^verbatim>\<open>iat\<close> and \<^verbatim>\<open>exp\<close>
  hold at the present instant up to the skew and the library's precision of one second.
  \<^verbatim>\<open>jwt.ParseInsecure\<close> reads the same claims without checking them.
\<close>

locale jwt_library =
  fixes X :: "'k jwx"
    and verifies :: "'k \<Rightarrow> string \<Rightarrow> bool"
    and intended :: "string \<Rightarrow> string \<Rightarrow> bool"
  assumes parse_checked: "jwt_parse X keys iss aud skew now s = Inr tok \<Longrightarrow>
        verifies keys s \<and> intended s aud \<and> tkIssuer tok = Some iss"
    and parse_iat: "jwt_parse X keys iss aud skew now s = Inr tok \<Longrightarrow> tkIssuedAt tok = Some iat \<Longrightarrow> iat \<le> now + skew + second"
    and parse_exp: "jwt_parse X keys iss aud skew now s = Inr tok \<Longrightarrow> tkExpiration tok = Some e \<Longrightarrow> now < e + skew + second"
    and parse_insecure: "jwt_parse X keys iss aud skew now s = Inr tok \<Longrightarrow> jwt_parse_insecure X s = Inr tok"
begin

lemma jwks_authenticate_sound:
  assumes "jwks_authenticate X name failed g now s aud = Inr p"
  shows "\<exists>keys tok. cache_lookup X now (jiJwksURL g) = Inr keys \<and> verifies keys s \<and> intended s aud \<and>
     jwt_parse_insecure X s = Inr tok \<and> tkIssuer tok = Some (jiUrl g) \<and> tkSubject tok = Some (ppSub p) \<and>
     (case tkExpiration tok of None \<Rightarrow> True | Some e \<Rightarrow> now < e + 31 * second) \<and> ppIssuer p = jiUrl g \<and> ppSub p \<noteq> []"
  using assms parse_checked parse_insecure parse_exp [where skew = acceptable_skew]
  by (fastforce simp: jwks_authenticate_def acceptable_skew_def split: sum.splits option.splits if_splits)

lemma publisher_sound:
  assumes "publisher_Authenticate X i now s aud = Inr p"
  shows "\<exists>keys tok. cache_lookup X now (jiJwksURL (publisher_issuer_of i)) = Inr keys \<and> verifies keys s \<and> intended s aud \<and>
     jwt_parse_insecure X s = Inr tok \<and> tkIssuer tok = Some (publisher_URL i) \<and> tkSubject tok = Some (ppSub p) \<and>
     (case tkExpiration tok of None \<Rightarrow> True | Some e \<Rightarrow> now < e + 31 * second) \<and> ppIssuer p = publisher_URL i \<and> ppSub p \<noteq> []"
  using assms
  by (cases i) (auto simp: publisher_URL_def GitHub_Authenticate_def GitLab_Authenticate_def GCP_Authenticate_def
      Kubernetes_Authenticate_def SPIFFE_Authenticate_def Workload_Authenticate_def dest!: jwks_authenticate_sound)

end

text \<open>The replay store as the issuers use it: a claimed identifier stays claimed for the window.\<close>

locale jti_store =
  fixes claim :: "'s jti_claim"
    and ready :: "'s \<Rightarrow> bool"
    and claimed :: "'s \<Rightarrow> time \<Rightarrow> string \<Rightarrow> bool"
    and window :: duration
  assumes claim_done: "ready s \<Longrightarrow> claim s t j d = (None, s') \<Longrightarrow> t' < t + window \<Longrightarrow> claimed s' t' j"
    and claim_taken: "ready s \<Longrightarrow> claimed s t j \<Longrightarrow> claim s t j d = (q, s') \<Longrightarrow> q \<noteq> None"
    and claim_keeps: "ready s \<Longrightarrow> (\<And>t'. t' < T \<Longrightarrow> claimed s t' j) \<Longrightarrow> u < T \<Longrightarrow> claim s u j' d = (q, s') \<Longrightarrow> t' < T \<Longrightarrow> claimed s' t' j"
    and claim_ready: "ready s \<Longrightarrow> claim s t j d = (q, s') \<Longrightarrow> ready s'"

context kv_store
begin

lemma ClaimJTI_claimed:
  assumes "ClaimJTI kv s t j d = (None, s')" "ttl (jtiKV s) = w" "0 < w" "t' < t + w"
  shows "view (jtiKV s') t' j \<noteq> None"
  using assms create_done [where t' = t'] by (fastforce simp: ClaimJTI_def kv_live_def split: prod.splits sum.splits if_splits)

lemma ClaimJTI_taken:
  assumes "view (jtiKV s) t j \<noteq> None" "ClaimJTI kv s t j d = (q, s')"
  shows "q \<noteq> None" "view (jtiKV s') = view (jtiKV s)"
  using assms create_taken by (fastforce simp: ClaimJTI_def split: prod.splits sum.splits if_splits)+

lemma ClaimJTI_keeps:
  assumes "\<And>t'. t' < T \<Longrightarrow> view (jtiKV s) t' j \<noteq> None" "u < T" "ClaimJTI kv s u j' d = (q, s')" "t' < T"
  shows "view (jtiKV s') t' j \<noteq> None"
  using assms ClaimJTI_taken(2) [where j = j and t = u and s = s] ClaimJTI_frame(5) [OF assms(3), of j t'] by (cases "j = j'") auto

lemma jti_ttl_pos: "0 < kvTTL JTIReplayKVConfig"
  by (simp add: JTIReplayKVConfig_def)

end

sublocale kv_store \<subseteq> jti: jti_store "ClaimJTI kv" "store_provisioned ttl" "\<lambda>s t j. view (jtiKV s) t j \<noteq> None" "kvTTL JTIReplayKVConfig"
proof
  fix s t j d s' t'
  assume "store_provisioned ttl s" "ClaimJTI kv s t j d = (None, s')" "t' < t + kvTTL JTIReplayKVConfig"
  then show "view (jtiKV s') t' j \<noteq> None"
    using ClaimJTI_claimed jti_ttl_pos by (simp add: store_provisioned_def)
next
  fix s t j d q s'
  assume "store_provisioned ttl s" "ClaimJTI kv s t j d = (q, s')"
  then show "store_provisioned ttl s'"
    using ClaimJTI_frame(1-4) by (simp add: store_provisioned_def)
qed (use ClaimJTI_taken(1) ClaimJTI_keeps in blast)+

context kv_store
begin

lemma jti_contract: "jti_store (ClaimJTI kv) (store_provisioned ttl) (\<lambda>s t j. view (jtiKV s) t j \<noteq> None) (kvTTL JTIReplayKVConfig)"
  by unfold_locales

end

section \<open>Replays\<close>

text \<open>A sequence of authentications against one store, each with its issuer, instant, token and audience.\<close>

record 's static_call =
  scIssuer :: "'s StaticJWKIssuer"
  scNow :: time
  scToken :: string
  scAudience :: string

fun static_run :: "'k jwx \<Rightarrow> 's \<Rightarrow> 's static_call list \<Rightarrow> PublisherPrincipal res list" where
  "static_run X st [] = []"
| "static_run X st (c # cs) =
     (case StaticJWK_Authenticate X (scIssuer c) st (scNow c) (scToken c) (scAudience c) of
        (r, st') \<Rightarrow> r # static_run X st' cs)"

lemma length_static_run [simp]: "length (static_run X st cs) = length cs"
  by (induction cs arbitrary: st) (auto split: prod.splits)

text \<open>Every outcome leaves the store as it was or claims one identifier.\<close>

lemma static_state_cases:
  assumes "StaticJWK_Authenticate X i st now s aud = (r, st')" "siJtiStore i = Some claim"
  shows "(isl r \<and> st' = st) \<or> (\<exists>jti d q. claim st now jti d = (q, st'))"
  using assms by (auto simp: StaticJWK_Authenticate_def claim_token_def Let_def
      split: sum.splits option.splits if_splits prod.splits)

lemma static_success:
  assumes "StaticJWK_Authenticate X i st now s aud = (Inr p, st')" "siJtiStore i = Some claim"
  obtains keys tok iat e jti d where "jwk_parse X (siJwk i) = Inr keys"
    "jwt_parse X keys (siUrl i) aud acceptable_skew now s = Inr tok"
    "tkIssuedAt tok = Some iat" "tkExpiration tok = Some e" "e - iat \<le> max_lifetime" "tkJwtID tok = Some jti"
    "claim st now jti d = (None, st')" "tkSubject tok = Some (ppSub p)" "ppIssuer p = siUrl i" "ppSub p \<noteq> []"
    "now \<le> siNotAfter i"
  using assms by (auto simp: StaticJWK_Authenticate_def claim_token_def Let_def
      split: sum.splits option.splits if_splits prod.splits)

locale static_issuers = jwt_library X verifies intended + jti_store claim ready claimed window
  for X :: "'k jwx" and verifies intended and claim :: "'s jti_claim" and ready claimed window +
  assumes window_enough: "max_lifetime + 2 * (acceptable_skew + second) \<le> window"
begin

lemma static_ready:
  assumes "StaticJWK_Authenticate X i st now s aud = (r, st')" "siJtiStore i = Some claim" "ready st"
  shows "ready st'"
  using static_state_cases [OF assms(1,2)] assms(3) claim_ready by blast

lemma static_keeps:
  assumes "StaticJWK_Authenticate X i st now s aud = (r, st')" "siJtiStore i = Some claim" "ready st"
    "\<And>t'. t' < T \<Longrightarrow> claimed st t' j" "now < T" "t' < T"
  shows "claimed st' t' j"
  using static_state_cases [OF assms(1,2)]
proof
  assume "isl r \<and> st' = st"
  with assms(4,6) show ?thesis by simp
next
  assume "\<exists>jti d q. claim st now jti d = (q, st')"
  then obtain jti d q where "claim st now jti d = (q, st')" by blast
  with assms(3-6) show ?thesis by (blast intro: claim_keeps)
qed

text \<open>Once claimed, the token is refused: while it could be valid the claim holds, and after that it has expired.\<close>

lemma static_refused:
  assumes "ready st" "sorted (map scNow cs)" "\<forall>c \<in> set cs. siJtiStore (scIssuer c) = Some claim"
    "jwt_parse_insecure X s = Inr tok" "tkJwtID tok = Some j" "tkExpiration tok = Some e" "e + acceptable_skew + second \<le> T"
    "\<And>t'. t' < T \<Longrightarrow> claimed st t' j \<or> (\<forall>c \<in> set cs. T \<le> scNow c)"
    "n < length cs" "scToken (cs ! n) = s"
  shows "isl (static_run X st cs ! n)"
  using assms(1-3,8-10)
proof (induction cs arbitrary: st n)
  case (Cons c cs)
  obtain r st' where a: "StaticJWK_Authenticate X (scIssuer c) st (scNow c) (scToken c) (scAudience c) = (r, st')"
    by fastforce
  have store: "siJtiStore (scIssuer c) = Some claim" using Cons.prems(3) by simp
  show ?case
  proof (cases n)
    case 0
    show ?thesis
    proof (rule ccontr)
      assume "\<not> ?thesis"
      with 0 a obtain p where "r = Inr p" by (cases r) auto
      with a 0 Cons.prems(6) have ok: "StaticJWK_Authenticate X (scIssuer c) st (scNow c) s (scAudience c) = (Inr p, st')" by simp
      from static_success [OF ok store] obtain keys tok' d where
        p: "jwt_parse X keys (siUrl (scIssuer c)) (scAudience c) acceptable_skew (scNow c) s = Inr tok'"
        and j: "\<exists>jti. tkJwtID tok' = Some jti \<and> claim st (scNow c) jti d = (None, st')" by metis
      have "tok' = tok" using parse_insecure [OF p] assms(4) by simp
      then have "scNow c < e + acceptable_skew + second" "claim st (scNow c) j d = (None, st')"
        using parse_exp [OF p] assms(5,6) j by auto
      moreover from this(1) have "scNow c < T" using assms(7) by linarith
      ultimately show False
        using Cons.prems(4) [of "scNow c"] claim_taken [OF Cons.prems(1)] by fastforce
    qed
  next
    case (Suc m)
    have "claimed st' t' j \<or> (\<forall>c \<in> set cs. T \<le> scNow c)" if "t' < T" for t'
    proof (cases "scNow c < T")
      case True
      then have "claimed st t' j" if "t' < T" for t' using Cons.prems(4) [OF that] by auto
      then show ?thesis using static_keeps [OF a store Cons.prems(1) _ True \<open>t' < T\<close>] by blast
    next
      case False
      then show ?thesis using Cons.prems(2) by auto
    qed
    then show ?thesis
      using Cons.IH [of st' m] Cons.prems static_ready [OF a store] Suc a by auto
  qed
qed simp

lemma static_no_replay:
  assumes "ready st" "sorted (map scNow cs)" "\<forall>c \<in> set cs. siJtiStore (scIssuer c) = Some claim"
    "n < m" "m < length cs" "scToken (cs ! n) = scToken (cs ! m)" "\<not> isl (static_run X st cs ! n)"
  shows "isl (static_run X st cs ! m)"
  using assms
proof (induction cs arbitrary: st n m)
  case (Cons c cs)
  obtain r st' where a: "StaticJWK_Authenticate X (scIssuer c) st (scNow c) (scToken c) (scAudience c) = (r, st')"
    by fastforce
  have store: "siJtiStore (scIssuer c) = Some claim" using Cons.prems(3) by simp
  obtain k where m: "m = Suc k" using Cons.prems(4) by (cases m) auto
  note rdy = static_ready [OF a store Cons.prems(1)]
  show ?case
  proof (cases n)
    case 0
    with a Cons.prems(7) obtain p where "r = Inr p" by (cases r) auto
    with a have ok: "StaticJWK_Authenticate X (scIssuer c) st (scNow c) (scToken c) (scAudience c) = (Inr p, st')" by simp
    obtain keys tok iat e jti d where
      p: "jwt_parse X keys (siUrl (scIssuer c)) (scAudience c) acceptable_skew (scNow c) (scToken c) = Inr tok"
      and t: "tkIssuedAt tok = Some iat" "tkExpiration tok = Some e" "e - iat \<le> max_lifetime" "tkJwtID tok = Some jti"
      and cl: "claim st (scNow c) jti d = (None, st')"
      using static_success [OF ok store] by metis
    have "iat \<le> scNow c + acceptable_skew + second" using parse_iat [OF p t(1)] .
    then have T: "e + acceptable_skew + second \<le> scNow c + window" using t(3) window_enough by (simp add: algebra_simps)
    have "isl (static_run X st' cs ! k)"
      by (rule static_refused [OF rdy _ _ parse_insecure [OF p] t(4,2) T])
        (use Cons.prems(2,3,5,6) 0 m claim_done [OF Cons.prems(1) cl] in auto)
    then show ?thesis using a m by simp
  next
    case (Suc n')
    then show ?thesis
      using Cons.IH [OF rdy, of n' k] Cons.prems m a by auto
  qed
qed simp

end

lemma jti_window: "max_lifetime + 2 * (acceptable_skew + second) \<le> kvTTL JTIReplayKVConfig"
  by (simp add: max_lifetime_def acceptable_skew_def JTIReplayKVConfig_def)

lemma static_issuers_of_stores:
  assumes "kv_store kv view ttl" "jwt_library X verifies intended"
  shows "static_issuers X verifies intended (ClaimJTI kv) (store_provisioned ttl) (\<lambda>s t j. view (jtiKV s) t j \<noteq> None) (kvTTL JTIReplayKVConfig)"
  using kv_store.jti_contract [OF assms(1)] assms(2) jti_window
  by (simp add: static_issuers_def static_issuers_axioms_def)

text \<open>A library over a table of tokens, each with its key, its audiences and its claims; a key set is a list of keys.\<close>

type_synonym token_table = "(string \<times> string \<times> string list \<times> jwt_token) list"

definition token_valid :: "token_table \<Rightarrow> string list \<Rightarrow> string \<Rightarrow> string \<Rightarrow> duration \<Rightarrow> time \<Rightarrow> string \<Rightarrow> jwt_token res" where
  "token_valid tbl keys iss aud skew now s =
     (case map_of tbl s of
        None \<Rightarrow> Inl (Foreign ''malformed token'')
      | Some (key, auds, tok) \<Rightarrow>
        if key \<in> set keys \<and> aud \<in> set auds \<and> tkIssuer tok = Some iss \<and>
           (case tkIssuedAt tok of None \<Rightarrow> True | Some t \<Rightarrow> t \<le> now + skew) \<and>
           (case tkExpiration tok of None \<Rightarrow> True | Some t \<Rightarrow> now < t + skew)
        then Inr tok else Inl (Foreign ''invalid token''))"

definition plain_jwx :: "token_table \<Rightarrow> string list jwx" where
  "plain_jwx tbl = \<lparr>jwt_parse = token_valid tbl,
     jwt_parse_insecure = (\<lambda>s. case map_of tbl s of None \<Rightarrow> Inl (Foreign ''malformed token'') | Some (_, _, tok) \<Rightarrow> Inr tok),
     jwk_parse = (\<lambda>j. case j of Some (JStr k) \<Rightarrow> Inr [k] | _ \<Rightarrow> Inl (Foreign ''not a key'')),
     cache_new = None, cache_register = (\<lambda>_. None), cache_refresh = (\<lambda>_ u. Inr [u]), cache_lookup = (\<lambda>_ u. Inr [u])\<rparr>"

definition table_key :: "token_table \<Rightarrow> string list \<Rightarrow> string \<Rightarrow> bool" where
  "table_key tbl keys s \<longleftrightarrow> (case map_of tbl s of None \<Rightarrow> False | Some (key, _, _) \<Rightarrow> key \<in> set keys)"

definition table_audience :: "token_table \<Rightarrow> string \<Rightarrow> string \<Rightarrow> bool" where
  "table_audience tbl s aud \<longleftrightarrow> (case map_of tbl s of None \<Rightarrow> False | Some (_, auds, _) \<Rightarrow> aud \<in> set auds)"

interpretation plain_jwt: jwt_library "plain_jwx tbl" "table_key tbl" "table_audience tbl"
  by unfold_locales
    (auto simp: plain_jwx_def token_valid_def table_key_def table_audience_def split: option.splits if_splits)

interpretation mem_static: static_issuers "plain_jwx tbl" "table_key tbl" "table_audience tbl" "ClaimJTI mem_kv" "store_provisioned memTTL"
  "\<lambda>s t j. mem_view (jtiKV s) t j \<noteq> None" "kvTTL JTIReplayKVConfig"
  by (rule static_issuers_of_stores [OF mem.kv_store_axioms plain_jwt.jwt_library_axioms])

section \<open>Properties\<close>

text \<open>C30: the trust entries a publisher issuer accepts are exactly those in its documented format (GitHub
  \<^verbatim>\<open>repo:owner/name:kind:value\<close>, GitLab \<^verbatim>\<open>project_path:group/project:ref_type:kind:ref:name\<close>, a GCP pool URL or service account,
  \<^verbatim>\<open>system:serviceaccount:namespace:name\<close>, \<^verbatim>\<open>spiffe://domain/path\<close>, any non-empty workload subject).\<close>

theorem trust_entry_formats:
  "publisher_ValidateTrustEntry p sub = None \<longleftrightarrow> well_formed_sub p sub"
proof -
  have "well_formed_sub p sub \<Longrightarrow> sub \<noteq> []" by (cases p) (auto simp: no_char_def)
  then show ?thesis
    using github_lang gitlab_lang gcp_lang kubernetes_lang spiffe_lang
    by (cases p) (auto simp: trust_entry_defs validate_sub_None simp del: well_formed_sub.simps(1-5))
qed

text \<open>A publisher issuer authenticates only a token whose signature verifies under the issuer's own key set, that is
  meant for the service's audience, names the issuer in \<^verbatim>\<open>iss\<close> and has not expired (up to the accepted skew); the principal
  is that issuer with the token's non-empty subject.\<close>

theorem publisher_authenticate_sound:
  assumes "jwt_library X verifies intended" "publisher_Authenticate X i now s aud = Inr p"
  shows "\<exists>keys tok. cache_lookup X now (jiJwksURL (publisher_issuer_of i)) = Inr keys \<and> verifies keys s \<and> intended s aud \<and>
     jwt_parse_insecure X s = Inr tok \<and> tkIssuer tok = Some (publisher_URL i) \<and> tkSubject tok = Some (ppSub p) \<and>
     (case tkExpiration tok of None \<Rightarrow> True | Some e \<Rightarrow> now < e + 31 * second) \<and> ppIssuer p = publisher_URL i \<and> ppSub p \<noteq> []"
  using assms by (rule jwt_library.publisher_sound)

definition ex_token :: "string \<Rightarrow> jwt_token" where
  "ex_token iss = \<lparr>tkIssuer = Some iss, tkSubject = Some ''bot'', tkIssuedAt = Some 0, tkExpiration = Some (5 * minute),
     tkJwtID = Some ''id-1'', tkJSON = Inr ''{}''\<rparr>"

definition ex_table :: token_table where
  "ex_table = [(''tok'', ''https://ci/keys'', [''core''], ex_token ''https://ci''), (''scan'', ''key-1'', [''core''], ex_token ''scanner'')]"

definition ex_publisher :: publisher_issuer where
  "ex_publisher = Workload \<lparr>jiUrl = ''https://ci'', jiJwksURL = ''https://ci/keys''\<rparr>"

theorem publisher_authenticate_sound_witness:
  "publisher_Authenticate (plain_jwx ex_table) ex_publisher second ''tok'' ''core'' = Inr \<lparr>ppIssuer = ''https://ci'', ppSub = ''bot''\<rparr> \<and>
   (\<exists>keys. cache_lookup (plain_jwx ex_table) second ''https://ci/keys'' = Inr keys \<and> table_key ex_table keys ''tok'')"
proof -
  have a: "publisher_Authenticate (plain_jwx ex_table) ex_publisher second ''tok'' ''core'' = Inr \<lparr>ppIssuer = ''https://ci'', ppSub = ''bot''\<rparr>"
    by code_simp
  have u: "jiJwksURL (publisher_issuer_of ex_publisher) = ''https://ci/keys''" by code_simp
  show ?thesis
    using a publisher_authenticate_sound [OF plain_jwt.jwt_library_axioms a] u by metis
qed

text \<open>C11: a token for a static scanner key is accepted at most once, over any sequence of authentications in time order and
  whatever happens between them.  The ten-minute limit from \<^verbatim>\<open>iat\<close> to \<^verbatim>\<open>exp\<close> with the skew on both sides is within the
  fifteen minutes for which the replay bucket remembers a claimed identifier.\<close>

theorem static_token_once:
  assumes "kv_store kv view ttl" "jwt_library X verifies intended" "store_provisioned ttl st"
    and "sorted (map scNow cs)" "\<forall>c \<in> set cs. siJtiStore (scIssuer c) = Some (ClaimJTI kv)"
    and "n < m" "m < length cs" "scToken (cs ! n) = scToken (cs ! m)" "static_run X st cs ! n = Inr p"
  shows "isl (static_run X st cs ! m)"
  using static_issuers.static_no_replay [OF static_issuers_of_stores [OF assms(1,2)] assms(3-8)] assms(9) by simp

definition ex_scanner :: "mem_bucket TrustStore StaticJWKIssuer" where
  "ex_scanner = NewStaticJWKIssuer ''scanner'' (Some (JStr ''key-1'')) (60 * minute) (Some (ClaimJTI mem_kv))"

definition ex_calls :: "mem_bucket TrustStore static_call list" where
  "ex_calls = [\<lparr>scIssuer = ex_scanner, scNow = second, scToken = ''scan'', scAudience = ''core''\<rparr>,
     \<lparr>scIssuer = ex_scanner, scNow = 2 * second, scToken = ''scan'', scAudience = ''core''\<rparr>]"

theorem static_token_once_witness:
  "static_run (plain_jwx ex_table) mem_store ex_calls ! 0 = Inr \<lparr>ppIssuer = ''scanner'', ppSub = ''bot''\<rparr> \<and>
   isl (static_run (plain_jwx ex_table) mem_store ex_calls ! 1)"
proof -
  have r: "static_run (plain_jwx ex_table) mem_store ex_calls ! 0 = Inr \<lparr>ppIssuer = ''scanner'', ppSub = ''bot''\<rparr>"
    by code_simp
  have "sorted (map scNow ex_calls)" "\<forall>c \<in> set ex_calls. siJtiStore (scIssuer c) = Some (ClaimJTI mem_kv)"
    "scToken (ex_calls ! 0) = scToken (ex_calls ! 1)" "1 < length ex_calls"
    by (simp_all add: ex_calls_def ex_scanner_def NewStaticJWKIssuer_def)
  then show ?thesis
    using static_token_once [OF mem.kv_store_axioms plain_jwt.jwt_library_axioms mem_store_provisioned _ _ _ _ _ r, of 1] r by simp
qed

end
