(* ===== verification/Authz.thy ===== *)
theory Authz
  imports Trust GoFiles
begin

text \<open>
  Authorization (\<^verbatim>\<open>internal/authz\<close>): the request context, the mapping of routes to Cedar actions, the base
  policies of \<^verbatim>\<open>policies/base.cedar\<close> as data, their loading together with extra policy files, and the
  middleware.  The Cedar engine is a parameter: the locale \<open>cedar_engine\<close> states its documented decision
  rule over the fragment of the policy language that the base policies use.
\<close>

section \<open>Actions and routes\<close>

record EntityUID =
  uidType :: string
  uidId :: string

definition ActionPublishArtifact :: EntityUID where
  "ActionPublishArtifact = \<lparr>uidType = ''Action'', uidId = ''publish:artifact''\<rparr>"
definition ActionRequestRegistration :: EntityUID where
  "ActionRequestRegistration = \<lparr>uidType = ''Action'', uidId = ''admin:request-registration''\<rparr>"
definition ActionRequestTrustModification :: EntityUID where
  "ActionRequestTrustModification = \<lparr>uidType = ''Action'', uidId = ''admin:request-trust-modification''\<rparr>"
definition ActionReadEvidence :: EntityUID where
  "ActionReadEvidence = \<lparr>uidType = ''Action'', uidId = ''read:evidence''\<rparr>"
definition ActionQueryEvidence :: EntityUID where
  "ActionQueryEvidence = \<lparr>uidType = ''Action'', uidId = ''query:evidence''\<rparr>"

definition routeMappings :: "(string \<times> string \<times> EntityUID) list" where
  "routeMappings =
     [(''POST'', ''/api/ingest'', ActionPublishArtifact),
      (''GET'', ''/api/evidence'', ActionReadEvidence),
      (''POST'', ''/admin/subjects'', ActionRequestRegistration),
      (''PUT'', ''/admin/subjects/'', ActionRequestTrustModification),
      (''GET'', ''/api/subjects'', ActionQueryEvidence),
      (''GET'', ''/api/subjects/'', ActionQueryEvidence),
      (''GET'', ''/ledgers'', ActionReadEvidence),
      (''GET'', ''/ledgers/'', ActionReadEvidence)]"

definition PrincipalFromJWT :: "string \<Rightarrow> string \<Rightarrow> EntityUID" where
  "PrincipalFromJWT issuer sub = \<lparr>uidType = ''Publisher'', uidId = issuer @ ''::'' @ sub\<rparr>"

definition SubjectResource :: "string \<Rightarrow> EntityUID" where
  "SubjectResource subjectID = \<lparr>uidType = ''Subject'', uidId = subjectID\<rparr>"

fun route_scan :: "(string \<times> string \<times> EntityUID) list \<Rightarrow> string \<Rightarrow> string \<Rightarrow> EntityUID option" where
  "route_scan [] method path = None"
| "route_scan ((m, p, action) # rest) method path =
     (if m \<noteq> method then route_scan rest method path
      else if has_suffix p ''/'' then
        (if has_prefix path p then Some action else route_scan rest method path)
      else if p = path then Some action
      else route_scan rest method path)"

definition ActionForRoute :: "string \<Rightarrow> string \<Rightarrow> EntityUID option" where
  "ActionForRoute method path = route_scan routeMappings method path"

section \<open>The request context\<close>

text \<open>The values the middlewares attach to a request; \<open>None\<close> is a key that is not set.\<close>

record context_values =
  cxIssuer :: "string option"
  cxSub :: "string option"
  cxSubjectID :: "string option"
  cxPublisher :: "bool option"
  cxScopes :: "string list option"
  cxGroups :: "string list option"

definition empty_context :: context_values where
  "empty_context = \<lparr>cxIssuer = None, cxSub = None, cxSubjectID = None, cxPublisher = None, cxScopes = None, cxGroups = None\<rparr>"

text \<open>\<open>rqBody\<close> is what reading the body to its end gives.\<close>

record request =
  rqMethod :: string
  rqPath :: string
  rqHeader :: "(string \<times> string) list"
  rqBody :: "bytes res"
  rqContext :: context_values

definition SetPublisherContext :: "context_values \<Rightarrow> string \<Rightarrow> string \<Rightarrow> context_values" where
  "SetPublisherContext ctx issuer sub = ctx\<lparr>cxIssuer := Some issuer, cxSub := Some sub\<rparr>"

definition SetPublisherFlagContext :: "context_values \<Rightarrow> bool \<Rightarrow> context_values" where
  "SetPublisherFlagContext ctx isPublisher = ctx\<lparr>cxPublisher := Some isPublisher\<rparr>"

definition GetPublisherFlag :: "context_values \<Rightarrow> bool" where
  "GetPublisherFlag ctx = (case cxPublisher ctx of Some v \<Rightarrow> v | None \<Rightarrow> False)"

definition SetScopesContext :: "context_values \<Rightarrow> string list \<Rightarrow> context_values" where
  "SetScopesContext ctx scopes = ctx\<lparr>cxScopes := Some scopes\<rparr>"

definition GetScopes :: "context_values \<Rightarrow> string list" where
  "GetScopes ctx = (case cxScopes ctx of Some v \<Rightarrow> v | None \<Rightarrow> [])"

definition SetGroupsContext :: "context_values \<Rightarrow> string list \<Rightarrow> context_values" where
  "SetGroupsContext ctx groups = ctx\<lparr>cxGroups := Some groups\<rparr>"

definition GetGroups :: "context_values \<Rightarrow> string list" where
  "GetGroups ctx = (case cxGroups ctx of Some v \<Rightarrow> v | None \<Rightarrow> [])"

definition GetPublisher :: "context_values \<Rightarrow> string \<times> string" where
  "GetPublisher ctx = (case cxIssuer ctx of Some v \<Rightarrow> v | None \<Rightarrow> [], case cxSub ctx of Some v \<Rightarrow> v | None \<Rightarrow> [])"

definition SetSubjectIDContext :: "context_values \<Rightarrow> string \<Rightarrow> context_values" where
  "SetSubjectIDContext ctx subjectID = ctx\<lparr>cxSubjectID := Some subjectID\<rparr>"

definition GetSubjectID :: "context_values \<Rightarrow> string" where
  "GetSubjectID ctx = (case cxSubjectID ctx of Some v \<Rightarrow> v | None \<Rightarrow> [])"

section \<open>Cedar policies\<close>

text \<open>The only sets in the entities are sets of strings.\<close>

datatype cedar_value = VBool bool | VStr string | VSet "string list"

datatype cedar_expr =
  Lit cedar_value
| PrincipalAttr string
| ResourceAttr string
| ContextAttr string
| Equal cedar_expr cedar_expr
| And cedar_expr cedar_expr
| Or cedar_expr cedar_expr
| Contains cedar_expr cedar_expr

datatype effect = Permit | Forbid

text \<open>A policy on one action, with its \<^verbatim>\<open>when\<close> (\<open>True\<close>) and \<^verbatim>\<open>unless\<close> (\<open>False\<close>) clauses.\<close>

record cedar_policy =
  cpEffect :: effect
  cpAction :: EntityUID
  cpConditions :: "(bool \<times> cedar_expr) list"

type_synonym policy_set = "(string \<times> cedar_policy) list"

type_synonym attributes = "(string \<times> cedar_value) list"

record cedar_request =
  crPrincipal :: EntityUID
  crAction :: EntityUID
  crResource :: EntityUID
  crContext :: attributes

record cedar =
  cedar_parse :: "string \<Rightarrow> bytes \<Rightarrow> policy_set res"
  cedar_authorize :: "policy_set \<Rightarrow> (EntityUID \<times> attributes) list \<Rightarrow> cedar_request \<Rightarrow> bool"

definition scope_or_group :: "string list \<Rightarrow> string list \<Rightarrow> cedar_expr" where
  "scope_or_group scopes groups =
     (case map (\<lambda>s. Contains (PrincipalAttr ''scopes'') (Lit (VStr s))) scopes
         @ map (\<lambda>g. Contains (PrincipalAttr ''groups'') (ContextAttr g)) groups of
        [] \<Rightarrow> Lit (VBool False) | e # es \<Rightarrow> foldl Or e es)"

text \<open>The six policies of \<^verbatim>\<open>base.cedar\<close>, under the identifiers the parser gives the policies of a file.\<close>

definition publish_permit :: cedar_policy where
  "publish_permit = \<lparr>cpEffect = Permit, cpAction = ActionPublishArtifact, cpConditions =
     [(True, And (Equal (PrincipalAttr ''publisher'') (Lit (VBool True)))
                 (Equal (ResourceAttr ''publisher_trusted'') (Lit (VBool True))))]\<rparr>"

definition publish_floor :: cedar_policy where
  "publish_floor = \<lparr>cpEffect = Forbid, cpAction = ActionPublishArtifact, cpConditions =
     [(False, Equal (ResourceAttr ''publisher_trusted'') (Lit (VBool True)))]\<rparr>"

definition registration_permit :: cedar_policy where
  "registration_permit = \<lparr>cpEffect = Permit, cpAction = ActionRequestRegistration, cpConditions =
     [(True, scope_or_group [''complytime:admin''] [''admin_group''])]\<rparr>"

definition modification_permit :: cedar_policy where
  "modification_permit = \<lparr>cpEffect = Permit, cpAction = ActionRequestTrustModification, cpConditions =
     [(True, scope_or_group [''complytime:admin''] [''admin_group''])]\<rparr>"

definition query_permit :: cedar_policy where
  "query_permit = \<lparr>cpEffect = Permit, cpAction = ActionQueryEvidence, cpConditions =
     [(True, scope_or_group [''complytime:audit'', ''complytime:admin''] [''auditor_group'', ''admin_group''])]\<rparr>"

definition read_permit :: cedar_policy where
  "read_permit = \<lparr>cpEffect = Permit, cpAction = ActionReadEvidence, cpConditions =
     [(True, scope_or_group [''complytime:audit'', ''complytime:admin''] [''auditor_group'', ''admin_group''])]\<rparr>"

definition base_policies :: policy_set where
  "base_policies =
     [(''policy0'', publish_permit), (''policy1'', publish_floor), (''policy2'', registration_permit),
      (''policy3'', modification_permit), (''policy4'', query_permit), (''policy5'', read_permit)]"

text \<open>Adding a policy replaces the one with its identifier.\<close>

definition ps_add :: "policy_set \<Rightarrow> string \<Rightarrow> cedar_policy \<Rightarrow> policy_set" where
  "ps_add ps i p = (i, p) # filter (\<lambda>(j, _). j \<noteq> i) ps"

fun add_all :: "policy_set \<Rightarrow> policy_set \<Rightarrow> policy_set" where
  "add_all ps [] = ps"
| "add_all ps ((i, p) # rest) = add_all (ps_add ps i p) rest"

fun merge_files :: "cedar \<Rightarrow> fs \<Rightarrow> string \<Rightarrow> (string \<times> fnode) list \<Rightarrow> policy_set \<Rightarrow> policy_set res" where
  "merge_files C f policyDir [] ps = Inr ps"
| "merge_files C f policyDir ((name, node) # entries) ps =
     (if node = Dir \<or> \<not> has_suffix name ''.cedar'' then merge_files C f policyDir entries ps
      else
        let path = path_join [policyDir, name] in
        case read_file f path of
          Inl err \<Rightarrow> Inl (ErrorfW (''reading '' @ path @ '': '') err [])
        | Inr fileData \<Rightarrow>
          (case cedar_parse C name fileData of
             Inl err \<Rightarrow> Inl (ErrorfW (''parsing '' @ path @ '': '') err [])
           | Inr extra \<Rightarrow> merge_files C f policyDir entries (add_all ps extra)))"

text \<open>\<open>base\<close> is what reading the embedded file gives.\<close>

definition LoadEmbeddedPolicies :: "cedar \<Rightarrow> bytes res \<Rightarrow> fs \<Rightarrow> string \<Rightarrow> policy_set res" where
  "LoadEmbeddedPolicies C base f policyDir =
     (case base of
        Inl err \<Rightarrow> Inl (ErrorfW ''reading embedded base.cedar: '' err [])
      | Inr data \<Rightarrow>
     (case cedar_parse C ''base.cedar'' data of
        Inl err \<Rightarrow> Inl (ErrorfW ''parsing base.cedar: '' err [])
      | Inr ps \<Rightarrow>
        if policyDir = [] then Inr ps
        else
     (case read_dir f policyDir of
        Inl err \<Rightarrow> Inl (ErrorfW (''reading CEDAR_POLICY_DIR '' @ policyDir @ '': '') err [])
      | Inr entries \<Rightarrow> merge_files C f policyDir entries ps)))"

section \<open>The middleware\<close>

definition defaultAdminGroup :: string where "defaultAdminGroup = ''complytime-admin''"
definition defaultAuditorGroup :: string where "defaultAuditorGroup = ''complytime-auditor''"

record MiddlewareConfig =
  mcAdminGroup :: string
  mcAuditorGroup :: string

definition adminGroup :: "MiddlewareConfig \<Rightarrow> string" where
  "adminGroup c = (if mcAdminGroup c \<noteq> [] then mcAdminGroup c else defaultAdminGroup)"

definition auditorGroup :: "MiddlewareConfig \<Rightarrow> string" where
  "auditorGroup c = (if mcAuditorGroup c \<noteq> [] then mcAuditorGroup c else defaultAuditorGroup)"

type_synonym trust_lookup = "string \<Rightarrow> string \<Rightarrow> string \<Rightarrow> bool res"

definition without_subject :: "EntityUID \<Rightarrow> bool" where
  "without_subject action \<longleftrightarrow> action = ActionRequestRegistration \<or> action = ActionRequestTrustModification
     \<or> action = ActionReadEvidence \<or> action = ActionQueryEvidence"

definition cedar_entities :: "context_values \<Rightarrow> string \<Rightarrow> string \<Rightarrow> string \<Rightarrow> bool \<Rightarrow> (EntityUID \<times> attributes) list" where
  "cedar_entities ctx issuer sub subjectID trusted =
     [(PrincipalFromJWT issuer sub,
        [(''publisher'', VBool (GetPublisherFlag ctx)), (''scopes'', VSet (GetScopes ctx)),
         (''groups'', VSet (GetGroups ctx)), (''issuer'', VStr issuer), (''sub'', VStr sub)]),
      (SubjectResource subjectID, [(''publisher_trusted'', VBool trusted)])]"

text \<open>\<open>None\<close> lets the request pass to the next handler; \<open>Some\<close> is the answer that ends it.\<close>

definition Middleware :: "cedar \<Rightarrow> policy_set \<Rightarrow> trust_lookup option \<Rightarrow> MiddlewareConfig \<Rightarrow> request \<Rightarrow> response option" where
  "Middleware C ps trustLookup cfg r =
     (let ctx = rqContext r; (issuer, sub) = GetPublisher ctx in
      if issuer = [] \<or> sub = [] then Some (http_error ''Unauthorized'' 401)
      else case ActionForRoute (rqMethod r) (rqPath r) of
        None \<Rightarrow> Some (http_error ''Forbidden: unmapped route'' 403)
      | Some action \<Rightarrow>
        if GetSubjectID ctx = [] \<and> \<not> without_subject action
        then Some (http_error ''Forbidden: missing subject ID'' 403)
        else
          let subjectID = (if GetSubjectID ctx = [] then ''*'' else GetSubjectID ctx) in
          case (if without_subject action then Inr False
                else case trustLookup of None \<Rightarrow> Inr False | Some lookup \<Rightarrow> lookup subjectID issuer sub) of
            Inl err \<Rightarrow> Some (http_error ''Forbidden: trust lookup failed'' 403)
          | Inr trusted \<Rightarrow>
            if cedar_authorize C ps (cedar_entities ctx issuer sub subjectID trusted)
                 \<lparr>crPrincipal = PrincipalFromJWT issuer sub, crAction = action, crResource = SubjectResource subjectID,
                  crContext = [(''admin_group'', VStr (adminGroup cfg)), (''auditor_group'', VStr (auditorGroup cfg))]\<rparr>
            then None
            else Some (http_error ''Forbidden'' 403))"


section \<open>The decision rule of the engine\<close>

fun value_eq :: "cedar_value \<Rightarrow> cedar_value \<Rightarrow> bool" where
  "value_eq (VSet xs) (VSet ys) = (set xs = set ys)"
| "value_eq v w = (v = w)"

definition attr_of :: "(EntityUID \<times> attributes) list \<Rightarrow> EntityUID \<Rightarrow> string \<Rightarrow> cedar_value option" where
  "attr_of ents u a = (case map_of ents u of None \<Rightarrow> None | Some attrs \<Rightarrow> map_of attrs a)"

text \<open>\<open>None\<close> is an evaluation error.\<close>

fun cedar_eval :: "(EntityUID \<times> attributes) list \<Rightarrow> cedar_request \<Rightarrow> cedar_expr \<Rightarrow> cedar_value option" where
  "cedar_eval ents q (Lit v) = Some v"
| "cedar_eval ents q (PrincipalAttr a) = attr_of ents (crPrincipal q) a"
| "cedar_eval ents q (ResourceAttr a) = attr_of ents (crResource q) a"
| "cedar_eval ents q (ContextAttr a) = map_of (crContext q) a"
| "cedar_eval ents q (Equal e f) =
     (case (cedar_eval ents q e, cedar_eval ents q f) of
        (Some v, Some w) \<Rightarrow> Some (VBool (value_eq v w)) | _ \<Rightarrow> None)"
| "cedar_eval ents q (And e f) =
     (case cedar_eval ents q e of
        Some (VBool True) \<Rightarrow> (case cedar_eval ents q f of Some (VBool b) \<Rightarrow> Some (VBool b) | _ \<Rightarrow> None)
      | Some (VBool False) \<Rightarrow> Some (VBool False) | _ \<Rightarrow> None)"
| "cedar_eval ents q (Or e f) =
     (case cedar_eval ents q e of
        Some (VBool False) \<Rightarrow> (case cedar_eval ents q f of Some (VBool b) \<Rightarrow> Some (VBool b) | _ \<Rightarrow> None)
      | Some (VBool True) \<Rightarrow> Some (VBool True) | _ \<Rightarrow> None)"
| "cedar_eval ents q (Contains e f) =
     (case (cedar_eval ents q e, cedar_eval ents q f) of
        (Some (VSet xs), Some w) \<Rightarrow> Some (VBool (w \<in> VStr ` set xs)) | _ \<Rightarrow> None)"

definition satisfied :: "(EntityUID \<times> attributes) list \<Rightarrow> cedar_request \<Rightarrow> cedar_policy \<Rightarrow> bool" where
  "satisfied ents q p \<longleftrightarrow> cpAction p = crAction q \<and>
     list_all (\<lambda>(w, e). cedar_eval ents q e = Some (VBool w)) (cpConditions p)"

definition cedar_decision :: "policy_set \<Rightarrow> (EntityUID \<times> attributes) list \<Rightarrow> cedar_request \<Rightarrow> bool" where
  "cedar_decision ps ents q \<longleftrightarrow>
     list_ex (\<lambda>(i, p). cpEffect p = Permit \<and> satisfied ents q p) ps \<and>
     \<not> list_ex (\<lambda>(i, p). cpEffect p = Forbid \<and> satisfied ents q p) ps"

text \<open>An engine that decides as Cedar documents: allowed when some permit and no forbid is satisfied; a
  parsed policy set has one policy under an identifier.\<close>

locale cedar_engine =
  fixes C :: cedar
  assumes authorize: "cedar_authorize C ps ents q = cedar_decision ps ents q"
    and parse_ids: "cedar_parse C name data = Inr ps \<Longrightarrow> distinct (map fst ps)"

text \<open>What the base policies and the middleware are meant to grant.\<close>

definition holds_role :: "MiddlewareConfig \<Rightarrow> context_values \<Rightarrow> bool \<Rightarrow> bool" where
  "holds_role cfg ctx audit \<longleftrightarrow>
     ''complytime:admin'' \<in> set (GetScopes ctx) \<or> adminGroup cfg \<in> set (GetGroups ctx) \<or>
     audit \<and> (''complytime:audit'' \<in> set (GetScopes ctx) \<or> auditorGroup cfg \<in> set (GetGroups ctx))"

definition access_granted :: "trust_lookup option \<Rightarrow> MiddlewareConfig \<Rightarrow> request \<Rightarrow> bool" where
  "access_granted trustLookup cfg r \<longleftrightarrow>
     (let ctx = rqContext r; (issuer, sub) = GetPublisher ctx; a = ActionForRoute (rqMethod r) (rqPath r) in
      issuer \<noteq> [] \<and> sub \<noteq> [] \<and>
      (a = Some ActionPublishArtifact \<and> GetSubjectID ctx \<noteq> [] \<and> GetPublisherFlag ctx \<and>
         (case trustLookup of None \<Rightarrow> False | Some lookup \<Rightarrow> lookup (GetSubjectID ctx) issuer sub = Inr True) \<or>
       (a = Some ActionRequestRegistration \<or> a = Some ActionRequestTrustModification) \<and> holds_role cfg ctx False \<or>
       (a = Some ActionReadEvidence \<or> a = Some ActionQueryEvidence) \<and> holds_role cfg ctx True))"

lemmas action_defs = ActionPublishArtifact_def ActionRequestRegistration_def ActionRequestTrustModification_def
  ActionReadEvidence_def ActionQueryEvidence_def
lemmas policy_defs = publish_permit_def publish_floor_def registration_permit_def modification_permit_def
  query_permit_def read_permit_def base_policies_def

lemma action_distinct [simp]:
  "ActionPublishArtifact \<noteq> ActionRequestRegistration" "ActionPublishArtifact \<noteq> ActionRequestTrustModification"
  "ActionPublishArtifact \<noteq> ActionReadEvidence" "ActionPublishArtifact \<noteq> ActionQueryEvidence"
  "ActionRequestRegistration \<noteq> ActionRequestTrustModification" "ActionRequestRegistration \<noteq> ActionReadEvidence"
  "ActionRequestRegistration \<noteq> ActionQueryEvidence" "ActionRequestTrustModification \<noteq> ActionReadEvidence"
  "ActionRequestTrustModification \<noteq> ActionQueryEvidence" "ActionReadEvidence \<noteq> ActionQueryEvidence"
  by (simp_all add: action_defs)

lemmas action_distinct' [simp] = action_distinct [symmetric]

lemma action_cases:
  assumes "ActionForRoute m p = Some a"
  obtains "a = ActionPublishArtifact" | "a = ActionRequestRegistration" | "a = ActionRequestTrustModification"
    | "a = ActionReadEvidence" | "a = ActionQueryEvidence"
  using assms by (auto simp: ActionForRoute_def routeMappings_def has_suffix_def split: if_splits)

lemma publish_route: "ActionForRoute m p = Some ActionPublishArtifact \<longleftrightarrow> m = ''POST'' \<and> p = ''/api/ingest''"
  by (auto simp: ActionForRoute_def routeMappings_def has_suffix_def split: if_splits)

lemma resource_not_principal [simp]: "SubjectResource s \<noteq> PrincipalFromJWT i u" "PrincipalFromJWT i u \<noteq> SubjectResource s"
  by (simp_all add: SubjectResource_def PrincipalFromJWT_def)

lemma eval_role:
  assumes "cedar_eval ents q (PrincipalAttr ''scopes'') = Some (VSet sc)"
    and "cedar_eval ents q (PrincipalAttr ''groups'') = Some (VSet gr)"
    and "cedar_eval ents q (ContextAttr ''admin_group'') = Some (VStr ag)"
    and "cedar_eval ents q (ContextAttr ''auditor_group'') = Some (VStr au)"
  shows "cedar_eval ents q (scope_or_group [''complytime:admin''] [''admin_group''])
      = Some (VBool (''complytime:admin'' \<in> set sc \<or> ag \<in> set gr))"
    and "cedar_eval ents q (scope_or_group [''complytime:audit'', ''complytime:admin''] [''auditor_group'', ''admin_group''])
      = Some (VBool (''complytime:audit'' \<in> set sc \<or> ''complytime:admin'' \<in> set sc \<or> au \<in> set gr \<or> ag \<in> set gr))"
  using assms by (auto simp: scope_or_group_def simp del: cedar_eval.simps(2,3,4) split: bool.splits)

lemma base_decision_cases:
  assumes "cedar_eval ents q (PrincipalAttr ''scopes'') = Some (VSet sc)"
    and "cedar_eval ents q (PrincipalAttr ''groups'') = Some (VSet gr)"
    and "cedar_eval ents q (PrincipalAttr ''publisher'') = Some (VBool pub)"
    and "cedar_eval ents q (ResourceAttr ''publisher_trusted'') = Some (VBool trusted)"
    and "cedar_eval ents q (ContextAttr ''admin_group'') = Some (VStr ag)"
    and "cedar_eval ents q (ContextAttr ''auditor_group'') = Some (VStr au)"
  shows "cedar_decision base_policies ents q \<longleftrightarrow>
     crAction q = ActionPublishArtifact \<and> pub \<and> trusted
   \<or> (crAction q = ActionRequestRegistration \<or> crAction q = ActionRequestTrustModification) \<and>
       (''complytime:admin'' \<in> set sc \<or> ag \<in> set gr)
   \<or> (crAction q = ActionReadEvidence \<or> crAction q = ActionQueryEvidence) \<and>
       (''complytime:audit'' \<in> set sc \<or> ''complytime:admin'' \<in> set sc \<or> au \<in> set gr \<or> ag \<in> set gr)"
proof -
  note [simp] = assms eval_role [OF assms(1,2,5,6)]
  note [simp del] = cedar_eval.simps(2,3,4)
  have "satisfied ents q publish_permit \<longleftrightarrow> crAction q = ActionPublishArtifact \<and> pub \<and> trusted"
    by (auto simp: satisfied_def publish_permit_def split: bool.splits)
  moreover have "satisfied ents q publish_floor \<longleftrightarrow> crAction q = ActionPublishArtifact \<and> \<not> trusted"
    by (auto simp: satisfied_def publish_floor_def)
  moreover have "satisfied ents q registration_permit \<longleftrightarrow>
      crAction q = ActionRequestRegistration \<and> (''complytime:admin'' \<in> set sc \<or> ag \<in> set gr)"
    by (auto simp: satisfied_def registration_permit_def)
  moreover have "satisfied ents q modification_permit \<longleftrightarrow>
      crAction q = ActionRequestTrustModification \<and> (''complytime:admin'' \<in> set sc \<or> ag \<in> set gr)"
    by (auto simp: satisfied_def modification_permit_def)
  moreover have "satisfied ents q query_permit \<longleftrightarrow> crAction q = ActionQueryEvidence \<and>
      (''complytime:audit'' \<in> set sc \<or> ''complytime:admin'' \<in> set sc \<or> au \<in> set gr \<or> ag \<in> set gr)"
    by (auto simp: satisfied_def query_permit_def)
  moreover have "satisfied ents q read_permit \<longleftrightarrow> crAction q = ActionReadEvidence \<and>
      (''complytime:audit'' \<in> set sc \<or> ''complytime:admin'' \<in> set sc \<or> au \<in> set gr \<or> ag \<in> set gr)"
    by (auto simp: satisfied_def read_permit_def)
  moreover have "cpEffect publish_permit = Permit" "cpEffect publish_floor = Forbid" "cpEffect registration_permit = Permit"
    "cpEffect modification_permit = Permit" "cpEffect query_permit = Permit" "cpEffect read_permit = Permit"
    by (simp_all add: policy_defs)
  ultimately show ?thesis
    unfolding cedar_decision_def base_policies_def
    by (cases "crAction q = ActionPublishArtifact") (simp_all, blast)
qed

abbreviation request_for :: "MiddlewareConfig \<Rightarrow> string \<Rightarrow> string \<Rightarrow> EntityUID \<Rightarrow> string \<Rightarrow> cedar_request" where
  "request_for cfg issuer sub a sid \<equiv>
     \<lparr>crPrincipal = PrincipalFromJWT issuer sub, crAction = a, crResource = SubjectResource sid,
      crContext = [(''admin_group'', VStr (adminGroup cfg)), (''auditor_group'', VStr (auditorGroup cfg))]\<rparr>"

lemma base_decision:
  "cedar_decision base_policies (cedar_entities ctx issuer sub sid trusted) (request_for cfg issuer sub a sid)
   \<longleftrightarrow> a = ActionPublishArtifact \<and> GetPublisherFlag ctx \<and> trusted
     \<or> (a = ActionRequestRegistration \<or> a = ActionRequestTrustModification) \<and> holds_role cfg ctx False
     \<or> (a = ActionReadEvidence \<or> a = ActionQueryEvidence) \<and> holds_role cfg ctx True"
  using base_decision_cases [of "cedar_entities ctx issuer sub sid trusted" "request_for cfg issuer sub a sid"
      "GetScopes ctx" "GetGroups ctx" "GetPublisherFlag ctx" trusted "adminGroup cfg" "auditorGroup cfg"]
  by (simp add: cedar_entities_def attr_of_def holds_role_def) blast

text \<open>A forbid that stays in the set decides, whatever else the set holds.\<close>

lemma floor_decides:
  assumes "(i, publish_floor) \<in> set ps" "cedar_decision ps (cedar_entities ctx issuer sub sid trusted)
     (request_for cfg issuer sub ActionPublishArtifact sid)"
  shows trusted
proof (rule ccontr)
  assume "\<not> trusted"
  then have "satisfied (cedar_entities ctx issuer sub sid trusted) (request_for cfg issuer sub ActionPublishArtifact sid) publish_floor"
    by (simp add: satisfied_def publish_floor_def cedar_entities_def attr_of_def)
  then show False
    using assms by (force simp: cedar_decision_def list_ex_iff publish_floor_def)
qed

lemma map_of_ps_add: "map_of (ps_add ps i p) j = (if j = i then Some p else map_of ps j)"
  by (induction ps) (auto simp: ps_add_def)

lemma map_of_add_all:
  "distinct (map fst extra) \<Longrightarrow> map_of (add_all ps extra) j = (case map_of extra j of Some p \<Rightarrow> Some p | None \<Rightarrow> map_of ps j)"
  by (induction ps extra rule: add_all.induct) (force simp: map_of_ps_add split: option.splits dest: map_of_SomeD)+

text \<open>The policy that ends up under an identifier comes from the last file that has one under it.\<close>

definition file_policy :: "cedar \<Rightarrow> fs \<Rightarrow> string \<Rightarrow> (string \<times> fnode) list \<Rightarrow> string \<Rightarrow> cedar_policy \<Rightarrow> bool" where
  "file_policy C f dir entries j p \<longleftrightarrow> (\<exists>name node d extra. (name, node) \<in> set entries \<and> node \<noteq> Dir \<and> has_suffix name ''.cedar'' \<and>
     read_file f (path_join [dir, name]) = Inr d \<and> cedar_parse C name d = Inr extra \<and> map_of extra j = Some p)"

lemma file_policy_Nil [simp]: "\<not> file_policy C f dir [] j p"
  by (simp add: file_policy_def)

lemma file_policy_Cons:
  "file_policy C f dir ((name, node) # es) j p \<longleftrightarrow> file_policy C f dir es j p \<or> (node \<noteq> Dir \<and> has_suffix name ''.cedar'' \<and>
     (\<exists>d extra. read_file f (path_join [dir, name]) = Inr d \<and> cedar_parse C name d = Inr extra \<and> map_of extra j = Some p))"
  unfolding file_policy_def by (simp only: list.set insert_iff prod.inject) blast

context cedar_engine
begin

lemma merge_files_source:
  "merge_files C f dir entries ps = Inr ps' \<Longrightarrow>
     if \<exists>p. file_policy C f dir entries j p then \<exists>p. map_of ps' j = Some p \<and> file_policy C f dir entries j p
     else map_of ps' j = map_of ps j"
proof (induction entries arbitrary: ps)
  case (Cons e es)
  obtain name node where e: "e = (name, node)" by fastforce
  show ?case
  proof (cases "node = Dir \<or> \<not> has_suffix name ''.cedar''")
    case True
    with Cons.prems e have "merge_files C f dir es ps = Inr ps'" by simp
    from Cons.IH [OF this] True show ?thesis by (auto simp: e file_policy_Cons split: if_splits)
  next
    case False
    with Cons.prems e obtain d extra where d: "read_file f (path_join [dir, name]) = Inr d"
      and x: "cedar_parse C name d = Inr extra" and m: "merge_files C f dir es (add_all ps extra) = Inr ps'"
      by (auto split: sum.splits simp: Let_def)
    note mo = map_of_add_all [OF parse_ids [OF x], of ps j]
    from Cons.IH [OF m] False d x mo show ?thesis
      by (cases "map_of extra j") (auto simp: e file_policy_Cons split: if_splits)
  qed
qed simp

lemma base_middleware:
  "Middleware C base_policies trustLookup cfg r = None \<longleftrightarrow> access_granted trustLookup cfg r"
proof (cases "ActionForRoute (rqMethod r) (rqPath r)")
  case None
  then show ?thesis by (simp add: Middleware_def access_granted_def Let_def split: prod.splits)
next
  case (Some a)
  obtain iss sub where i: "GetPublisher (rqContext r) = (iss, sub)" by fastforce
  note defs = Middleware_def access_granted_def Let_def authorize base_decision without_subject_def
  from Some show ?thesis
    by (cases rule: action_cases) (auto simp: defs Some i split: sum.splits option.splits)
qed

lemma floor_middleware:
  assumes "(i, publish_floor) \<in> set ps" "ActionForRoute (rqMethod r) (rqPath r) = Some ActionPublishArtifact"
    "Middleware C ps trustLookup cfg r = None" "GetPublisher (rqContext r) = (issuer, sub)"
  shows "\<exists>lookup. trustLookup = Some lookup \<and> lookup (GetSubjectID (rqContext r)) issuer sub = Inr True"
  using assms(2-) floor_decides [OF assms(1)]
  by (cases trustLookup) (fastforce simp: Middleware_def Let_def authorize without_subject_def split: if_splits sum.splits)+

end

text \<open>An engine that decides by the rule itself.\<close>

definition plain_cedar :: "(string \<Rightarrow> bytes \<Rightarrow> policy_set res) \<Rightarrow> cedar" where
  "plain_cedar parse = \<lparr>cedar_parse = (\<lambda>n d. case parse n d of Inl e \<Rightarrow> Inl e | Inr ps \<Rightarrow> if distinct (map fst ps) then Inr ps else Inl (Foreign ''duplicate policy'')), cedar_authorize = cedar_decision\<rparr>"

interpretation plain_engine: cedar_engine "plain_cedar parse"
  by unfold_locales (auto simp: plain_cedar_def split: sum.splits if_splits)

section \<open>Properties\<close>

definition base_only :: "string \<Rightarrow> bytes \<Rightarrow> policy_set res" where
  "base_only name data = (if name = ''base.cedar'' then Inr base_policies else
     Inr [(''policy0'', publish_permit\<lparr>cpConditions := []\<rparr>), (''policy1'', read_permit)])"

definition ex_policy_fs :: fs where
  "ex_policy_fs = \<lparr>fsNodes = [(''/policies'', Dir), (''/policies/extra.cedar'', File ''...'')], fsFault = (\<lambda>_ _. None)\<rparr>"

definition ex_ingest :: "string \<Rightarrow> request" where
  "ex_ingest sub = \<lparr>rqMethod = ''POST'', rqPath = ''/api/ingest'', rqHeader = [], rqBody = Inr [],
     rqContext = \<lparr>cxIssuer = Some ''https://ci'', cxSub = Some sub, cxSubjectID = Some ''app'', cxPublisher = Some True,
       cxScopes = None, cxGroups = None\<rparr>\<rparr>"

definition ex_lookup :: trust_lookup where
  "ex_lookup sid issuer sub = (if sid = ''app'' then Inr (sub = ''bot'') else Inl ErrNotExist)"

definition ex_config :: MiddlewareConfig where
  "ex_config = \<lparr>mcAdminGroup = [], mcAuditorGroup = []\<rparr>"

text \<open>C12: with the embedded base policies and no policy directory, the middleware admits a request exactly when it
  has an authenticated identity and its route's action is granted to it: publishing to a publisher-class identity
  that the trust store lists for the named subject, administration to the admin scope or group, reading and
  querying to the audit or admin scope or group.\<close>

theorem middleware_grants:
  assumes "cedar_engine C" "cedar_parse C ''base.cedar'' data = Inr base_policies"
    and "LoadEmbeddedPolicies C (Inr data) f [] = Inr ps"
  shows "(Middleware C ps trustLookup cfg r = None) = access_granted trustLookup cfg r"
  using assms(2,3) cedar_engine.base_middleware [OF assms(1)] by (simp add: LoadEmbeddedPolicies_def)

lemma ex_base_parse: "cedar_parse (plain_cedar base_only) ''base.cedar'' data = Inr base_policies"
  by (simp add: plain_cedar_def base_only_def base_policies_def)

lemma ex_extra_load:
  "LoadEmbeddedPolicies (plain_cedar base_only) (Inr data) ex_policy_fs ''/policies''
     = Inr (add_all base_policies [(''policy0'', publish_permit\<lparr>cpConditions := []\<rparr>), (''policy1'', read_permit)])"
  unfolding LoadEmbeddedPolicies_def sum.case ex_base_parse by code_simp

theorem middleware_grants_witness:
  "Middleware (plain_cedar base_only) base_policies (Some ex_lookup) ex_config (ex_ingest ''bot'') = None \<and>
   Middleware (plain_cedar base_only) base_policies (Some ex_lookup) ex_config (ex_ingest ''intruder'') \<noteq> None"
proof -
  have l: "LoadEmbeddedPolicies (plain_cedar base_only) (Inr []) ex_policy_fs [] = Inr base_policies"
    by (simp add: LoadEmbeddedPolicies_def ex_base_parse)
  note g = middleware_grants [OF plain_engine.cedar_engine_axioms ex_base_parse l, of "Some ex_lookup" ex_config]
  have "access_granted (Some ex_lookup) ex_config (ex_ingest ''bot'')"
    "\<not> access_granted (Some ex_lookup) ex_config (ex_ingest ''intruder'')" by code_simp+
  then show ?thesis
    using g [of "ex_ingest ''bot''"] g [of "ex_ingest ''intruder''"] by simp
qed

text \<open>C27: whatever the policies and the engine, the middleware fails closed.  An anonymous request is answered 401;
  every other refusal is a 403; a request that passes has an identity and a mapped route, and when it publishes it
  names a subject and the trust lookup did not fail.\<close>

theorem middleware_fails_closed:
  "case Middleware C ps trustLookup cfg r of
     Some resp \<Rightarrow> rsStatus resp = (if fst (GetPublisher (rqContext r)) = [] \<or> snd (GetPublisher (rqContext r)) = [] then 401 else 403)
   | None \<Rightarrow> fst (GetPublisher (rqContext r)) \<noteq> [] \<and> snd (GetPublisher (rqContext r)) \<noteq> [] \<and>
       (\<exists>a. ActionForRoute (rqMethod r) (rqPath r) = Some a \<and>
         (a = ActionPublishArtifact \<longrightarrow> GetSubjectID (rqContext r) \<noteq> [] \<and>
           (\<forall>lookup. trustLookup = Some lookup \<longrightarrow>
              \<not> isl (lookup (GetSubjectID (rqContext r)) (fst (GetPublisher (rqContext r))) (snd (GetPublisher (rqContext r)))))))"
  by (auto simp: Middleware_def Let_def http_error_def without_subject_def split: option.splits sum.splits if_splits prod.splits)

theorem middleware_fails_closed_witness:
  "(\<exists>resp. Middleware (plain_cedar base_only) base_policies (Some ex_lookup) ex_config (ex_ingest ''bot''\<lparr>rqPath := ''/debug''\<rparr>)
      = Some resp \<and> rsStatus resp = 403) \<and> GetSubjectID (rqContext (ex_ingest ''bot'')) \<noteq> []"
proof -
  note f = middleware_fails_closed [where C = "plain_cedar base_only" and ps = base_policies and trustLookup = "Some ex_lookup" and cfg = ex_config]
  have "ActionForRoute (rqMethod (ex_ingest ''bot'')) ''/debug'' = None" by code_simp
  moreover have "fst (GetPublisher (rqContext (ex_ingest ''bot''))) \<noteq> []" "snd (GetPublisher (rqContext (ex_ingest ''bot''))) \<noteq> []"
    by code_simp+
  moreover have "Middleware (plain_cedar base_only) base_policies (Some ex_lookup) ex_config (ex_ingest ''bot'') = None"
    by code_simp
  moreover have "ActionForRoute (rqMethod (ex_ingest ''bot'')) (rqPath (ex_ingest ''bot'')) = Some ActionPublishArtifact"
    by code_simp
  ultimately show ?thesis
    using f [where r = "ex_ingest ''bot''\<lparr>rqPath := ''/debug''\<rparr>"] f [where r = "ex_ingest ''bot''"] by (auto split: option.splits)
qed

text \<open>C28: a policy set that still holds the safety floor admits nobody to publish without a trust entry, whatever
  other policies are in it: a request admitted to the ingest route is one whose identity the trust lookup
  confirmed for the subject it names.\<close>

theorem publish_needs_trust:
  assumes "cedar_engine C" "(i, publish_floor) \<in> set ps"
    and "rqMethod r = ''POST''" "rqPath r = ''/api/ingest''" "Middleware C ps trustLookup cfg r = None"
  shows "\<exists>lookup. trustLookup = Some lookup \<and>
     lookup (GetSubjectID (rqContext r)) (fst (GetPublisher (rqContext r))) (snd (GetPublisher (rqContext r))) = Inr True"
proof -
  have "ActionForRoute (rqMethod r) (rqPath r) = Some ActionPublishArtifact"
    by (simp add: assms publish_route)
  then show ?thesis
    using cedar_engine.floor_middleware [OF assms(1,2)] assms(5) by (metis prod.collapse)
qed

theorem publish_needs_trust_witness:
  "\<exists>lookup. Some ex_lookup = Some lookup \<and> lookup ''app'' ''https://ci'' ''bot'' = Inr True"
proof -
  have "(''policy1'', publish_floor) \<in> set base_policies" by (simp add: base_policies_def)
  moreover have "Middleware (plain_cedar base_only) base_policies (Some ex_lookup) ex_config (ex_ingest ''bot'') = None"
    by code_simp
  ultimately show ?thesis
    using publish_needs_trust [OF plain_engine.cedar_engine_axioms, where r = "ex_ingest ''bot''"]
    by (fastforce simp: ex_ingest_def GetSubjectID_def GetPublisher_def)
qed

text \<open>C29: the files of the policy directory replace base policies.  After a load, the policy under an identifier
  that some file of the directory defines is one of those files' policies; the base policy is kept only under the
  identifiers no file defines.  Files number their policies from \<^verbatim>\<open>policy0\<close>, so a directory with two policies in one
  file takes the safety floor (\<^verbatim>\<open>policy1\<close>) out of force.\<close>

theorem extra_policies_replace:
  assumes "cedar_engine C" "cedar_parse C ''base.cedar'' data = Inr base"
    and "policyDir \<noteq> []" "read_dir f policyDir = Inr entries" "LoadEmbeddedPolicies C (Inr data) f policyDir = Inr ps"
  shows "if \<exists>p. file_policy C f policyDir entries j p
         then \<exists>p. map_of ps j = Some p \<and> file_policy C f policyDir entries j p
         else map_of ps j = map_of base j"
  using assms(2-) by (intro cedar_engine.merge_files_source [OF assms(1)]) (simp add: LoadEmbeddedPolicies_def)

theorem extra_policies_replace_witness:
  "\<exists>ps. LoadEmbeddedPolicies (plain_cedar base_only) (Inr []) ex_policy_fs ''/policies'' = Inr ps \<and>
     map_of ps ''policy1'' \<noteq> Some publish_floor \<and>
     Middleware (plain_cedar base_only) ps (Some ex_lookup) ex_config (ex_ingest ''intruder'') = None"
proof -
  let ?ps = "add_all base_policies [(''policy0'', publish_permit\<lparr>cpConditions := []\<rparr>), (''policy1'', read_permit)]"
  let ?es = "[(''extra.cedar'', File ''...'')]"
  have r: "read_dir ex_policy_fs ''/policies'' = Inr ?es" by code_simp
  have "file_policy (plain_cedar base_only) ex_policy_fs ''/policies'' ?es ''policy1'' p \<longleftrightarrow> p = read_permit" for p
  proof -
    have "path_join [''/policies'', ''extra.cedar''] = ''/policies/extra.cedar''"
      "read_file ex_policy_fs ''/policies/extra.cedar'' = Inr ''...''" "has_suffix ''extra.cedar'' ''.cedar''" by code_simp+
    then show ?thesis by (auto simp: file_policy_Cons plain_cedar_def base_only_def)
  qed
  moreover have "read_permit \<noteq> publish_floor" by (simp add: policy_defs)
  moreover have "Middleware (plain_cedar base_only) ?ps (Some ex_lookup) ex_config (ex_ingest ''intruder'') = None"
    by code_simp
  ultimately show ?thesis
    using extra_policies_replace [OF plain_engine.cedar_engine_axioms ex_base_parse _ r ex_extra_load, of "''policy1''"] ex_extra_load
    by auto
qed

end
