(* ===== verification/Authn.thy ===== *)
theory Authn
  imports Publishers Authz
begin

text \<open>
  Authentication (\<^verbatim>\<open>internal/authn\<close>): the principal and the middleware that puts it in the request context, claims and
  groups, the operator's OIDC issuer, the registry that dispatches a token to its issuer, and the token sources of
  outgoing requests.
\<close>

section \<open>Principals\<close>

record Principal =
  prIssuer :: string
  prSub :: string
  prPublisher :: bool
  prScopes :: "string list"
  prGroups :: "string list"

text \<open>\<^verbatim>\<open>Header.Get\<close> and \<^verbatim>\<open>Header.Set\<close>: names are compared without regard to case, an absent header reads as empty.\<close>

definition header_get :: "request \<Rightarrow> string \<Rightarrow> string" where
  "header_get r name = (case find (\<lambda>(k, _). to_lower k = to_lower name) (rqHeader r) of None \<Rightarrow> [] | Some (_, v) \<Rightarrow> v)"

definition header_set :: "request \<Rightarrow> string \<Rightarrow> string \<Rightarrow> request" where
  "header_set r name v = r\<lparr>rqHeader := (name, v) # filter (\<lambda>(k, _). to_lower k \<noteq> to_lower name) (rqHeader r)\<rparr>"

text \<open>The answer that ends the request, or the request for the next handler.\<close>

definition AuthMiddleware :: "('s \<Rightarrow> request \<Rightarrow> Principal res \<times> 's) \<Rightarrow> 's \<Rightarrow> request \<Rightarrow> (response + request) \<times> 's" where
  "AuthMiddleware auth st r =
     (case auth st r of
        (Inl err, st') \<Rightarrow> (Inl (http_error ''Unauthorized'' 401), st')
      | (Inr p, st') \<Rightarrow>
        (Inr (r\<lparr>rqContext :=
           SetGroupsContext (SetScopesContext (SetPublisherFlagContext
             (SetPublisherContext (rqContext r) (prIssuer p) (prSub p)) (prPublisher p)) (prScopes p)) (prGroups p)\<rparr>), st'))"

section \<open>Claims\<close>

fun walk_claim :: "json \<Rightarrow> string list \<Rightarrow> json option" where
  "walk_claim current [] = Some current"
| "walk_claim (JObj m) (seg # segments) = (case jget m seg of None \<Rightarrow> None | Some v \<Rightarrow> walk_claim v segments)"
| "walk_claim _ (seg # segments) = None"

fun json_strings :: "json list \<Rightarrow> string list" where
  "json_strings [] = []"
| "json_strings (JStr s # vs) = s # json_strings vs"
| "json_strings (_ # vs) = json_strings vs"

definition ExtractClaimByPath :: "(string \<times> json) list \<Rightarrow> string \<Rightarrow> string list" where
  "ExtractClaimByPath claims dotPath =
     (if dotPath = [] then []
      else case walk_claim (JObj claims) (split_on CHR ''.'' dotPath) of
        Some (JArr arr) \<Rightarrow> json_strings arr
      | _ \<Rightarrow> [])"

definition knownScopes :: "string list" where
  "knownScopes = [''complytime:admin'', ''complytime:audit'', ''complytime:read'']"

definition ExtractScopes :: "(string \<times> json) list \<Rightarrow> string list" where
  "ExtractScopes claims =
     (case jget_str claims ''scope'' of
        None \<Rightarrow> []
      | Some scopeVal \<Rightarrow> filter (\<lambda>s. s \<in> set knownScopes) (GoStrings.fields scopeVal))"

definition GroupModeEnforce :: string where "GroupModeEnforce = ''enforce''"
definition GroupModeAudit :: string where "GroupModeAudit = ''audit''"
definition DefaultAdminGroup :: string where "DefaultAdminGroup = ''complytime-admin''"
definition DefaultAuditorGroup :: string where "DefaultAuditorGroup = ''complytime-auditor''"

fun split_groups :: "string list \<Rightarrow> string list \<Rightarrow> string list \<times> string list" where
  "split_groups known [] = ([], [])"
| "split_groups known (g # raw) =
     (let normalized = to_lower g; (recognized, dropped) = split_groups known raw in
      if normalized \<in> set known then (normalized # recognized, dropped) else (recognized, normalized # dropped))"

definition extractGroupsWithDropped :: "(string \<times> json) list \<Rightarrow> string \<Rightarrow> string list \<Rightarrow> string list \<times> string list" where
  "extractGroupsWithDropped claims groupClaim known = split_groups known (ExtractClaimByPath claims groupClaim)"

definition ExtractGroups :: "(string \<times> json) list \<Rightarrow> string \<Rightarrow> string list \<Rightarrow> string list" where
  "ExtractGroups claims groupClaim known = fst (extractGroupsWithDropped claims groupClaim known)"

section \<open>The OIDC issuer\<close>

record OIDCIssuer =
  oiUrl :: string
  oiExpectedIssuer :: string
  oiJwksURL :: string
  oiGroupClaim :: string
  oiKnownGroups :: "string list"
  oiGroupMode :: string

record OIDCIssuerConfig =
  ocURL :: string
  ocExpectedIssuer :: string
  ocGroupClaim :: string
  ocAdminGroup :: string
  ocAuditorGroup :: string
  ocGroupMode :: string

definition open_oidc_cache :: "'k jwx \<Rightarrow> time \<Rightarrow> string \<Rightarrow> goerr option" where
  "open_oidc_cache X now jwksURL =
     (case cache_new X of
        Some err \<Rightarrow> Some (ErrorfW ''creating JWKS cache: '' err [])
      | None \<Rightarrow>
     (case cache_register X jwksURL of
        Some err \<Rightarrow> Some (ErrorfW (''registering JWKS '' @ jwksURL @ '': '') err [])
      | None \<Rightarrow>
     (case cache_refresh X now jwksURL of
        Inl err \<Rightarrow> Some (ErrorfW (''fetching JWKS from '' @ jwksURL @ '': '') err [])
      | Inr _ \<Rightarrow> None)))"

definition NewOIDCIssuer :: "'k jwx \<Rightarrow> web \<Rightarrow> time \<Rightarrow> OIDCIssuerConfig \<Rightarrow> OIDCIssuer res" where
  "NewOIDCIssuer X W now cfg =
     (if ocURL cfg = [] then Inl (Errorf ''OIDC_ISSUER is required'')
      else
        let issuerURL = normalize_url (ocURL cfg);
            expectedIssuer = (if ocExpectedIssuer cfg \<noteq> [] then normalize_url (ocExpectedIssuer cfg) else issuerURL) in
        case DiscoverJWKSURI W issuerURL of
          Inl err \<Rightarrow> Inl (ErrorfW (''OIDC discovery for '' @ issuerURL @ '': '') err [])
        | Inr jwksURL \<Rightarrow>
       (case open_oidc_cache X now jwksURL of
          Some err \<Rightarrow> Inl err
        | None \<Rightarrow>
          let adminGroup = (if ocAdminGroup cfg = [] then DefaultAdminGroup else ocAdminGroup cfg);
              auditorGroup = (if ocAuditorGroup cfg = [] then DefaultAuditorGroup else ocAuditorGroup cfg) in
          if ocGroupMode cfg \<in> {GroupModeEnforce, GroupModeAudit, []}
          then Inr \<lparr>oiUrl = issuerURL, oiExpectedIssuer = expectedIssuer, oiJwksURL = jwksURL, oiGroupClaim = ocGroupClaim cfg,
                 oiKnownGroups = [adminGroup, auditorGroup],
                 oiGroupMode = (if ocGroupMode cfg = [] then GroupModeEnforce else ocGroupMode cfg)\<rparr>
          else Inl (Errorf (''invalid OIDC_GROUP_MODE '' @ quote (ocGroupMode cfg) @ '': must be '' @ quote GroupModeEnforce @
                 '' or '' @ quote GroupModeAudit))))"

definition OIDC_URL :: "OIDCIssuer \<Rightarrow> string" where "OIDC_URL o' = oiExpectedIssuer o'"

definition OIDC_Authenticate :: "'k jwx \<Rightarrow> OIDCIssuer \<Rightarrow> time \<Rightarrow> string \<Rightarrow> string \<Rightarrow> Principal res" where
  "OIDC_Authenticate X o' now tokenString audience =
     (case cache_lookup X now (oiJwksURL o') of
        Inl err \<Rightarrow> Inl (ErrorfW ''fetching OIDC JWKS: '' err [])
      | Inr keys \<Rightarrow>
     (case jwt_parse X keys (oiExpectedIssuer o') audience acceptable_skew now tokenString of
        Inl err \<Rightarrow> Inl (ErrorfW ''OIDC issuer validation failed: '' err [])
      | Inr tok \<Rightarrow>
        if tkIssuer tok \<noteq> Some (oiExpectedIssuer o')
        then Inl (Errorf (''issuer mismatch: got '' @ shown_issuer (tkIssuer tok) @ '' expected '' @ quote (oiExpectedIssuer o')))
        else
     (case tkSubject tok of
        None \<Rightarrow> Inl (Errorf ''missing sub claim'')
      | Some sub \<Rightarrow>
        if sub = [] then Inl (Errorf ''missing sub claim'')
        else
          let principal = \<lparr>prIssuer = oiExpectedIssuer o', prSub = sub, prPublisher = False, prScopes = [], prGroups = []\<rparr> in
          case tkJSON tok of
            Inl err \<Rightarrow> Inr principal
          | Inr data \<Rightarrow>
         (case unmarshal_map data of
            Inl err \<Rightarrow> Inr principal
          | Inr claims \<Rightarrow>
            Inr (principal\<lparr>prScopes := ExtractScopes claims,
              prGroups := (if oiGroupClaim o' \<noteq> []
                           then fst (extractGroupsWithDropped claims (oiGroupClaim o') (oiKnownGroups o')) else [])\<rparr>)))))"

definition OIDC_ValidateTrustEntry :: "OIDCIssuer \<Rightarrow> string \<Rightarrow> goerr option" where
  "OIDC_ValidateTrustEntry o' sub = Some (Errorf (''OIDC issuer '' @ quote (oiUrl o') @
     '' cannot be used as a trusted publisher: use a configured publisher issuer (github_actions, gitlab, gcp, kubernetes, spiffe, workload) or register a static JWK''))"

section \<open>The registry\<close>

record 's IssuerRegistry =
  rgOidc :: OIDCIssuer
  rgPublishers :: "(string \<times> publisher_issuer) list"
  rgJwkStore :: "('s \<Rightarrow> time \<Rightarrow> string \<Rightarrow> StoredJWK option res) option"
  rgJtiStore :: "'s jti_claim option"
  rgAudience :: string

text \<open>\<^verbatim>\<open>m[p.URL()] = p\<close> for each publisher in turn: the last one with a URL stays.\<close>

definition publisher_map :: "publisher_issuer list \<Rightarrow> (string \<times> publisher_issuer) list" where
  "publisher_map ps = rev (map (\<lambda>p. (publisher_URL p, p)) ps)"

definition NewIssuerRegistry ::
    "OIDCIssuer option \<Rightarrow> publisher_issuer list \<Rightarrow> ('s \<Rightarrow> time \<Rightarrow> string \<Rightarrow> StoredJWK option res) option \<Rightarrow>
     's jti_claim option \<Rightarrow> string \<Rightarrow> 's IssuerRegistry res" where
  "NewIssuerRegistry oidc publishers jwkStore jtiStore audience =
     (case oidc of
        None \<Rightarrow> Inl (Errorf ''oidc issuer is required'')
      | Some o' \<Rightarrow>
        if jwkStore \<noteq> None \<and> jtiStore = None
        then Inl (Errorf ''jtiStore is required when jwkStore is set: JTI replay prevention cannot be disabled'')
        else Inr \<lparr>rgOidc = o', rgPublishers = publisher_map publishers, rgJwkStore = jwkStore, rgJtiStore = jtiStore, rgAudience = audience\<rparr>)"

definition extractBearerToken :: "request \<Rightarrow> string res" where
  "extractBearerToken r =
     (case cut_prefix (header_get r ''Authorization'') ''Bearer '' of
        None \<Rightarrow> Inl (Errorf ''missing or invalid Authorization header'')
      | Some token \<Rightarrow>
        if token = [] then Inl (Errorf ''missing or invalid Authorization header'') else Inr token)"

definition peekIssuer :: "'k jwx \<Rightarrow> string \<Rightarrow> string res" where
  "peekIssuer X tokenString =
     (case jwt_parse_insecure X tokenString of
        Inl err \<Rightarrow> Inl (ErrorfW ''parsing token: '' err [])
      | Inr tok \<Rightarrow>
     (case tkIssuer tok of
        None \<Rightarrow> Inl (Errorf ''missing iss claim'')
      | Some iss \<Rightarrow> if iss = [] then Inl (Errorf ''missing iss claim'') else Inr (trim_right_slash iss)))"

definition publisher_principal :: "PublisherPrincipal \<Rightarrow> Principal" where
  "publisher_principal pp = \<lparr>prIssuer = ppIssuer pp, prSub = ppSub pp, prPublisher = True, prScopes = [], prGroups = []\<rparr>"

definition Registry_Authenticate :: "'k jwx \<Rightarrow> 's IssuerRegistry \<Rightarrow> time \<Rightarrow> 's \<Rightarrow> request \<Rightarrow> Principal res \<times> 's" where
  "Registry_Authenticate X r now st req =
     (case extractBearerToken req of
        Inl err \<Rightarrow> (Inl err, st)
      | Inr tokenString \<Rightarrow>
     (case peekIssuer X tokenString of
        Inl err \<Rightarrow> (Inl (ErrorfW ''cannot read issuer claim: '' err []), st)
      | Inr iss \<Rightarrow>
        if iss = OIDC_URL (rgOidc r) then (OIDC_Authenticate X (rgOidc r) now tokenString (rgAudience r), st)
        else
     (case map_of (rgPublishers r) iss of
        Some pub \<Rightarrow>
         (case publisher_Authenticate X pub now tokenString (rgAudience r) of
            Inl err \<Rightarrow> (Inl err, st)
          | Inr pp \<Rightarrow> (Inr (publisher_principal pp), st))
      | None \<Rightarrow>
     (case rgJwkStore r of
        None \<Rightarrow> (Inl (Errorf (''issuer '' @ quote iss @ '' is not a configured trusted publisher'')), st)
      | Some lookup \<Rightarrow>
     (case lookup st now iss of
        Inl err \<Rightarrow> (Inl (ErrorfW (''JWK lookup for '' @ iss @ '': '') err []), st)
      | Inr None \<Rightarrow> (Inl (Errorf (''issuer '' @ quote iss @ '' is not a configured trusted publisher'')), st)
      | Inr (Some stored) \<Rightarrow>
        (case StaticJWK_Authenticate X (NewStaticJWKIssuer iss (sjJWK stored) (sjNotAfter stored) (rgJtiStore r)) st now
                tokenString (rgAudience r) of
           (Inl err, st') \<Rightarrow> (Inl err, st')
         | (Inr pp, st') \<Rightarrow> (Inr (publisher_principal pp), st')))))))"

definition ValidateIssuerURL :: "string \<Rightarrow> goerr option" where
  "ValidateIssuerURL issuer =
     (case index_of issuer ''://'' of
        None \<Rightarrow> Some (Errorf (''issuer '' @ quote issuer @ '': missing scheme''))
      | Some i \<Rightarrow>
        let rest = drop (i + 3) issuer;
            schemeAndHost = (case index_of rest ''/'' of None \<Rightarrow> issuer | Some j \<Rightarrow> take (i + 3 + j) issuer) in
        if schemeAndHost \<noteq> to_lower schemeAndHost
        then Some (Errorf (''issuer '' @ quote issuer @ '': scheme and host must be lowercase''))
        else None)"

definition Registry_ValidateTrustEntry :: "'s IssuerRegistry \<Rightarrow> string \<Rightarrow> string \<Rightarrow> goerr option" where
  "Registry_ValidateTrustEntry r issuerURL sub =
     (case ValidateIssuerURL issuerURL of
        Some err \<Rightarrow> Some err
      | None \<Rightarrow>
        if issuerURL = OIDC_URL (rgOidc r) then OIDC_ValidateTrustEntry (rgOidc r) sub
        else case map_of (rgPublishers r) issuerURL of
          Some pub \<Rightarrow> publisher_ValidateTrustEntry pub sub
        | None \<Rightarrow> Some (Errorf (''issuer '' @ quote issuerURL @
            '' is not configured as a trusted publisher; add it to the service configuration or use scannerJwk for static JWK issuers'')))"

section \<open>Tokens of outgoing requests\<close>

datatype TokenSource = StaticTokenSource string | FileTokenSource string

fun Token :: "fs \<Rightarrow> TokenSource \<Rightarrow> string res" where
  "Token f (StaticTokenSource token) = Inr token"
| "Token f (FileTokenSource path) =
     (case read_file f path of
        Inl err \<Rightarrow> Inl (ErrorfW (''reading token file '' @ path @ '': '') err [])
      | Inr data \<Rightarrow> Inr (trim_space data))"

definition RoundTrip :: "fs \<Rightarrow> TokenSource \<Rightarrow> (request \<Rightarrow> 'r res) \<Rightarrow> request \<Rightarrow> 'r res" where
  "RoundTrip f source base req =
     (case Token f source of
        Inl err \<Rightarrow> Inl (ErrorfW ''obtaining token: '' err [])
      | Inr tok \<Rightarrow> base (header_set req ''Authorization'' (''Bearer '' @ tok)))"

section \<open>Lemmas\<close>

lemma split_groups_recognized: "g \<in> set (fst (split_groups known raw)) \<longleftrightarrow> g \<in> set known \<and> g \<in> to_lower ` set raw"
  by (induction known raw rule: split_groups.induct) (auto simp: Let_def split: prod.splits)

lemma split_groups_dropped: "g \<in> set (snd (split_groups known raw)) \<longleftrightarrow> g \<notin> set known \<and> g \<in> to_lower ` set raw"
  by (induction known raw rule: split_groups.induct) (auto simp: Let_def split: prod.splits)

lemma ExtractGroups_iff:
  "g \<in> set (ExtractGroups claims path known) \<longleftrightarrow> g \<in> set known \<and> g \<in> to_lower ` set (ExtractClaimByPath claims path)"
  by (simp add: ExtractGroups_def extractGroupsWithDropped_def split_groups_recognized)

lemma oidc_principal:
  assumes "OIDC_Authenticate X o' now s aud = Inr p"
  shows "prIssuer p = OIDC_URL o' \<and> \<not> prPublisher p \<and> set (prScopes p) \<subseteq> set knownScopes \<and>
     (\<forall>g \<in> set (prGroups p). g \<in> set (oiKnownGroups o') \<and> to_lower g = g) \<and> prSub p \<noteq> []"
  using assms
  by (auto simp: OIDC_Authenticate_def OIDC_URL_def Let_def ExtractScopes_def extractGroupsWithDropped_def split_groups_recognized
      split: sum.splits option.splits if_splits)

text \<open>What an authenticated principal can be: a publisher without scopes or groups from another issuer than the
  operator's, or a person of the operator's issuer.\<close>

definition wf_principal :: "'s IssuerRegistry \<Rightarrow> Principal \<Rightarrow> bool" where
  "wf_principal r p \<longleftrightarrow> prSub p \<noteq> [] \<and>
     (if prPublisher p then prIssuer p \<noteq> OIDC_URL (rgOidc r) \<and> prScopes p = [] \<and> prGroups p = []
      else prIssuer p = OIDC_URL (rgOidc r) \<and> set (prScopes p) \<subseteq> set knownScopes \<and>
        (\<forall>g \<in> set (prGroups p). g \<in> set (oiKnownGroups (rgOidc r)) \<and> to_lower g = g))"

lemma publisher_map_URL: "map_of (publisher_map ps) u = Some p \<Longrightarrow> publisher_URL p = u \<and> p \<in> set ps"
  by (auto simp: publisher_map_def dest!: map_of_SomeD)

lemma jwks_principal: "jwks_authenticate X a b g now s aud = Inr p \<Longrightarrow> ppIssuer p = jiUrl g \<and> ppSub p \<noteq> []"
  by (auto simp: jwks_authenticate_def split: sum.splits option.splits if_splits)

lemma publisher_principal_issuer: "publisher_Authenticate X i now s aud = Inr p \<Longrightarrow> ppIssuer p = publisher_URL i \<and> ppSub p \<noteq> []"
  by (cases i) (auto simp: publisher_URL_def GitHub_Authenticate_def GitLab_Authenticate_def GCP_Authenticate_def
      Kubernetes_Authenticate_def SPIFFE_Authenticate_def Workload_Authenticate_def dest: jwks_principal)

lemma static_principal: "StaticJWK_Authenticate X i st now s aud = (Inr p, st') \<Longrightarrow> ppIssuer p = siUrl i \<and> ppSub p \<noteq> []"
  by (auto simp: StaticJWK_Authenticate_def split: sum.splits option.splits if_splits prod.splits)

lemma registry_cases:
  assumes "Registry_Authenticate X r now st req = (Inr p, st')" "rgPublishers r = publisher_map ps"
  obtains s where "extractBearerToken req = Inr s" "OIDC_Authenticate X (rgOidc r) now s (rgAudience r) = Inr p" "st' = st"
  | s i pp where "extractBearerToken req = Inr s" "i \<in> set ps" "publisher_URL i \<noteq> OIDC_URL (rgOidc r)"
      "publisher_Authenticate X i now s (rgAudience r) = Inr pp" "p = publisher_principal pp" "st' = st"
  | s lookup iss stored pp where "extractBearerToken req = Inr s" "rgJwkStore r = Some lookup" "lookup st now iss = Inr (Some stored)"
      "iss \<noteq> OIDC_URL (rgOidc r)" "map_of (rgPublishers r) iss = None"
      "StaticJWK_Authenticate X (NewStaticJWKIssuer iss (sjJWK stored) (sjNotAfter stored) (rgJtiStore r)) st now s (rgAudience r) = (Inr pp, st')"
      "p = publisher_principal pp"
  using assms
  by (auto simp: Registry_Authenticate_def split: sum.splits option.splits if_splits prod.splits dest: publisher_map_URL)

lemma registry_principal:
  assumes "Registry_Authenticate X r now st req = (Inr p, st')" "rgPublishers r = publisher_map ps"
  shows "wf_principal r p"
  using assms
proof (cases rule: registry_cases)
  case (1 s)
  then show ?thesis using oidc_principal by (fastforce simp: wf_principal_def)
next
  case (2 s i pp)
  then show ?thesis using publisher_principal_issuer by (fastforce simp: wf_principal_def publisher_principal_def)
next
  case (3 s lookup iss stored pp)
  then show ?thesis
    using static_principal [OF 3(6)] by (simp add: wf_principal_def publisher_principal_def NewStaticJWKIssuer_def)
qed

context jwt_library
begin

lemma oidc_sound:
  assumes "OIDC_Authenticate X o' now s aud = Inr p"
  shows "\<exists>keys tok. verifies keys s \<and> intended s aud \<and> jwt_parse_insecure X s = Inr tok \<and>
     tkIssuer tok = Some (prIssuer p) \<and> tkSubject tok = Some (prSub p)"
  using assms parse_checked parse_insecure
  by (fastforce simp: OIDC_Authenticate_def Let_def split: sum.splits option.splits if_splits)

lemma static_sound:
  assumes "StaticJWK_Authenticate X i st now s aud = (Inr p, st')"
  shows "\<exists>keys tok. verifies keys s \<and> intended s aud \<and> jwt_parse_insecure X s = Inr tok \<and>
     tkIssuer tok = Some (ppIssuer p) \<and> tkSubject tok = Some (ppSub p)"
  using assms parse_checked parse_insecure
  by (fastforce simp: StaticJWK_Authenticate_def split: sum.splits option.splits if_splits prod.splits)

lemma registry_sound:
  assumes "Registry_Authenticate X r now st req = (Inr p, st')" "rgPublishers r = publisher_map ps"
  shows "\<exists>s keys tok. extractBearerToken req = Inr s \<and> verifies keys s \<and> intended s (rgAudience r) \<and>
     jwt_parse_insecure X s = Inr tok \<and> tkIssuer tok = Some (prIssuer p) \<and> tkSubject tok = Some (prSub p)"
  using assms
proof (cases rule: registry_cases)
  case (1 s)
  then show ?thesis using oidc_sound by blast
next
  case (2 s i pp)
  then show ?thesis using publisher_sound [OF 2(4)] by (auto simp: publisher_principal_def)
next
  case (3 s lookup iss stored pp)
  then show ?thesis using static_sound [OF 3(6)] by (auto simp: publisher_principal_def)
qed

end

lemma header_get_set: "header_get (header_set r k v) k = v"
  by (simp add: header_get_def header_set_def)

section \<open>Properties\<close>

text \<open>C32: the registry keeps the classes of identities apart.  A principal it returns is either a publisher, from an issuer
  other than the operator's OIDC issuer and with no scopes or groups, or a person of the OIDC issuer, with known scopes and
  configured groups only; its subject is never empty.\<close>

theorem registry_principals:
  assumes "NewIssuerRegistry oidc publishers jwkStore jtiStore audience = Inr r"
    and "Registry_Authenticate X r now st req = (Inr p, st')"
  shows "wf_principal r p"
  by (rule registry_principal [OF assms(2), of publishers])
    (use assms(1) in \<open>auto simp: NewIssuerRegistry_def split: option.splits if_splits\<close>)

definition ex_oidc :: OIDCIssuer where
  "ex_oidc = \<lparr>oiUrl = ''https://idp'', oiExpectedIssuer = ''https://idp'', oiJwksURL = ''https://idp/keys'', oiGroupClaim = ''groups'',
     oiKnownGroups = [''Admins'', ''auditors''], oiGroupMode = ''enforce''\<rparr>"

definition ex_registry :: "unit IssuerRegistry" where
  "ex_registry = \<lparr>rgOidc = ex_oidc, rgPublishers = publisher_map [ex_publisher], rgJwkStore = None, rgJtiStore = None, rgAudience = ''core''\<rparr>"

definition ex_people :: token_table where
  "ex_people = ex_table @ [(''ann'', ''https://idp/keys'', [''core''], (ex_token ''https://idp'')\<lparr>tkSubject := Some ''ann'',
     tkJSON := Inr (print_json (JObj [(''scope'', JStr ''openid complytime:audit''),
       (''groups'', JArr [JStr ''Admins'', JStr ''Auditors''])]))\<rparr>)]"

definition ex_bearer :: "string \<Rightarrow> request" where
  "ex_bearer tok = \<lparr>rqMethod = ''POST'', rqPath = ''/api/ingest'', rqHeader = [(''Authorization'', ''Bearer '' @ tok)], rqBody = Inr [],
     rqContext = empty_context\<rparr>"

lemma ex_registry_new: "NewIssuerRegistry (Some ex_oidc) [ex_publisher] None None ''core'' = Inr ex_registry"
  by (simp add: NewIssuerRegistry_def ex_registry_def)

lemma ex_registry_ann:
  "Registry_Authenticate (plain_jwx ex_people) ex_registry second () (ex_bearer ''ann'')
     = (Inr \<lparr>prIssuer = ''https://idp'', prSub = ''ann'', prPublisher = False, prScopes = [''complytime:audit''], prGroups = [''auditors'']\<rparr>, ())"
  by code_simp

lemma ex_registry_bot:
  "Registry_Authenticate (plain_jwx ex_people) ex_registry second () (ex_bearer ''tok'')
     = (Inr \<lparr>prIssuer = ''https://ci'', prSub = ''bot'', prPublisher = True, prScopes = [], prGroups = []\<rparr>, ())"
  by code_simp

theorem registry_principals_witness:
  "wf_principal ex_registry \<lparr>prIssuer = ''https://idp'', prSub = ''ann'', prPublisher = False, prScopes = [''complytime:audit''], prGroups = [''auditors'']\<rparr> \<and>
   wf_principal ex_registry \<lparr>prIssuer = ''https://ci'', prSub = ''bot'', prPublisher = True, prScopes = [], prGroups = []\<rparr>"
  using registry_principals [OF ex_registry_new ex_registry_ann] registry_principals [OF ex_registry_new ex_registry_bot] by simp





end
