(* ===== verification/Config.thy ===== *)
theory Config
  imports Authn
begin

text \<open>
  Configuration of the services: loading (\<^verbatim>\<open>internal/config/koanf.go\<close>), the issuers
  (\<^verbatim>\<open>internal/config/issuers.go\<close>) and the settings of each service (\<^verbatim>\<open>config.go\<close> of
  \<^verbatim>\<open>internal/gateway\<close>, \<^verbatim>\<open>internal/locker\<close> and \<^verbatim>\<open>internal/graph\<close>).  The koanf library is a parameter.
\<close>

section \<open>Loading\<close>

record CustomIssuerConfig =
  ciURL :: string
  ciType :: string

record 'k koanf =
  k_new :: 'k
  k_load_file :: "'k \<Rightarrow> string \<Rightarrow> goerr option \<times> 'k"
  k_load_env :: "'k \<Rightarrow> (string \<Rightarrow> string) \<Rightarrow> goerr option \<times> 'k"
  k_load_map :: "'k \<Rightarrow> (string \<times> string) list \<Rightarrow> goerr option \<times> 'k"
  k_string :: "'k \<Rightarrow> string \<Rightarrow> string"
  k_custom :: "'k \<Rightarrow> string \<Rightarrow> CustomIssuerConfig list res"

definition env_key :: "string \<Rightarrow> string" where
  "env_key s = replace_all (CHR ''_'') ''.'' (to_lower s)"

text \<open>The flags that were set, in the order in which \<^verbatim>\<open>Visit\<close> yields them.\<close>

definition flag_map :: "(string \<times> string) list \<Rightarrow> (string \<times> string) list" where
  "flag_map flags = fold (\<lambda>(name, val). assign (replace_all (CHR ''-'') ''.'' name) val) flags []"

definition Load :: "'k koanf \<Rightarrow> string \<Rightarrow> (string \<times> string) list option \<Rightarrow> 'k res" where
  "Load K configPath flagSet =
     (case (if configPath \<noteq> [] then k_load_file K (k_new K) configPath else (None, k_new K)) of
        (Some err, k1) \<Rightarrow> Inl (ErrorfW (''loading config file '' @ quote configPath @ '': '') err [])
      | (None, k1) \<Rightarrow>
     (case k_load_env K k1 env_key of
        (Some err, k2) \<Rightarrow> Inl (ErrorfW ''loading env vars: '' err [])
      | (None, k2) \<Rightarrow>
     (case flagSet of
        None \<Rightarrow> Inr k2
      | Some flags \<Rightarrow>
          if flag_map flags = [] then Inr k2
          else case k_load_map K k2 (flag_map flags) of
            (Some err, k3) \<Rightarrow> Inl (ErrorfW ''loading flags: '' err [])
          | (None, k3) \<Rightarrow> Inr k3)))"

section \<open>Issuers\<close>

record OIDCConfig =
  odURL :: string
  odExpectedIssuer :: string
  odGroupClaim :: string
  odAdminGroup :: string
  odAuditorGroup :: string
  odGroupMode :: string

record IssuersConfig =
  icOIDC :: OIDCConfig
  icEnabledShortnames :: "string list"
  icCustom :: "CustomIssuerConfig list"

definition knownShortnames :: "string list" where
  "knownShortnames = [''github_actions'', ''gitlab'', ''gcp'']"

fun enabled_names :: "string list \<Rightarrow> string list res" where
  "enabled_names [] = Inr []"
| "enabled_names (raw # rest) =
     (let name = trim_space raw in
      if name = [] then enabled_names rest
      else if name \<notin> set knownShortnames
      then Inl (Errorf (''unknown issuer shortname '' @ quote name @ ''; known: github_actions, gitlab, gcp''))
      else map_sum id (Cons name) (enabled_names rest))"

definition UnmarshalIssuers :: "'k koanf \<Rightarrow> 'k \<Rightarrow> IssuersConfig res" where
  "UnmarshalIssuers K k =
     (let oidcURL = k_string K k ''oidc.issuer'' in
      if oidcURL = [] then Inl (Errorf ''oidc.issuer (OIDC_ISSUER) is required'')
      else
        let oidc = \<lparr>odURL = oidcURL, odExpectedIssuer = k_string K k ''oidc.expected.issuer'',
              odGroupClaim = k_string K k ''oidc.group.claim'', odAdminGroup = k_string K k ''oidc.admin.group'',
              odAuditorGroup = k_string K k ''oidc.auditor.group'', odGroupMode = k_string K k ''oidc.group.mode''\<rparr>;
            raw = k_string K k ''issuers.enabled'' in
        case (if raw = [] then Inr [] else enabled_names (split_on (CHR '','') raw)) of
          Inl err \<Rightarrow> Inl err
        | Inr names \<Rightarrow>
       (case k_custom K k ''issuers.custom'' of
          Inl err \<Rightarrow> Inl (ErrorfW ''parsing issuers.custom: '' err [])
        | Inr custom \<Rightarrow> Inr \<lparr>icOIDC = oidc, icEnabledShortnames = names, icCustom = custom\<rparr>))"

definition unknown_type :: "string \<Rightarrow> goerr" where
  "unknown_type t = Errorf (''unknown type '' @ quote t @ ''; valid types: github, gitlab, gcp, kubernetes, spiffe, workload'')"

definition validateCustomIssuerType :: "string \<Rightarrow> goerr option" where
  "validateCustomIssuerType t =
     (if t \<in> {''github'', ''gitlab'', ''gcp'', ''kubernetes'', ''spiffe'', ''workload''} then None else Some (unknown_type t))"

definition buildKnownIssuer :: "'k jwx \<Rightarrow> time \<Rightarrow> string \<Rightarrow> publisher_issuer res" where
  "buildKnownIssuer X now shortname =
     (if shortname = ''github_actions'' then map_sum id GitHubActions (NewGitHubActionsIssuer X now [])
      else if shortname = ''gitlab'' then map_sum id GitLabCI (NewGitLabCIIssuer X now [])
      else if shortname = ''gcp'' then map_sum id GCPWorkload (NewGCPWorkloadIssuer X now [])
      else Inl (Errorf (''unknown shortname '' @ quote shortname)))"

definition buildCustomIssuer :: "'k jwx \<Rightarrow> web \<Rightarrow> time \<Rightarrow> CustomIssuerConfig \<Rightarrow> publisher_issuer res" where
  "buildCustomIssuer X W now c =
     (if ciType c = ''github'' then map_sum id GitHubActions (NewGitHubActionsIssuer X now (ciURL c))
      else if ciType c = ''gitlab'' then map_sum id GitLabCI (NewGitLabCIIssuer X now (ciURL c))
      else if ciType c = ''gcp'' then map_sum id GCPWorkload (NewGCPWorkloadIssuer X now (ciURL c))
      else if ciType c = ''kubernetes'' then map_sum id Kubernetes (NewKubernetesIssuer X W now (ciURL c))
      else if ciType c = ''spiffe'' then map_sum id SPIFFE (NewSPIFFEIssuer X now (ciURL c))
      else if ciType c = ''workload'' then map_sum id Workload (NewWorkloadIssuer X now (ciURL c))
      else Inl (unknown_type (ciType c)))"

fun check_custom :: "CustomIssuerConfig list \<Rightarrow> goerr option" where
  "check_custom [] = None"
| "check_custom (c # rest) =
     (if ciURL c = [] then Some (Errorf ''custom issuer entry missing url'')
      else case ValidateIssuerURL (ciURL c) of
        Some err \<Rightarrow> Some (ErrorfW ''custom issuer: '' err [])
      | None \<Rightarrow> (case validateCustomIssuerType (ciType c) of Some err \<Rightarrow> Some err | None \<Rightarrow> check_custom rest))"

text \<open>Building issuers one after the other until one fails.\<close>

fun build_each :: "('a \<Rightarrow> string) \<Rightarrow> ('a \<Rightarrow> publisher_issuer res) \<Rightarrow> 'a list \<Rightarrow> publisher_issuer list res" where
  "build_each what f [] = Inr []"
| "build_each what f (x # xs) =
     (case f x of
        Inl err \<Rightarrow> Inl (ErrorfW (what x @ '': '') err [])
      | Inr issuer \<Rightarrow> map_sum id (Cons issuer) (build_each what f xs))"

definition BuildIssuers :: "'k jwx \<Rightarrow> web \<Rightarrow> time \<Rightarrow> IssuersConfig \<Rightarrow> (OIDCIssuer \<times> publisher_issuer list) res" where
  "BuildIssuers X W now cfg =
     (let oidc = icOIDC cfg in
      case ValidateIssuerURL (odURL oidc) of
        Some err \<Rightarrow> Inl (ErrorfW ''OIDC issuer: '' err [])
      | None \<Rightarrow>
     (case check_custom (icCustom cfg) of
        Some err \<Rightarrow> Inl err
      | None \<Rightarrow>
     (case NewOIDCIssuer X W now \<lparr>ocURL = odURL oidc, ocExpectedIssuer = odExpectedIssuer oidc, ocGroupClaim = odGroupClaim oidc,
             ocAdminGroup = odAdminGroup oidc, ocAuditorGroup = odAuditorGroup oidc, ocGroupMode = odGroupMode oidc\<rparr> of
        Inl err \<Rightarrow> Inl (ErrorfW ''OIDC issuer: '' err [])
      | Inr primary \<Rightarrow>
     (case build_each (\<lambda>name. ''known issuer '' @ quote name) (buildKnownIssuer X now) (icEnabledShortnames cfg) of
        Inl err \<Rightarrow> Inl err
      | Inr known \<Rightarrow>
     (case build_each (\<lambda>c. ''custom issuer '' @ quote (ciURL c)) (buildCustomIssuer X W now) (icCustom cfg) of
        Inl err \<Rightarrow> Inl err
      | Inr custom \<Rightarrow> Inr (primary, known @ custom))))))"

section \<open>Settings of the services\<close>

definition with_default :: "string \<Rightarrow> string \<Rightarrow> string" where
  "with_default v d = (if v = [] then d else v)"

record GatewayConfig =
  gcNatsURL :: string
  gcListenAddr :: string
  gcJWTAudience :: string
  gcCedarPolicyDir :: string
  gcIssuers :: IssuersConfig

definition LoadGatewayConfig :: "'k koanf \<Rightarrow> 'k \<Rightarrow> GatewayConfig res" where
  "LoadGatewayConfig K k =
     (let audience = k_string K k ''jwt.audience'' in
      if audience = [] then Inl (Errorf ''jwt.audience (JWT_AUDIENCE) is required'')
      else case UnmarshalIssuers K k of
        Inl err \<Rightarrow> Inl err
      | Inr issuers \<Rightarrow>
          Inr \<lparr>gcNatsURL = with_default (k_string K k ''nats.url'') ''nats://localhost:4222'',
               gcListenAddr = with_default (k_string K k ''gateway.listen.addr'') '':8080'', gcJWTAudience = audience,
               gcCedarPolicyDir = k_string K k ''cedar.policy.dir'', gcIssuers = issuers\<rparr>)"

record LockerConfig =
  lcNatsURL :: string
  lcListenAddr :: string
  lcDataPath :: string
  lcJWTAudience :: string
  lcCedarPolicyDir :: string
  lcIssuers :: IssuersConfig

definition LoadLockerConfig :: "'k koanf \<Rightarrow> 'k \<Rightarrow> LockerConfig res" where
  "LoadLockerConfig K k =
     (let audience = k_string K k ''jwt.audience'' in
      if audience = [] then Inl (Errorf ''jwt.audience (JWT_AUDIENCE) is required'')
      else case UnmarshalIssuers K k of
        Inl err \<Rightarrow> Inl err
      | Inr issuers \<Rightarrow>
          Inr \<lparr>lcNatsURL = with_default (k_string K k ''nats.url'') ''nats://localhost:4222'',
               lcListenAddr = with_default (k_string K k ''locker.listen.addr'') '':8081'',
               lcDataPath = with_default (k_string K k ''locker.data.path'') ''/data/ledgers'', lcJWTAudience = audience,
               lcCedarPolicyDir = k_string K k ''cedar.policy.dir'', lcIssuers = issuers\<rparr>)"

record GraphConfig =
  gfNatsURL :: string
  gfLockerURL :: string
  gfTokenFile :: string
  gfMemgraphURL :: string
  gfJWTAudience :: string
  gfListenAddr :: string
  gfCedarPolicyDir :: string
  gfIssuers :: IssuersConfig

text \<open>The required settings are checked in the order in which the map is ranged over.\<close>

definition LoadGraphConfig :: "'k koanf \<Rightarrow> (string list \<Rightarrow> string list) \<Rightarrow> 'k \<Rightarrow> GraphConfig res" where
  "LoadGraphConfig K rng k =
     (case find (\<lambda>key. k_string K k key = []) (rng [''nats.url'', ''locker.url'', ''token.file'', ''memgraph.url'', ''jwt.audience'']) of
        Some key \<Rightarrow> Inl (Errorf (key @ '' is required''))
      | None \<Rightarrow>
     (case UnmarshalIssuers K k of
        Inl err \<Rightarrow> Inl err
      | Inr issuers \<Rightarrow>
          Inr \<lparr>gfNatsURL = k_string K k ''nats.url'', gfLockerURL = k_string K k ''locker.url'',
               gfTokenFile = k_string K k ''token.file'', gfMemgraphURL = k_string K k ''memgraph.url'',
               gfJWTAudience = k_string K k ''jwt.audience'',
               gfListenAddr = with_default (k_string K k ''graph.listen.addr'') '':8082'',
               gfCedarPolicyDir = k_string K k ''cedar.policy.dir'', gfIssuers = issuers\<rparr>))"

section \<open>Lemmas\<close>

text \<open>The type and the URL of a publisher issuer, and those a shortname stands for.\<close>

fun publisher_type :: "publisher_issuer \<Rightarrow> string" where
  "publisher_type (GitHubActions _) = ''github''"
| "publisher_type (GitLabCI _) = ''gitlab''"
| "publisher_type (GCPWorkload _) = ''gcp''"
| "publisher_type (Kubernetes _) = ''kubernetes''"
| "publisher_type (SPIFFE _) = ''spiffe''"
| "publisher_type (Workload _) = ''workload''"

definition shortname_issuer :: "string \<Rightarrow> string \<times> string" where
  "shortname_issuer name =
     (if name = ''github_actions'' then (''github'', ''https://token.actions.githubusercontent.com'')
      else if name = ''gitlab'' then (''gitlab'', ''https://gitlab.com'') else (''gcp'', ''https://accounts.google.com''))"

definition described :: "publisher_issuer \<Rightarrow> string \<times> string" where
  "described p = (publisher_type p, publisher_URL p)"

lemma new_jwks_url: "new_jwks_issuer X now whom name url jwks = Inr j \<Longrightarrow> jiUrl j = url"
  by (auto simp: new_jwks_issuer_def split: option.splits)

lemma default_urls: "normalize_url GitHubActionsIssuerURL = ''https://token.actions.githubusercontent.com''"
  "normalize_url GitLabCIIssuerURL = ''https://gitlab.com''" "normalize_url GCPWorkloadIssuerURL = ''https://accounts.google.com''"
  by code_simp+

lemma map_sum_Inr: "map_sum id f x = Inr y \<longleftrightarrow> (\<exists>z. x = Inr z \<and> y = f z)"
  by (cases x) auto

lemma buildKnownIssuer_described:
  "name \<in> set knownShortnames \<Longrightarrow> buildKnownIssuer X now name = Inr p \<Longrightarrow> described p = shortname_issuer name"
  by (auto simp: buildKnownIssuer_def knownShortnames_def shortname_issuer_def described_def publisher_URL_def map_sum_Inr
      NewGitHubActionsIssuer_def NewGitLabCIIssuer_def NewGCPWorkloadIssuer_def Let_def default_urls dest!: new_jwks_url)

lemma buildCustomIssuer_described:
  assumes "buildCustomIssuer X W now c = Inr p" "ciURL c \<noteq> []"
  shows "described p = (ciType c, normalize_url (ciURL c))"
  using assms
  by (auto simp: buildCustomIssuer_def described_def publisher_URL_def map_sum_Inr NewGitHubActionsIssuer_def NewGitLabCIIssuer_def
      NewGCPWorkloadIssuer_def NewKubernetesIssuer_def NewSPIFFEIssuer_def NewWorkloadIssuer_def Let_def
      dest!: new_jwks_url split: if_splits sum.splits)

lemma build_each_described:
  assumes "build_each what f xs = Inr ps" "\<And>x p. x \<in> set xs \<Longrightarrow> f x = Inr p \<Longrightarrow> described p = g x"
  shows "map described ps = map g xs"
  using assms by (induction xs arbitrary: ps) (auto simp: map_sum_Inr split: sum.splits)

lemma check_custom_urls: "check_custom cs = None \<Longrightarrow> c \<in> set cs \<Longrightarrow> ciURL c \<noteq> []"
  by (induction cs) (auto split: if_splits option.splits)

lemma NewOIDCIssuer_URL:
  "NewOIDCIssuer X W now c = Inr primary \<Longrightarrow>
   OIDC_URL primary = normalize_url (if ocExpectedIssuer c = [] then ocURL c else ocExpectedIssuer c)"
  by (auto simp: NewOIDCIssuer_def Let_def OIDC_URL_def split: if_splits sum.splits option.splits)

text \<open>What is wrong with a configuration by itself.\<close>

definition config_error :: "IssuersConfig \<Rightarrow> goerr option" where
  "config_error cfg =
     (case ValidateIssuerURL (odURL (icOIDC cfg)) of
        Some err \<Rightarrow> Some (ErrorfW ''OIDC issuer: '' err [])
      | None \<Rightarrow> check_custom (icCustom cfg))"

section \<open>Properties\<close>


definition ex_issuers :: "CustomIssuerConfig \<Rightarrow> IssuersConfig" where
  "ex_issuers c = \<lparr>icOIDC = \<lparr>odURL = ''https://idp/'', odExpectedIssuer = [], odGroupClaim = [], odAdminGroup = [], odAuditorGroup = [],
      odGroupMode = []\<rparr>, icEnabledShortnames = [''gitlab''], icCustom = [c]\<rparr>"

definition ex_web :: web where
  "ex_web = \<lparr>web_request = (\<lambda>_. None), web_do = (\<lambda>_. Inr (200, Inr (print_json (JObj [(''jwks_uri'', JStr ''https://idp/keys'')]))))\<rparr>"


end
