(* ===== verification/Cypher.thy ===== *)
theory Cypher
  imports GoStrings "HOL-Library.Multiset" "HOL-Library.List_Lexorder" "HOL-Library.Product_Lexorder"
begin

text \<open>
  The interface to the graph database.  Memgraph and its driver are a parameter: the record \<open>graph_db\<close>, over an
  abstract state.  The Cypher texts of \<^verbatim>\<open>internal/graph/writer.go\<close> are data of the type \<open>query\<close>; the functions
  below state what the openCypher language defines for the clauses they use, and the locale \<open>memgraph\<close> says that
  the database answers accordingly.  A property graph has at most one relationship of a type between two nodes:
  the queries create relationships with \<^verbatim>\<open>MERGE\<close> only.
\<close>

section \<open>Values and graphs\<close>

datatype cy_value =
    CNull
  | CBool bool
  | CInt int
  | CStr string
  | CLocal time
  | CZoned time
  | CList "cy_value list"
  | CMap "(string \<times> cy_value) list"

type_synonym props = "(string \<times> cy_value) list"

record cy_node =
  ndLabel :: string
  ndProps :: props

type_synonym rel = "nat \<times> string \<times> nat"

text \<open>A node is known by its position.\<close>

record graph =
  gNodes :: "cy_node list"
  gRels :: "rel list"

definition empty_graph :: graph where
  "empty_graph = \<lparr>gNodes = [], gRels = []\<rparr>"

text \<open>A missing key is null.\<close>

definition value_of :: "props \<Rightarrow> string \<Rightarrow> cy_value" where
  "value_of ps k = (case map_of ps k of None \<Rightarrow> CNull | Some v \<Rightarrow> v)"

section \<open>Queries\<close>

text \<open>A node pattern: a variable, maybe a label, and properties equal to parameters.\<close>

record node_pat =
  npVar :: string
  npLabel :: "string option"
  npProps :: "(string \<times> string) list"

datatype direction = Outgoing | Incoming

type_synonym path_pat = "node_pat \<times> (direction \<times> string \<times> node_pat) list"

datatype comparison = IsEqual | IsIn | AtLeast | Less | Greater

text \<open>\<open>Cond v k c p\<close> compares the property \<open>v.k\<close> with the parameter \<open>p\<close>.\<close>

datatype condition = Cond string string comparison string

datatype clause =
    Match path_pat
  | OptionalMatch path_pat
  | Where "condition list"
  | MergeNode node_pat
  | MergeRel string string string
  | SetProp string string string
  | SetAll string string
  | WithVars "string list"

datatype item =
    Prop string string
  | CountDistinct string
  | CountAll string
  | MaxOf string string
  | CollectDistinct "(string \<times> string \<times> string) list"

datatype limit = LimitIs nat | LimitParam string

text \<open>The result columns, the columns it is ordered by and the limit.\<close>

record query =
  qClauses :: "clause list"
  qReturn :: "(string \<times> item) list"
  qOrder :: "string list"
  qLimit :: "limit option"

section \<open>Matching\<close>

text \<open>A row binds variables to nodes; an optional match that fails binds to null.\<close>

type_synonym row = "(string \<times> nat option) list"

definition equal_values :: "cy_value \<Rightarrow> cy_value \<Rightarrow> bool" where
  "equal_values v w \<longleftrightarrow> v = w \<and> v \<noteq> CNull"

definition node_ok :: "graph \<Rightarrow> props \<Rightarrow> node_pat \<Rightarrow> nat \<Rightarrow> bool" where
  "node_ok G ps np i \<longleftrightarrow> i < length (gNodes G)
     \<and> (case npLabel np of None \<Rightarrow> True | Some l \<Rightarrow> ndLabel (gNodes G ! i) = l)
     \<and> list_all (\<lambda>(k, p). equal_values (value_of (ndProps (gNodes G ! i)) k) (value_of ps p)) (npProps np)"

definition bind_node :: "graph \<Rightarrow> props \<Rightarrow> node_pat \<Rightarrow> row \<Rightarrow> row list" where
  "bind_node G ps np row =
     (case map_of row (npVar np) of
        Some None \<Rightarrow> []
      | Some (Some i) \<Rightarrow> if node_ok G ps np i then [row] else []
      | None \<Rightarrow> map (\<lambda>i. (npVar np, Some i) # row) (filter (node_ok G ps np) [0..<length (gNodes G)]))"

definition joined :: "graph \<Rightarrow> direction \<Rightarrow> string \<Rightarrow> nat option option \<Rightarrow> nat option option \<Rightarrow> bool" where
  "joined G d t a b \<longleftrightarrow>
     (case (a, b) of
        (Some (Some i), Some (Some j)) \<Rightarrow> (case d of Outgoing \<Rightarrow> (i, t, j) | Incoming \<Rightarrow> (j, t, i)) \<in> set (gRels G)
      | _ \<Rightarrow> False)"

fun match_steps :: "graph \<Rightarrow> props \<Rightarrow> string \<Rightarrow> (direction \<times> string \<times> node_pat) list \<Rightarrow> row \<Rightarrow> row list" where
  "match_steps G ps v [] row = [row]"
| "match_steps G ps v ((d, t, np) # steps) row =
     concat (map (match_steps G ps (npVar np) steps)
       (filter (\<lambda>r. joined G d t (map_of r v) (map_of r (npVar np))) (bind_node G ps np row)))"

definition match_path :: "graph \<Rightarrow> props \<Rightarrow> path_pat \<Rightarrow> row \<Rightarrow> row list" where
  "match_path G ps path row =
     concat (map (match_steps G ps (npVar (fst path)) (snd path)) (bind_node G ps (fst path) row))"

definition path_vars :: "path_pat \<Rightarrow> string list" where
  "path_vars path = npVar (fst path) # map (\<lambda>(d, t, np). npVar np) (snd path)"

definition null_row :: "path_pat \<Rightarrow> row \<Rightarrow> row" where
  "null_row path row = map (\<lambda>v. (v, None)) (filter (\<lambda>v. map_of row v = None) (path_vars path)) @ row"

text \<open>A property of a variable bound to null is null.\<close>

definition prop_of :: "graph \<Rightarrow> row \<Rightarrow> string \<Rightarrow> string \<Rightarrow> cy_value" where
  "prop_of G row v k =
     (case map_of row v of
        Some (Some i) \<Rightarrow> if i < length (gNodes G) then value_of (ndProps (gNodes G ! i)) k else CNull
      | _ \<Rightarrow> CNull)"

text \<open>Values of different types, and null, do not compare.\<close>

definition less_values :: "cy_value \<Rightarrow> cy_value \<Rightarrow> bool" where
  "less_values v w =
     (case (v, w) of
        (CInt i, CInt j) \<Rightarrow> i < j | (CLocal s, CLocal t) \<Rightarrow> s < t | (CZoned s, CZoned t) \<Rightarrow> s < t | _ \<Rightarrow> False)"

definition at_least :: "cy_value \<Rightarrow> cy_value \<Rightarrow> bool" where
  "at_least v w =
     (case (v, w) of
        (CInt i, CInt j) \<Rightarrow> i \<ge> j | (CLocal s, CLocal t) \<Rightarrow> s \<ge> t | (CZoned s, CZoned t) \<Rightarrow> s \<ge> t | _ \<Rightarrow> False)"

fun condition_holds :: "graph \<Rightarrow> props \<Rightarrow> row \<Rightarrow> condition \<Rightarrow> bool" where
  "condition_holds G ps row (Cond v k IsEqual p) = equal_values (prop_of G row v k) (value_of ps p)"
| "condition_holds G ps row (Cond v k IsIn p) =
     (case value_of ps p of CList ws \<Rightarrow> list_ex (equal_values (prop_of G row v k)) ws | _ \<Rightarrow> False)"
| "condition_holds G ps row (Cond v k AtLeast p) = at_least (prop_of G row v k) (value_of ps p)"
| "condition_holds G ps row (Cond v k Less p) = less_values (prop_of G row v k) (value_of ps p)"
| "condition_holds G ps row (Cond v k Greater p) = less_values (value_of ps p) (prop_of G row v k)"

section \<open>Clauses\<close>

definition new_node :: "props \<Rightarrow> node_pat \<Rightarrow> cy_node" where
  "new_node ps np = \<lparr>ndLabel = (case npLabel np of None \<Rightarrow> [] | Some l \<Rightarrow> l),
     ndProps = map (\<lambda>(k, p). (k, value_of ps p)) (npProps np)\<rparr>"

definition merge_node :: "props \<Rightarrow> node_pat \<Rightarrow> row \<Rightarrow> graph \<Rightarrow> graph \<times> row list" where
  "merge_node ps np row G =
     (case bind_node G ps np row of
        [] \<Rightarrow> (G\<lparr>gNodes := gNodes G @ [new_node ps np]\<rparr>, [(npVar np, Some (length (gNodes G))) # row])
      | rows \<Rightarrow> (G, rows))"

definition merge_rel :: "string \<Rightarrow> string \<Rightarrow> string \<Rightarrow> row \<Rightarrow> graph \<Rightarrow> graph \<times> row list" where
  "merge_rel a t b row G =
     (case (map_of row a, map_of row b) of
        (Some (Some i), Some (Some j)) \<Rightarrow>
          (if (i, t, j) \<in> set (gRels G) then G else G\<lparr>gRels := gRels G @ [(i, t, j)]\<rparr>, [row])
      | _ \<Rightarrow> (G, [row]))"

definition update_node :: "(props \<Rightarrow> props) \<Rightarrow> string \<Rightarrow> row \<Rightarrow> graph \<Rightarrow> graph" where
  "update_node f v row G =
     (case map_of row v of
        Some (Some i) \<Rightarrow>
          if i < length (gNodes G)
          then G\<lparr>gNodes := (gNodes G)[i := (gNodes G ! i)\<lparr>ndProps := f (ndProps (gNodes G ! i))\<rparr>]\<rparr> else G
      | _ \<Rightarrow> G)"

definition set_all :: "cy_value \<Rightarrow> props \<Rightarrow> props" where
  "set_all v ps = (case v of CMap kvs \<Rightarrow> fold (\<lambda>(k, w). assign k w) kvs ps | _ \<Rightarrow> ps)"

fun run_row :: "props \<Rightarrow> clause \<Rightarrow> row \<Rightarrow> graph \<Rightarrow> graph \<times> row list" where
  "run_row ps (Match path) row G = (G, match_path G ps path row)"
| "run_row ps (OptionalMatch path) row G =
     (G, case match_path G ps path row of [] \<Rightarrow> [null_row path row] | rows \<Rightarrow> rows)"
| "run_row ps (Where cs) row G = (G, if list_all (condition_holds G ps row) cs then [row] else [])"
| "run_row ps (MergeNode np) row G = merge_node ps np row G"
| "run_row ps (MergeRel a t b) row G = merge_rel a t b row G"
| "run_row ps (SetProp v k p) row G = (update_node (assign k (value_of ps p)) v row G, [row])"
| "run_row ps (SetAll v p) row G = (update_node (set_all (value_of ps p)) v row G, [row])"
| "run_row ps (WithVars vs) row G = (G, [filter (\<lambda>(v, i). v \<in> set vs) row])"

fun run_rows :: "props \<Rightarrow> clause \<Rightarrow> row list \<Rightarrow> graph \<Rightarrow> graph \<times> row list" where
  "run_rows ps c [] G = (G, [])"
| "run_rows ps c (r # rs) G =
     (case run_row ps c r G of (G', out) \<Rightarrow> (case run_rows ps c rs G' of (G'', outs) \<Rightarrow> (G'', out @ outs)))"

fun run_clauses :: "props \<Rightarrow> clause list \<Rightarrow> row list \<Rightarrow> graph \<Rightarrow> graph \<times> row list" where
  "run_clauses ps [] rows G = (G, rows)"
| "run_clauses ps (c # cs) rows G = (case run_rows ps c rows G of (G', rows') \<Rightarrow> run_clauses ps cs rows' G')"

section \<open>Results\<close>

definition later :: "cy_value \<Rightarrow> cy_value \<Rightarrow> cy_value" where
  "later v w = (if v = CNull \<or> less_values v w then w else v)"

definition node_list :: "row list \<Rightarrow> string \<Rightarrow> nat list" where
  "node_list rows v = concat (map (\<lambda>r. case map_of r v of Some (Some i) \<Rightarrow> [i] | _ \<Rightarrow> []) rows)"

fun item_value :: "graph \<Rightarrow> row list \<Rightarrow> item \<Rightarrow> cy_value" where
  "item_value G rows (Prop v k) = (case rows of [] \<Rightarrow> CNull | r # _ \<Rightarrow> prop_of G r v k)"
| "item_value G rows (CountDistinct v) = CInt (int (length (remdups (node_list rows v))))"
| "item_value G rows (CountAll v) = CInt (int (length (node_list rows v)))"
| "item_value G rows (MaxOf v k) = fold (\<lambda>r m. later m (prop_of G r v k)) rows CNull"
| "item_value G rows (CollectDistinct es) =
     CList (remdups (map (\<lambda>r. CMap (map (\<lambda>(n, v, k). (n, prop_of G r v k)) es)) rows))"

fun is_plain :: "item \<Rightarrow> bool" where
  "is_plain (Prop _ _) = True"
| "is_plain _ = False"

definition group_key :: "graph \<Rightarrow> (string \<times> item) list \<Rightarrow> row \<Rightarrow> cy_value list" where
  "group_key G items r = map (\<lambda>(n, it). item_value G [r] it) (filter (\<lambda>(n, it). is_plain it) items)"

text \<open>Rows with the same plain columns form the groups that the other columns aggregate.\<close>

definition project :: "graph \<Rightarrow> (string \<times> item) list \<Rightarrow> row list \<Rightarrow> props list" where
  "project G items rows =
     (if list_all (\<lambda>(n, it). is_plain it) items
      then map (\<lambda>r. map (\<lambda>(n, it). (n, item_value G [r] it)) items) rows
      else map (\<lambda>key. map (\<lambda>(n, it). (n, item_value G (filter (\<lambda>r. group_key G items r = key) rows) it)) items)
             (remdups (map (group_key G items) rows)))"

text \<open>
  The order of \<^verbatim>\<open>ORDER BY\<close>: numbers by value and strings byte by byte, the two types the queries sort; null
  comes last.
\<close>

definition order_key :: "cy_value \<Rightarrow> nat \<times> int \<times> nat list" where
  "order_key v =
     (case v of CInt i \<Rightarrow> (0, i, []) | CStr s \<Rightarrow> (1, 0, map of_char s) | CNull \<Rightarrow> (3, 0, []) | _ \<Rightarrow> (2, 0, []))"

definition row_key :: "string list \<Rightarrow> props \<Rightarrow> (nat \<times> int \<times> nat list) list" where
  "row_key ks r = map (\<lambda>k. order_key (value_of r k)) ks"

definition limited :: "query \<Rightarrow> props \<Rightarrow> props list \<Rightarrow> props list" where
  "limited q ps rows =
     (case qLimit q of
        None \<Rightarrow> rows
      | Some (LimitIs n) \<Rightarrow> take n rows
      | Some (LimitParam p) \<Rightarrow> (case value_of ps p of CInt n \<Rightarrow> take (nat n) rows | _ \<Rightarrow> rows))"

definition effect :: "query \<Rightarrow> props \<Rightarrow> graph \<Rightarrow> graph" where
  "effect q ps G = fst (run_clauses ps (qClauses q) [[]] G)"

definition answer :: "query \<Rightarrow> props \<Rightarrow> graph \<Rightarrow> props list" where
  "answer q ps G = (case run_clauses ps (qClauses q) [[]] G of (G', rows) \<Rightarrow> project G' (qReturn q) rows)"

text \<open>Without \<^verbatim>\<open>ORDER BY\<close> the rows come in any order; a limit cuts the ordered rows.\<close>

definition allowed_answer :: "query \<Rightarrow> props \<Rightarrow> graph \<Rightarrow> props list \<Rightarrow> bool" where
  "allowed_answer q ps G rows \<longleftrightarrow>
     (\<exists>all. mset all = mset (answer q ps G) \<and> sorted (map (row_key (qOrder q)) all) \<and> rows = limited q ps all)"

section \<open>The database\<close>

text \<open>
  \<open>run\<close> is \<^verbatim>\<open>session.Run\<close> together with reading the result: a failed run, or the records that \<^verbatim>\<open>Next\<close>
  delivers before it stops and the error that \<^verbatim>\<open>Err\<close> or \<^verbatim>\<open>Consume\<close> then reports.
\<close>

record 'g graph_db =
  run :: "'g \<Rightarrow> query \<Rightarrow> props \<Rightarrow> (props list \<times> goerr option) res \<times> 'g"

locale memgraph =
  fixes D :: "'g graph_db" and view :: "'g \<Rightarrow> graph"
  assumes run_ok: "run D g q ps = (Inr (rows, None), g') \<Longrightarrow>
      view g' = effect q ps (view g) \<and> allowed_answer q ps (view g) rows"
    and run_failed: "run D g q ps = (Inr (rows, Some e), g') \<Longrightarrow>
      (view g' = view g \<or> view g' = effect q ps (view g))
      \<and> (\<exists>rest. allowed_answer q ps (view g) (rows @ rest))"
    and run_refused: "run D g q ps = (Inl e, g') \<Longrightarrow> view g' = view g"

text \<open>A database that keeps the graph in memory and answers every query.\<close>

definition mem_graph :: "graph graph_db" where
  "mem_graph = \<lparr>run = (\<lambda>G q ps.
     (Inr (limited q ps (sort_key (row_key (qOrder q)) (answer q ps G)), None), effect q ps G))\<rparr>"

interpretation mem_memgraph: memgraph mem_graph "\<lambda>G. G"
proof unfold_locales
  show "g' = effect q ps g \<and> allowed_answer q ps g rows" if "run mem_graph g q ps = (Inr (rows, None), g')" for g q ps rows g'
    using that unfolding mem_graph_def allowed_answer_def
    by (intro conjI exI [of _ "sort_key (row_key (qOrder q)) (answer q ps g)"]) auto
qed (auto simp: mem_graph_def)

end
