(* ===== verification/GraphWriter.thy ===== *)
theory GraphWriter
  imports Cypher Events GoTime "HOL-Library.Monad_Syntax"
begin

text \<open>
  The data access layer of the graph service (\<^verbatim>\<open>internal/graph/writer.go\<close>) and the response types of
  \<^verbatim>\<open>internal/graph/gen.openapi.go\<close> it fills.  Each method is the query it sends, as data, and what it does with
  the records that come back.  A failed type assertion or a nil dereference panics: \<open>None\<close>.
\<close>

section \<open>Records\<close>

record EvidenceRecord =
  evLogIndex :: int
  evDigest :: string
  evReceiptDigest :: string
  evArtifactType :: string
  evStatus :: string
  evSubjectID :: string
  evPublisherIssuer :: string
  evPublisherSub :: string
  evSealed :: time

record EntityRecord =
  enID :: string
  enLabel :: string
  enProperties :: props
  enEvidenceLogIndex :: int

record EdgeRecord =
  edFromID :: string
  edFromLabel :: string
  edToID :: string
  edToLabel :: string
  edEdgeType :: string

record EvidenceFilter =
  efArtifactType :: "string option"
  efSince :: "time option"
  efBefore :: "time option"
  efCursor :: "string option"
  efLimit :: "int option"

record EvidenceSource =
  soDigest :: string
  soLogIndex :: int
  soPublisher :: PublisherIdentity
  soSealed :: time

record ThreatModelCapability =
  tcDescription :: string
  tcId :: string
  tcIntroduces :: "string list"
  tcSource :: EvidenceSource
  tcTitle :: string

record ThreatModelThreat =
  ttAddressedBy :: "string list"
  ttDescription :: string
  ttId :: string
  ttLeverages :: "string list"
  ttSource :: EvidenceSource
  ttTitle :: string

record ThreatModelControl =
  tlApplies :: "string list"
  tlAssessmentRequirements :: "string list"
  tlId :: string
  tlObjective :: string
  tlSource :: EvidenceSource
  tlTitle :: string

record ThreatModelVector =
  tvDescription :: string
  tvId :: string
  tvTitle :: string

record ThreatModelResult =
  tmSubjectID :: string
  tmCapabilities :: "ThreatModelCapability list"
  tmThreats :: "ThreatModelThreat list"
  tmControls :: "ThreatModelControl list"
  tmVectors :: "ThreatModelVector list"

record ArtifactTypeSummary =
  atCount :: int
  atLastUpdated :: time

record SubjectSummaryResult =
  ssSubjectID :: string
  ssEvidenceCount :: int
  ssPublisherCount :: int
  ssArtifactTypes :: "(string \<times> ArtifactTypeSummary) list"

record EvidenceItem =
  eiArtifactType' :: string
  eiDigest' :: string
  eiLogIndex' :: int
  eiPublisher' :: PublisherIdentity
  eiSealed' :: time
  eiStatus' :: string

record EvidenceResult =
  erSubjectID :: string
  erEvidence :: "EvidenceItem list"
  erNextCursor :: "string option"

datatype CoverageControlStatus = Covered | Uncovered

record CoverageControl =
  ccId :: string
  ccLatestEvidence :: "time option"
  ccStatus :: CoverageControlStatus
  ccTitle :: string

record CoverageResult =
  crSubjectID :: string
  crCatalog :: string
  crCatalogType :: string
  crCovered :: int
  crTotal :: int
  crControls :: "CoverageControl list"

section \<open>Values of records\<close>

definition toString :: "cy_value \<Rightarrow> string" where
  "toString val = (case val of CStr s \<Rightarrow> s | _ \<Rightarrow> [])"

definition toTime :: "cy_value \<Rightarrow> time" where
  "toTime val = (case val of CZoned t \<Rightarrow> t | CLocal t \<Rightarrow> t | _ \<Rightarrow> zero_time)"

definition toStringSlice :: "cy_value \<Rightarrow> string list" where
  "toStringSlice val =
     (case val of CList items \<Rightarrow> concat (map (\<lambda>item. case item of CStr s \<Rightarrow> [s] | _ \<Rightarrow> []) items) | _ \<Rightarrow> [])"

text \<open>The assertions \<^verbatim>\<open>val.(string)\<close> and \<^verbatim>\<open>val.(int64)\<close>.\<close>

definition as_string :: "cy_value \<Rightarrow> string option" where
  "as_string val = (case val of CStr s \<Rightarrow> Some s | _ \<Rightarrow> None)"

definition as_int64 :: "cy_value \<Rightarrow> int option" where
  "as_int64 val = (case val of CInt i \<Rightarrow> Some i | _ \<Rightarrow> None)"

section \<open>Upserts\<close>

definition node :: "string \<Rightarrow> string \<Rightarrow> (string \<times> string) list \<Rightarrow> node_pat" where
  "node v l ps = \<lparr>npVar = v, npLabel = Some l, npProps = ps\<rparr>"

definition bound :: "string \<Rightarrow> node_pat" where
  "bound v = \<lparr>npVar = v, npLabel = None, npProps = []\<rparr>"

definition command :: "clause list \<Rightarrow> query" where
  "command cs = \<lparr>qClauses = cs, qReturn = [], qOrder = [], qLimit = None\<rparr>"

definition exec :: "'g graph_db \<Rightarrow> query \<Rightarrow> props \<Rightarrow> 'g \<Rightarrow> goerr option \<times> 'g" where
  "exec D q ps g = (case run D g q ps of (Inl err, g') \<Rightarrow> (Some err, g') | (Inr (rows, err), g') \<Rightarrow> (err, g'))"

definition UpsertSubject :: "'g graph_db \<Rightarrow> string \<Rightarrow> 'g \<Rightarrow> goerr option \<times> 'g" where
  "UpsertSubject D subjectID =
     exec D (command [MergeNode (node ''s'' ''Subject'' [(''id'', ''id'')])]) [(''id'', CStr subjectID)]"

definition UpsertPublisher :: "'g graph_db \<Rightarrow> string \<Rightarrow> string \<Rightarrow> 'g \<Rightarrow> goerr option \<times> 'g" where
  "UpsertPublisher D issuer sub =
     exec D (command [MergeNode (node ''p'' ''Publisher'' [(''issuer'', ''issuer''), (''sub'', ''sub'')])])
       [(''issuer'', CStr issuer), (''sub'', CStr sub)]"

definition UpsertIngestedStub :: "'g graph_db \<Rightarrow> string \<Rightarrow> string \<Rightarrow> string \<Rightarrow> string \<Rightarrow> 'g \<Rightarrow> goerr option \<times> 'g" where
  "UpsertIngestedStub D digest subjectID issuer sub =
     exec D (command
       [Match (node ''s'' ''Subject'' [(''id'', ''subjectID'')], []),
        Match (node ''p'' ''Publisher'' [(''issuer'', ''issuer''), (''sub'', ''sub'')], []),
        MergeNode (node ''stub'' ''IngestedStub'' [(''digest'', ''digest''), (''subjectId'', ''subjectID'')]),
        MergeRel ''stub'' ''TARGETS'' ''s'',
        MergeRel ''stub'' ''PUBLISHED_BY'' ''p''])
       [(''digest'', CStr digest), (''subjectID'', CStr subjectID), (''issuer'', CStr issuer), (''sub'', CStr sub)]"

definition publisher_by_digest :: query where
  "publisher_by_digest = \<lparr>qClauses =
       [Match (node ''stub'' ''IngestedStub'' [(''digest'', ''digest''), (''subjectId'', ''subjectID'')],
               [(Outgoing, ''PUBLISHED_BY'', node ''p'' ''Publisher'' [])])],
     qReturn = [(''issuer'', Prop ''p'' ''issuer''), (''sub'', Prop ''p'' ''sub'')],
     qOrder = [], qLimit = Some (LimitIs 1)\<rparr>"

text \<open>Only the first record is read, and the error of reading is not asked for.\<close>

definition FindPublisherByDigest ::
    "'g graph_db \<Rightarrow> string \<Rightarrow> string \<Rightarrow> 'g \<Rightarrow> (string \<times> string) res option \<times> 'g" where
  "FindPublisherByDigest D subjectID digest g =
     (case run D g publisher_by_digest [(''digest'', CStr digest), (''subjectID'', CStr subjectID)] of
        (Inl err, g') \<Rightarrow> (Some (Inl err), g')
      | (Inr ([], _), g') \<Rightarrow> (Some (Inr ([], [])), g')
      | (Inr (rec # _, _), g') \<Rightarrow>
          (do { issuer \<leftarrow> as_string (value_of rec ''issuer'');
                sub \<leftarrow> as_string (value_of rec ''sub'');
                Some (Inr (issuer, sub)) }, g'))"

definition upsert_evidence :: query where
  "upsert_evidence = command
     [Match (node ''s'' ''Subject'' [(''id'', ''subjectID'')], []),
      Match (node ''p'' ''Publisher'' [(''issuer'', ''issuer''), (''sub'', ''sub'')], []),
      MergeNode (node ''e'' ''Evidence'' [(''logIndex'', ''logIndex'')]),
      SetProp ''e'' ''digest'' ''digest'',
      SetProp ''e'' ''receiptDigest'' ''receiptDigest'',
      SetProp ''e'' ''artifactType'' ''artifactType'',
      SetProp ''e'' ''status'' ''status'',
      SetProp ''e'' ''sealed'' ''sealed'',
      MergeRel ''e'' ''TARGETS'' ''s'',
      MergeRel ''e'' ''PUBLISHED_BY'' ''p'']"

definition UpsertEvidence :: "'g graph_db \<Rightarrow> EvidenceRecord \<Rightarrow> 'g \<Rightarrow> goerr option \<times> 'g" where
  "UpsertEvidence D ev =
     exec D upsert_evidence
       [(''logIndex'', CInt (evLogIndex ev)), (''digest'', CStr (evDigest ev)),
        (''receiptDigest'', CStr (evReceiptDigest ev)), (''artifactType'', CStr (evArtifactType ev)),
        (''status'', CStr (evStatus ev)), (''sealed'', CLocal (evSealed ev)),
        (''subjectID'', CStr (evSubjectID ev)), (''issuer'', CStr (evPublisherIssuer ev)),
        (''sub'', CStr (evPublisherSub ev))]"

definition UpsertEntity :: "'g graph_db \<Rightarrow> EntityRecord \<Rightarrow> 'g \<Rightarrow> goerr option \<times> 'g" where
  "UpsertEntity D entity =
     exec D (command
       [MergeNode (node ''n'' (enLabel entity) [(''id'', ''id'')]),
        SetAll ''n'' ''properties'',
        WithVars [''n''],
        Match (node ''e'' ''Evidence'' [(''logIndex'', ''logIndex'')], []),
        MergeRel ''e'' ''DEFINES'' ''n''])
       [(''id'', CStr (enID entity)), (''properties'', CMap (enProperties entity)),
        (''logIndex'', CInt (enEvidenceLogIndex entity))]"

definition UpsertEdge :: "'g graph_db \<Rightarrow> EdgeRecord \<Rightarrow> 'g \<Rightarrow> goerr option \<times> 'g" where
  "UpsertEdge D edge =
     exec D (command
       [Match (node ''from'' (edFromLabel edge) [(''id'', ''fromID'')], []),
        Match (node ''to'' (edToLabel edge) [(''id'', ''toID'')], []),
        MergeRel ''from'' (edEdgeType edge) ''to''])
       [(''fromID'', CStr (edFromID edge)), (''toID'', CStr (edToID edge))]"

section \<open>Threat model\<close>

text \<open>The records of a result read to its end; \<^verbatim>\<open>Err\<close> is not consulted.\<close>

definition fetch :: "'g graph_db \<Rightarrow> query \<Rightarrow> props \<Rightarrow> 'g \<Rightarrow> props list res \<times> 'g" where
  "fetch D q ps g = (case run D g q ps of (Inl err, g') \<Rightarrow> (Inl err, g') | (Inr (rows, _), g') \<Rightarrow> (Inr rows, g'))"

definition from_subject :: "string \<Rightarrow> string \<Rightarrow> clause" where
  "from_subject v label =
     Match (node ''s'' ''Subject'' [(''id'', ''subjectID'')],
            [(Incoming, ''TARGETS'', node ''e'' ''Evidence'' []), (Outgoing, ''DEFINES'', node v label [])])"

definition of_publisher :: clause where
  "of_publisher = Match (bound ''e'', [(Outgoing, ''PUBLISHED_BY'', node ''p'' ''Publisher'' [])])"

definition source_items :: "(string \<times> item) list" where
  "source_items = [(''logIndex'', Prop ''e'' ''logIndex''), (''digest'', Prop ''e'' ''digest''),
     (''sealed'', Prop ''e'' ''sealed''), (''issuer'', Prop ''p'' ''issuer''), (''sub'', Prop ''p'' ''sub'')]"

definition cap_query :: query where
  "cap_query = \<lparr>qClauses = [from_subject ''c'' ''Capability'', of_publisher],
     qReturn = [(''id'', Prop ''c'' ''id''), (''title'', Prop ''c'' ''title''),
                (''description'', Prop ''c'' ''description'')] @ source_items,
     qOrder = [], qLimit = None\<rparr>"

definition threat_query :: query where
  "threat_query = \<lparr>qClauses = [from_subject ''t'' ''Threat'', of_publisher],
     qReturn = [(''id'', Prop ''t'' ''id''), (''title'', Prop ''t'' ''title''),
                (''description'', Prop ''t'' ''description'')] @ source_items,
     qOrder = [], qLimit = None\<rparr>"

definition control_query :: query where
  "control_query = \<lparr>qClauses = [from_subject ''c'' ''Control'', of_publisher],
     qReturn = [(''id'', Prop ''c'' ''id''), (''title'', Prop ''c'' ''title''),
                (''objective'', Prop ''c'' ''objective''),
                (''assessmentRequirements'', Prop ''c'' ''assessmentRequirements'')] @ source_items,
     qOrder = [], qLimit = None\<rparr>"

definition vector_query :: query where
  "vector_query = \<lparr>qClauses = [from_subject ''v'' ''Vector''],
     qReturn = [(''id'', Prop ''v'' ''id''), (''title'', Prop ''v'' ''title''),
                (''description'', Prop ''v'' ''description'')],
     qOrder = [], qLimit = None\<rparr>"

text \<open>The edges of a type between two labels, with an end in a list of identifiers.\<close>

definition edge_query ::
    "string \<Rightarrow> string \<Rightarrow> string \<Rightarrow> string \<Rightarrow> string \<Rightarrow> string \<Rightarrow> string \<Rightarrow> (string \<times> string) \<times> (string \<times> string) \<Rightarrow> query" where
  "edge_query a la t b lb v param cols = \<lparr>qClauses =
       [Match (node a la [], [(Outgoing, t, node b lb [])]), Where [Cond v ''id'' IsIn param]],
     qReturn = [(fst (fst cols), Prop (snd (fst cols)) ''id''), (fst (snd cols), Prop (snd (snd cols)) ''id'')],
     qOrder = [], qLimit = None\<rparr>"

definition intro_query :: query where
  "intro_query = edge_query ''c'' ''Capability'' ''INTRODUCES'' ''t'' ''Threat'' ''c'' ''capIDs''
     ((''capID'', ''c''), (''threatID'', ''t''))"

definition address_query :: query where
  "address_query = edge_query ''ctrl'' ''Control'' ''ADDRESSES'' ''t'' ''Threat'' ''t'' ''threatIDs''
     ((''threatID'', ''t''), (''controlID'', ''ctrl''))"

definition leverage_query :: query where
  "leverage_query = edge_query ''t'' ''Threat'' ''LEVERAGES'' ''c'' ''Capability'' ''t'' ''threatIDs''
     ((''threatID'', ''t''), (''capID'', ''c''))"

definition applies_query :: query where
  "applies_query = edge_query ''c'' ''Control'' ''APPLIES'' ''g'' ''Guidance'' ''c'' ''controlIDs''
     ((''controlID'', ''c''), (''guidanceID'', ''g''))"

definition evidence_source :: "props \<Rightarrow> EvidenceSource option" where
  "evidence_source rec =
     do { logIndex \<leftarrow> as_int64 (value_of rec ''logIndex'');
          digest \<leftarrow> as_string (value_of rec ''digest'');
          issuer \<leftarrow> as_string (value_of rec ''issuer'');
          sub \<leftarrow> as_string (value_of rec ''sub'');
          Some \<lparr>soDigest = digest, soLogIndex = logIndex, soPublisher = \<lparr>piIssuer = issuer, piSub = sub\<rparr>,
                soSealed = toTime (value_of rec ''sealed'')\<rparr> }"

definition add_capability ::
    "props \<Rightarrow> (string \<times> ThreatModelCapability) list \<Rightarrow> (string \<times> ThreatModelCapability) list option" where
  "add_capability rec capMap =
     do { id \<leftarrow> as_string (value_of rec ''id'');
          source \<leftarrow> evidence_source rec;
          Some (assign id \<lparr>tcDescription = toString (value_of rec ''description''), tcId = id, tcIntroduces = [],
                           tcSource = source, tcTitle = toString (value_of rec ''title'')\<rparr> capMap) }"

definition add_threat ::
    "props \<Rightarrow> (string \<times> ThreatModelThreat) list \<Rightarrow> (string \<times> ThreatModelThreat) list option" where
  "add_threat rec threatMap =
     do { id \<leftarrow> as_string (value_of rec ''id'');
          source \<leftarrow> evidence_source rec;
          Some (assign id \<lparr>ttAddressedBy = [], ttDescription = toString (value_of rec ''description''), ttId = id,
                           ttLeverages = [], ttSource = source, ttTitle = toString (value_of rec ''title'')\<rparr> threatMap) }"

definition add_control ::
    "props \<Rightarrow> (string \<times> ThreatModelControl) list \<Rightarrow> (string \<times> ThreatModelControl) list option" where
  "add_control rec controlMap =
     do { id \<leftarrow> as_string (value_of rec ''id'');
          source \<leftarrow> evidence_source rec;
          Some (assign id \<lparr>tlApplies = [],
                           tlAssessmentRequirements = toStringSlice (value_of rec ''assessmentRequirements''), tlId = id,
                           tlObjective = toString (value_of rec ''objective''), tlSource = source,
                           tlTitle = toString (value_of rec ''title'')\<rparr> controlMap) }"

text \<open>Appending the second column of an edge record to the entry of the first; a missing entry is a nil pointer.\<close>

definition link :: "string \<Rightarrow> string \<Rightarrow> (string \<Rightarrow> 'a \<Rightarrow> 'a) \<Rightarrow> props \<Rightarrow> (string \<times> 'a) list \<Rightarrow> (string \<times> 'a) list option" where
  "link key other upd rec m =
     do { k \<leftarrow> as_string (value_of rec key);
          x \<leftarrow> map_of m k;
          y \<leftarrow> as_string (value_of rec other);
          Some (assign k (upd y x) m) }"

definition add_vector :: "props \<Rightarrow> ThreatModelVector list \<Rightarrow> ThreatModelVector list option" where
  "add_vector rec vectors =
     do { id \<leftarrow> as_string (value_of rec ''id'');
          Some (vectors @ [\<lparr>tvDescription = toString (value_of rec ''description''), tvId = id,
                            tvTitle = toString (value_of rec ''title'')\<rparr>]) }"

definition id_list :: "string list \<Rightarrow> cy_value" where
  "id_list ids = CList (map CStr ids)"

text \<open>
  Reading a result into a map; a query that is only sent when the map has keys; the answer of a panicking body.
  \<open>rng\<close> is the order in which a range over a map visits its keys.
\<close>

type_synonym ('a, 'g) step = "'g \<Rightarrow> 'a res option \<times> 'g"

definition read_into :: "'g graph_db \<Rightarrow> query \<Rightarrow> props \<Rightarrow> (props \<Rightarrow> 'm \<Rightarrow> 'm option) \<Rightarrow> 'm \<Rightarrow> ('m, 'g) step" where
  "read_into D q ps f m g =
     (case fetch D q ps g of
        (Inl err, g') \<Rightarrow> (Some (Inl err), g')
      | (Inr rows, g') \<Rightarrow> (case fold_opt f rows m of None \<Rightarrow> (None, g') | Some m' \<Rightarrow> (Some (Inr m'), g')))"

definition then_step :: "('a, 'g) step \<Rightarrow> ('a \<Rightarrow> ('b, 'g) step) \<Rightarrow> ('b, 'g) step" where
  "then_step s f g =
     (case s g of
        (None, g') \<Rightarrow> (None, g')
      | (Some (Inl err), g') \<Rightarrow> (Some (Inl err), g')
      | (Some (Inr x), g') \<Rightarrow> f x g')"

definition return_step :: "'a \<Rightarrow> ('a, 'g) step" where
  "return_step x g = (Some (Inr x), g)"

definition read_edges ::
    "'g graph_db \<Rightarrow> (string list \<Rightarrow> string list) \<Rightarrow> query \<Rightarrow> string \<Rightarrow> (props \<Rightarrow> (string \<times> 'a) list \<Rightarrow> (string \<times> 'a) list option)
       \<Rightarrow> (string \<times> 'a) list \<Rightarrow> ((string \<times> 'a) list, 'g) step" where
  "read_edges D rng q param f m g =
     (if m = [] then (Some (Inr m), g) else read_into D q [(param, id_list (rng (map fst m)))] f m g)"

definition map_values :: "(string list \<Rightarrow> string list) \<Rightarrow> (string \<times> 'a) list \<Rightarrow> 'a list" where
  "map_values rng m = concat (map (\<lambda>k. case map_of m k of None \<Rightarrow> [] | Some x \<Rightarrow> [x]) (rng (map fst m)))"

definition ThreatModel ::
    "'g graph_db \<Rightarrow> (string list \<Rightarrow> string list) \<Rightarrow> string \<Rightarrow> (ThreatModelResult, 'g) step" where
  "ThreatModel D rng subjectID =
     (let subj = [(''subjectID'', CStr subjectID)] in
      then_step (read_into D cap_query subj add_capability []) (\<lambda>caps.
      then_step (read_edges D rng intro_query ''capIDs''
        (link ''capID'' ''threatID'' (\<lambda>y c. c\<lparr>tcIntroduces := tcIntroduces c @ [y]\<rparr>)) caps) (\<lambda>capMap.
      then_step (read_into D threat_query subj add_threat []) (\<lambda>threats.
      then_step (read_edges D rng address_query ''threatIDs''
        (link ''threatID'' ''controlID'' (\<lambda>y t. t\<lparr>ttAddressedBy := ttAddressedBy t @ [y]\<rparr>)) threats) (\<lambda>addressed.
      then_step (read_edges D rng leverage_query ''threatIDs''
        (link ''threatID'' ''capID'' (\<lambda>y t. t\<lparr>ttLeverages := ttLeverages t @ [y]\<rparr>)) addressed) (\<lambda>threatMap.
      then_step (read_into D control_query subj add_control []) (\<lambda>controls.
      then_step (read_edges D rng applies_query ''controlIDs''
        (link ''controlID'' ''guidanceID'' (\<lambda>y c. c\<lparr>tlApplies := tlApplies c @ [y]\<rparr>)) controls) (\<lambda>controlMap.
      (\<lambda>g. case run D g vector_query subj of
         (Inl err, g') \<Rightarrow> (Some (Inl err), g')
       | (Inr (rows, e), g') \<Rightarrow>
           (case fold_opt add_vector rows [] of
              None \<Rightarrow> (None, g')
            | Some vectors \<Rightarrow>
                (case e of
                   Some err \<Rightarrow> (Some (Inl err), g')
                 | None \<Rightarrow>
                     (Some (Inr \<lparr>tmSubjectID = subjectID, tmCapabilities = map_values rng capMap,
                        tmThreats = map_values rng threatMap, tmControls = map_values rng controlMap,
                        tmVectors = vectors\<rparr>), g'))))))))))))"

section \<open>Summaries\<close>

definition evidence_path :: "node_pat \<Rightarrow> path_pat" where
  "evidence_path s = (s, [(Incoming, ''TARGETS'', node ''e'' ''Evidence'' []),
                          (Outgoing, ''PUBLISHED_BY'', node ''p'' ''Publisher'' [])])"

definition summary_query :: query where
  "summary_query = \<lparr>qClauses = [Match (evidence_path (node ''s'' ''Subject'' [(''id'', ''subjectID'')]))],
     qReturn = [(''evidenceCount'', CountDistinct ''e''), (''publisherCount'', CountDistinct ''p''),
                (''artifactType'', Prop ''e'' ''artifactType''), (''lastUpdated'', MaxOf ''e'' ''sealed''),
                (''typeCount'', CountAll ''e'')],
     qOrder = [''artifactType''], qLimit = None\<rparr>"

definition add_summary_row :: "props \<Rightarrow> bool \<times> SubjectSummaryResult \<Rightarrow> (bool \<times> SubjectSummaryResult) option" where
  "add_summary_row rec st =
     (case st of (firstRow, summary) \<Rightarrow>
      do { summary1 \<leftarrow>
             (if firstRow then
                do { evidenceCount \<leftarrow> as_int64 (value_of rec ''evidenceCount'');
                     publisherCount \<leftarrow> as_int64 (value_of rec ''publisherCount'');
                     Some (summary\<lparr>ssEvidenceCount := evidenceCount, ssPublisherCount := publisherCount\<rparr>) }
              else Some summary);
           if value_of rec ''artifactType'' \<noteq> CNull then
             do { artifactType \<leftarrow> as_string (value_of rec ''artifactType'');
                  typeCount \<leftarrow> as_int64 (value_of rec ''typeCount'');
                  Some (False, summary1\<lparr>ssArtifactTypes := assign artifactType
                    \<lparr>atCount = typeCount, atLastUpdated = toTime (value_of rec ''lastUpdated'')\<rparr> (ssArtifactTypes summary1)\<rparr>) }
           else Some (False, summary1) })"

definition SubjectSummary :: "'g graph_db \<Rightarrow> string \<Rightarrow> (SubjectSummaryResult, 'g) step" where
  "SubjectSummary D subjectID =
     then_step (read_into D summary_query [(''subjectID'', CStr subjectID)] add_summary_row
       (True, \<lparr>ssSubjectID = subjectID, ssEvidenceCount = 0, ssPublisherCount = 0, ssArtifactTypes = []\<rparr>))
     (\<lambda>(_, summary). return_step summary)"

definition list_query :: query where
  "list_query = \<lparr>qClauses = [Match (node ''s'' ''Subject'' [], []), OptionalMatch (evidence_path (bound ''s''))],
     qReturn = [(''subjectID'', Prop ''s'' ''id''), (''evidenceCount'', CountDistinct ''e''),
                (''publisherCount'', CountDistinct ''p''),
                (''artifacts'', CollectDistinct [(''type'', ''e'', ''artifactType''), (''sealed'', ''e'', ''sealed'')])],
     qOrder = [], qLimit = None\<rparr>"

definition add_artifact :: "cy_value \<Rightarrow> (string \<times> time list) list \<Rightarrow> (string \<times> time list) list option" where
  "add_artifact art typeMap =
     (case art of
        CMap artMap \<Rightarrow>
          if value_of artMap ''type'' = CNull then Some typeMap
          else do { typeName \<leftarrow> as_string (value_of artMap ''type'');
                    if value_of artMap ''sealed'' = CNull then Some typeMap
                    else Some (assign typeName
                      ((case map_of typeMap typeName of None \<Rightarrow> [] | Some ts \<Rightarrow> ts) @ [toTime (value_of artMap ''sealed'')])
                      typeMap) }
      | _ \<Rightarrow> None)"

definition max_time :: "time list \<Rightarrow> time" where
  "max_time ts = fold (\<lambda>t m. if t > m then t else m) ts zero_time"

definition add_subject :: "props \<Rightarrow> SubjectSummaryResult list \<Rightarrow> SubjectSummaryResult list option" where
  "add_subject rec subjects =
     do { subjectID \<leftarrow> as_string (value_of rec ''subjectID'');
          evidenceCount \<leftarrow> as_int64 (value_of rec ''evidenceCount'');
          publisherCount \<leftarrow> as_int64 (value_of rec ''publisherCount'');
          types \<leftarrow> (case value_of rec ''artifacts'' of
                      CNull \<Rightarrow> Some []
                    | CList artList \<Rightarrow> fold_opt add_artifact artList []
                    | _ \<Rightarrow> None);
          Some (subjects @ [\<lparr>ssSubjectID = subjectID, ssEvidenceCount = evidenceCount, ssPublisherCount = publisherCount,
             ssArtifactTypes = map (\<lambda>(typeName, ts).
               (typeName, \<lparr>atCount = int (length ts), atLastUpdated = max_time ts\<rparr>)) types\<rparr>]) }"

definition ListSubjects :: "'g graph_db \<Rightarrow> (SubjectSummaryResult list, 'g) step" where
  "ListSubjects D = read_into D list_query [] add_subject []"

section \<open>Evidence lists\<close>

text \<open>Machine integers of 64 bits.\<close>

definition wrap64 :: "int \<Rightarrow> int" where
  "wrap64 i = (i + 2 ^ 63) mod 2 ^ 64 - 2 ^ 63"

definition filter_conditions :: "EvidenceFilter \<Rightarrow> condition list \<times> props" where
  "filter_conditions flt =
     (let (cs, ps) = ([], []);
          (cs, ps) = (case efArtifactType flt of None \<Rightarrow> (cs, ps)
             | Some t \<Rightarrow> (cs @ [Cond ''e'' ''artifactType'' IsEqual ''artifactType''], ps @ [(''artifactType'', CStr t)]));
          (cs, ps) = (case efSince flt of None \<Rightarrow> (cs, ps)
             | Some t \<Rightarrow> (cs @ [Cond ''e'' ''sealed'' AtLeast ''since''], ps @ [(''since'', CZoned t)]));
          (cs, ps) = (case efBefore flt of None \<Rightarrow> (cs, ps)
             | Some t \<Rightarrow> (cs @ [Cond ''e'' ''sealed'' Less ''before''], ps @ [(''before'', CZoned t)]))
      in (case efCursor flt of None \<Rightarrow> (cs, ps)
          | Some cursor \<Rightarrow>
            (case std_decode cursor of None \<Rightarrow> (cs, ps)
             | Some decoded \<Rightarrow>
                 (cs @ [Cond ''e'' ''logIndex'' Greater ''cursorIndex''],
                  ps @ [(''cursorIndex'', CInt (snd (parse_int64 decoded)))]))))"

definition evidence_query :: "condition list \<Rightarrow> query" where
  "evidence_query cs = \<lparr>qClauses =
       [Match (evidence_path (node ''s'' ''Subject'' [])), Where (Cond ''s'' ''id'' IsEqual ''subjectID'' # cs)],
     qReturn = [(''logIndex'', Prop ''e'' ''logIndex''), (''digest'', Prop ''e'' ''digest''),
                (''artifactType'', Prop ''e'' ''artifactType''), (''status'', Prop ''e'' ''status''),
                (''sealed'', Prop ''e'' ''sealed''), (''issuer'', Prop ''p'' ''issuer''), (''sub'', Prop ''p'' ''sub'')],
     qOrder = [''logIndex''], qLimit = Some (LimitParam ''limit'')\<rparr>"

definition evidence_item :: "props \<Rightarrow> EvidenceItem option" where
  "evidence_item rec =
     do { logIndex \<leftarrow> as_int64 (value_of rec ''logIndex'');
          digest \<leftarrow> as_string (value_of rec ''digest'');
          artifactType \<leftarrow> as_string (value_of rec ''artifactType'');
          status \<leftarrow> as_string (value_of rec ''status'');
          issuer \<leftarrow> as_string (value_of rec ''issuer'');
          sub \<leftarrow> as_string (value_of rec ''sub'');
          Some \<lparr>eiArtifactType' = artifactType, eiDigest' = digest, eiLogIndex' = logIndex,
                eiPublisher' = \<lparr>piIssuer = issuer, piSub = sub\<rparr>, eiSealed' = toTime (value_of rec ''sealed''),
                eiStatus' = status\<rparr> }"

definition page_limit :: "EvidenceFilter \<Rightarrow> int" where
  "page_limit flt = (case efLimit flt of None \<Rightarrow> 50 | Some n \<Rightarrow> if n > 0 then n else 50)"

definition encode_cursor :: "int \<Rightarrow> string" where
  "encode_cursor logIndex = std_encode (show_int logIndex)"

definition cut_page :: "string \<Rightarrow> int \<Rightarrow> EvidenceItem list \<Rightarrow> EvidenceResult" where
  "cut_page subjectID limit items =
     (if int (length items) > limit
      then \<lparr>erSubjectID = subjectID, erEvidence = take (nat limit) items,
            erNextCursor = Some (encode_cursor (eiLogIndex' (items ! (nat limit - 1))))\<rparr>
      else \<lparr>erSubjectID = subjectID, erEvidence = items, erNextCursor = None\<rparr>)"

definition Evidence :: "'g graph_db \<Rightarrow> string \<Rightarrow> EvidenceFilter \<Rightarrow> (EvidenceResult, 'g) step" where
  "Evidence D subjectID flt =
     (case filter_conditions flt of (cs, ps) \<Rightarrow>
      let limit = page_limit flt in
      then_step
        (read_into D (evidence_query cs)
           ((''subjectID'', CStr subjectID) # ps @ [(''limit'', CInt (wrap64 (limit + 1)))])
           (\<lambda>rec items. map_option (\<lambda>it. items @ [it]) (evidence_item rec)) [])
        (\<lambda>items. return_step (cut_page subjectID limit items)))"

section \<open>Coverage\<close>

definition catalog_controls :: query where
  "catalog_controls = \<lparr>qClauses = [from_subject ''c'' ''Control'', Where [Cond ''c'' ''catalogID'' IsEqual ''catalogID'']],
     qReturn = [(''id'', Prop ''c'' ''id''), (''title'', Prop ''c'' ''title'')], qOrder = [], qLimit = None\<rparr>"

definition coverage_query :: query where
  "coverage_query = \<lparr>qClauses =
       [Match (node ''s'' ''Subject'' [(''id'', ''subjectID'')],
               [(Incoming, ''TARGETS'', node ''e'' ''Evidence'' []),
                (Outgoing, ''DEFINES'', node ''f'' ''EvaluationFinding'' []),
                (Outgoing, ''EVALUATES'', node ''c'' ''Control'' [])]),
        Where [Cond ''c'' ''catalogID'' IsEqual ''catalogID'']],
     qReturn = [(''controlID'', Prop ''c'' ''id''), (''latestEvidence'', MaxOf ''e'' ''sealed'')],
     qOrder = [], qLimit = None\<rparr>"

definition add_control_info :: "props \<Rightarrow> (string \<times> string) list \<Rightarrow> (string \<times> string) list option" where
  "add_control_info rec controls =
     do { id \<leftarrow> as_string (value_of rec ''id''); Some (controls @ [(id, toString (value_of rec ''title''))]) }"

definition add_covered :: "props \<Rightarrow> (string \<times> time) list \<Rightarrow> (string \<times> time) list option" where
  "add_covered rec coveredMap =
     (if value_of rec ''latestEvidence'' = CNull then Some coveredMap
      else do { controlID \<leftarrow> as_string (value_of rec ''controlID'');
                Some (assign controlID (toTime (value_of rec ''latestEvidence'')) coveredMap) })"

definition coverage_control :: "(string \<times> time) list \<Rightarrow> string \<times> string \<Rightarrow> CoverageControl" where
  "coverage_control coveredMap ctrl =
     \<lparr>ccId = fst ctrl, ccLatestEvidence = map_of coveredMap (fst ctrl),
      ccStatus = (case map_of coveredMap (fst ctrl) of None \<Rightarrow> Uncovered | Some t \<Rightarrow> Covered), ccTitle = snd ctrl\<rparr>"

definition Coverage :: "'g graph_db \<Rightarrow> string \<Rightarrow> string \<Rightarrow> (CoverageResult, 'g) step" where
  "Coverage D subjectID catalogID =
     (let ps = [(''subjectID'', CStr subjectID), (''catalogID'', CStr catalogID)] in
      then_step (read_into D catalog_controls ps add_control_info []) (\<lambda>controls.
      then_step (read_into D coverage_query ps add_covered []) (\<lambda>coveredMap.
      return_step
        \<lparr>crSubjectID = subjectID, crCatalog = catalogID, crCatalogType = ''ControlCatalog'',
         crCovered = int (length coveredMap), crTotal = int (length controls),
         crControls = map (coverage_control coveredMap) controls\<rparr>)))"

end
