(* ===== verification/GraphSpec.thy ===== *)
theory GraphSpec
  imports GraphWriter
begin

text \<open>
  What the upserts of \<^verbatim>\<open>internal/graph/writer.go\<close> promise, as functions on a keyed graph: nodes are known by a
  label and the properties that identify them, relationships by the nodes they join.  Every upsert refines its
  specification on a graph in which the keys are unique, and keeps the keys unique.
\<close>

section \<open>Keyed graphs\<close>

type_synonym nkey = "string \<times> cy_value list"

definition key_names :: "string \<Rightarrow> string list" where
  "key_names l =
     (if l = ''Publisher'' then [''issuer'', ''sub''] else if l = ''IngestedStub'' then [''digest'', ''subjectId'']
      else if l = ''Evidence'' then [''logIndex''] else [''id''])"

definition key_of :: "cy_node \<Rightarrow> nkey" where
  "key_of nd = (ndLabel nd, map (value_of (ndProps nd)) (key_names (ndLabel nd)))"

definition keyed :: "graph \<Rightarrow> bool" where
  "keyed G \<longleftrightarrow> distinct (map key_of (gNodes G)) \<and> (\<forall>nd \<in> set (gNodes G). CNull \<notin> set (snd (key_of nd)))
     \<and> (\<forall>(i, t, j) \<in> set (gRels G). i < length (gNodes G) \<and> j < length (gNodes G)) \<and> distinct (gRels G)"

record kgraph =
  kgNodes :: "nkey \<rightharpoonup> (string \<Rightarrow> cy_value)"
  kgRels :: "(nkey \<times> string \<times> nkey) set"

definition abs_graph :: "graph \<Rightarrow> kgraph" where
  "abs_graph G = \<lparr>kgNodes = map_of (map (\<lambda>nd. (key_of nd, value_of (ndProps nd))) (gNodes G)),
     kgRels = (\<lambda>(i, t, j). (key_of (gNodes G ! i), t, key_of (gNodes G ! j))) ` set (gRels G)\<rparr>"

text \<open>The position of the node with a key.\<close>

definition pos :: "graph \<Rightarrow> nkey \<Rightarrow> nat option" where
  "pos G k = find (\<lambda>i. key_of (gNodes G ! i) = k) [0..<length (gNodes G)]"

section \<open>Specification\<close>

definition k_merge :: "nkey \<Rightarrow> kgraph \<Rightarrow> kgraph" where
  "k_merge k K =
     (if k \<in> dom (kgNodes K) then K
      else K\<lparr>kgNodes := (kgNodes K)(k \<mapsto> value_of (zip (key_names (fst k)) (snd k)))\<rparr>)"

definition k_set :: "nkey \<Rightarrow> props \<Rightarrow> kgraph \<Rightarrow> kgraph" where
  "k_set k ps K =
     (case kgNodes K k of
        None \<Rightarrow> K
      | Some f \<Rightarrow> K\<lparr>kgNodes := (kgNodes K)(k \<mapsto> fold (\<lambda>(x, v) f. f(x := v)) ps f)\<rparr>)"

definition k_rel :: "nkey \<Rightarrow> string \<Rightarrow> nkey \<Rightarrow> kgraph \<Rightarrow> kgraph" where
  "k_rel a t b K = K\<lparr>kgRels := insert (a, t, b) (kgRels K)\<rparr>"

definition subject_key :: "string \<Rightarrow> nkey" where
  "subject_key s = (''Subject'', [CStr s])"
definition publisher_key :: "string \<Rightarrow> string \<Rightarrow> nkey" where
  "publisher_key iss sub = (''Publisher'', [CStr iss, CStr sub])"
definition stub_key :: "string \<Rightarrow> string \<Rightarrow> nkey" where
  "stub_key d s = (''IngestedStub'', [CStr d, CStr s])"
definition evidence_key :: "int \<Rightarrow> nkey" where
  "evidence_key i = (''Evidence'', [CInt i])"
definition entity_key :: "string \<Rightarrow> string \<Rightarrow> nkey" where
  "entity_key l x = (l, [CStr x])"

definition spec_stub :: "string \<Rightarrow> string \<Rightarrow> string \<Rightarrow> string \<Rightarrow> kgraph \<Rightarrow> kgraph" where
  "spec_stub d s iss sub K =
     (if subject_key s \<in> dom (kgNodes K) \<and> publisher_key iss sub \<in> dom (kgNodes K)
      then k_rel (stub_key d s) ''PUBLISHED_BY'' (publisher_key iss sub)
             (k_rel (stub_key d s) ''TARGETS'' (subject_key s) (k_merge (stub_key d s) K))
      else K)"

definition evidence_props :: "EvidenceRecord \<Rightarrow> props" where
  "evidence_props ev = [(''digest'', CStr (evDigest ev)), (''receiptDigest'', CStr (evReceiptDigest ev)),
     (''artifactType'', CStr (evArtifactType ev)), (''status'', CStr (evStatus ev)), (''sealed'', CLocal (evSealed ev))]"

definition spec_evidence :: "EvidenceRecord \<Rightarrow> kgraph \<Rightarrow> kgraph" where
  "spec_evidence ev K =
     (let s = subject_key (evSubjectID ev); p = publisher_key (evPublisherIssuer ev) (evPublisherSub ev);
          e = evidence_key (evLogIndex ev)
      in if s \<in> dom (kgNodes K) \<and> p \<in> dom (kgNodes K)
         then k_rel e ''PUBLISHED_BY'' p (k_rel e ''TARGETS'' s (k_set e (evidence_props ev) (k_merge e K)))
         else K)"

definition spec_entity :: "EntityRecord \<Rightarrow> kgraph \<Rightarrow> kgraph" where
  "spec_entity en K =
     (let n = entity_key (enLabel en) (enID en); e = evidence_key (enEvidenceLogIndex en);
          K' = k_set n (enProperties en) (k_merge n K)
      in if e \<in> dom (kgNodes K') then k_rel e ''DEFINES'' n K' else K')"

definition spec_edge :: "EdgeRecord \<Rightarrow> kgraph \<Rightarrow> kgraph" where
  "spec_edge ed K =
     (let a = entity_key (edFromLabel ed) (edFromID ed); b = entity_key (edToLabel ed) (edToID ed)
      in if a \<in> dom (kgNodes K) \<and> b \<in> dom (kgNodes K) then k_rel a (edEdgeType ed) b K else K)"

text \<open>Labels whose nodes are identified by \<^verbatim>\<open>id\<close>, other than subjects, and properties that leave it alone.\<close>

definition entity_label :: "string \<Rightarrow> bool" where
  "entity_label l \<longleftrightarrow> l \<notin> {''Subject'', ''Publisher'', ''IngestedStub'', ''Evidence''}"

definition entity_ok :: "EntityRecord \<Rightarrow> bool" where
  "entity_ok en \<longleftrightarrow> entity_label (enLabel en) \<and> ''id'' \<notin> fst ` set (enProperties en)"

section \<open>Concrete steps\<close>

lemma pos_Some: "pos G k = Some i \<Longrightarrow> i < length (gNodes G) \<and> key_of (gNodes G ! i) = k"
  unfolding pos_def using find_Some_set by fastforce

lemma pos_None: "pos G k = None \<longleftrightarrow> k \<notin> key_of ` set (gNodes G)"
  unfolding pos_def find_None_all by (force simp: in_set_conv_nth)

lemma keyed_pos: "keyed G \<Longrightarrow> i < length (gNodes G) \<Longrightarrow> pos G (key_of (gNodes G ! i)) = Some i"
proof -
  assume G: "keyed G" and i: "i < length (gNodes G)"
  have "pos G (key_of (gNodes G ! i)) \<noteq> None" using i by (auto simp: pos_None)
  then obtain j where j: "pos G (key_of (gNodes G ! i)) = Some j" by blast
  have "j < length (gNodes G)" "key_of (gNodes G ! j) = key_of (gNodes G ! i)" using pos_Some [OF j] by auto
  then have "j = i" using G i by (simp add: keyed_def distinct_conv_nth) metis
  then show ?thesis using j by simp
qed

lemma keyed_eq_pos:
  assumes "keyed G"
  shows "i < length (gNodes G) \<and> key_of (gNodes G ! i) = k \<longleftrightarrow> pos G k = Some i"
  using assms keyed_pos pos_Some by blast

lemma dom_abs: "k \<in> dom (kgNodes (abs_graph G)) \<longleftrightarrow> pos G k \<noteq> None"
  by (auto simp: abs_graph_def pos_None dom_map_of_conv_image_fst image_image)

text \<open>A pattern with the identifying properties of its label.\<close>

definition key_pat :: "props \<Rightarrow> node_pat \<Rightarrow> nkey \<Rightarrow> bool" where
  "key_pat ps np k \<longleftrightarrow> npLabel np = Some (fst k) \<and> map fst (npProps np) = key_names (fst k)
     \<and> map (\<lambda>(x, p). value_of ps p) (npProps np) = snd k \<and> CNull \<notin> set (snd k)"

lemma equal_values_map:
  "CNull \<notin> f ` set xs \<Longrightarrow> list_all (\<lambda>x. equal_values (g x) (f x)) xs \<longleftrightarrow> map g xs = map f xs"
  by (induction xs) (auto simp: equal_values_def)

lemma node_ok_key: "key_pat ps np k \<Longrightarrow> node_ok G ps np i \<longleftrightarrow> i < length (gNodes G) \<and> key_of (gNodes G ! i) = k"
proof -
  assume k: "key_pat ps np k"
  let ?v = "value_of (ndProps (gNodes G ! i))"
  have ks: "key_names (fst k) = map fst (npProps np)" and vs: "snd k = map (\<lambda>x. value_of ps (snd x)) (npProps np)"
    using k by (auto simp: key_pat_def case_prod_unfold)
  have "CNull \<notin> set (snd k)" using k by (simp add: key_pat_def)
  then have "list_all (\<lambda>x. equal_values (?v (fst x)) (value_of ps (snd x))) (npProps np) \<longleftrightarrow> map ?v (key_names (fst k)) = snd k"
    unfolding ks vs map_map comp_def by (intro equal_values_map) simp
  then show ?thesis using k by (cases k) (auto simp: node_ok_def key_pat_def key_of_def case_prod_unfold)
qed

lemma bind_key:
  assumes "keyed G" "key_pat ps np k" "map_of row (npVar np) = None"
  shows "bind_node G ps np row = (case pos G k of None \<Rightarrow> [] | Some i \<Rightarrow> [(npVar np, Some i) # row])"
proof -
  have "filter (node_ok G ps np) [0..<length (gNodes G)] = (case pos G k of None \<Rightarrow> [] | Some i \<Rightarrow> [i])"
  proof (cases "pos G k")
    case None
    then have "\<not> node_ok G ps np i" for i
      using node_ok_key [OF assms(2)] keyed_eq_pos [OF assms(1)] by simp
    then show ?thesis using None by simp
  next
    case (Some i)
    then have *: "node_ok G ps np j \<longleftrightarrow> j = i" for j
      using node_ok_key [OF assms(2)] keyed_eq_pos [OF assms(1), of j k] by auto
    have "filter (\<lambda>j. j = i) [0..<n] = (if i < n then [i] else [])" for n
      by (induction n) auto
    moreover have "i < length (gNodes G)" using pos_Some [OF Some] by simp
    ultimately show ?thesis using Some by (simp add: * cong: filter_cong)
  qed
  then show ?thesis using assms(3) by (auto simp: bind_node_def split: option.splits)
qed

text \<open>Adding a node, changing properties of a node and adding a relationship, on both levels.\<close>

lemma keyed_append:
  assumes "keyed G" "pos G (key_of nd) = None" "CNull \<notin> set (snd (key_of nd))"
  shows "keyed (G\<lparr>gNodes := gNodes G @ [nd]\<rparr>)"
    and "abs_graph (G\<lparr>gNodes := gNodes G @ [nd]\<rparr>)
      = (abs_graph G)\<lparr>kgNodes := (kgNodes (abs_graph G))(key_of nd \<mapsto> value_of (ndProps nd))\<rparr>"
proof -
  have new: "key_of nd \<notin> key_of ` set (gNodes G)" using assms(2) by (simp add: pos_None)
  show "keyed (G\<lparr>gNodes := gNodes G @ [nd]\<rparr>)" using assms new by (fastforce simp: keyed_def)
  have r: "(i, t, j) \<in> set (gRels G) \<Longrightarrow> i < length (gNodes G) \<and> j < length (gNodes G)" for i t j
    using assms(1) by (auto simp: keyed_def)
  have "map_of (xs @ [(k, v)]) = (map_of xs)(k \<mapsto> v)" if "k \<notin> fst ` set xs" for xs and k :: nkey and v :: "string \<Rightarrow> cy_value"
    using that by (induction xs) (auto simp: fun_upd_twist)
  then show "abs_graph (G\<lparr>gNodes := gNodes G @ [nd]\<rparr>)
      = (abs_graph G)\<lparr>kgNodes := (kgNodes (abs_graph G))(key_of nd \<mapsto> value_of (ndProps nd))\<rparr>"
    using new r by (auto simp: abs_graph_def nth_append image_image intro!: image_cong)
qed

lemma pos_append:
  "pos (G\<lparr>gNodes := gNodes G @ [nd]\<rparr>) k
     = (case pos G k of Some i \<Rightarrow> Some i | None \<Rightarrow> if key_of nd = k then Some (length (gNodes G)) else None)"
proof -
  have "find P (xs @ [x]) = (case find P xs of Some y \<Rightarrow> Some y | None \<Rightarrow> if P x then Some x else None)" for P :: "nat \<Rightarrow> bool" and xs x
    by (induction xs) auto
  moreover have "find (\<lambda>i. key_of ((gNodes G @ [nd]) ! i) = k) [0..<length (gNodes G)] = pos G k"
    unfolding pos_def by (rule find_cong) (auto simp: nth_append)
  ultimately show ?thesis by (simp add: pos_def [of "G\<lparr>gNodes := gNodes G @ [nd]\<rparr>"])
qed

lemma pos_rels [simp]: "pos (G\<lparr>gRels := rs\<rparr>) k = pos G k"
  by (simp add: pos_def)

lemma keyed_update:
  fixes f :: "props \<Rightarrow> props"
  assumes "keyed G" "pos G k = Some i" "nd = (gNodes G ! i)\<lparr>ndProps := ps\<rparr>" "key_of nd = k"
  shows "keyed (G\<lparr>gNodes := (gNodes G)[i := nd]\<rparr>)" "pos (G\<lparr>gNodes := (gNodes G)[i := nd]\<rparr>) k' = pos G k'"
    and "abs_graph (G\<lparr>gNodes := (gNodes G)[i := nd]\<rparr>)
      = (abs_graph G)\<lparr>kgNodes := (kgNodes (abs_graph G))(k \<mapsto> value_of ps)\<rparr>"
proof -
  have i: "i < length (gNodes G)" "key_of (gNodes G ! i) = k" using pos_Some [OF assms(2)] by auto
  have keys: "map key_of ((gNodes G)[i := nd]) = map key_of (gNodes G)"
    using i assms(4) by (metis list_update_id map_update nth_map length_map)
  then have nth: "key_of ((gNodes G)[i := nd] ! j) = key_of (gNodes G ! j)" if "j < length (gNodes G)" for j
    using that by (metis length_list_update nth_map)
  have "CNull \<notin> set (snd k)" using assms(1) i by (auto simp: keyed_def)
  then have "\<forall>x \<in> set ((gNodes G)[i := nd]). CNull \<notin> set (snd (key_of x))"
    using assms(1,4) by (auto simp: keyed_def dest!: set_update_subset_insert [THEN subsetD])
  then show "keyed (G\<lparr>gNodes := (gNodes G)[i := nd]\<rparr>)" using assms(1) keys by (simp add: keyed_def)
  show "pos (G\<lparr>gNodes := (gNodes G)[i := nd]\<rparr>) k' = pos G k'"
    unfolding pos_def by (auto simp: nth intro!: find_cong)
  have "distinct (map key_of (gNodes G))" using assms(1) by (simp add: keyed_def)
  then have "map_of (map (\<lambda>x. (key_of x, value_of (ndProps x))) ((gNodes G)[i := nd]))
      = (map_of (map (\<lambda>x. (key_of x, value_of (ndProps x))) (gNodes G)))(k \<mapsto> value_of ps)"
    using i assms(3,4)
  proof (induction "gNodes G" arbitrary: G i)
    case (Cons y ys)
    show ?case
    proof (cases i)
      case 0
      then show ?thesis using Cons.prems Cons.hyps(2) [symmetric] by auto
    next
      case (Suc j)
      have "ys ! j \<in> set ys" using Cons.prems Cons.hyps(2) [symmetric] Suc by simp
      then have "key_of (ys ! j) \<in> key_of ` set ys" by (rule imageI)
      then have "k \<noteq> key_of y" using Cons.prems(1,3) Cons.hyps(2) [symmetric] Suc by auto
      then show ?thesis
        using Cons.hyps(1) [of "G\<lparr>gNodes := ys\<rparr>" j] Cons.prems Cons.hyps(2) [symmetric] Suc
        by (auto simp: fun_upd_twist)
    qed
  qed simp
  moreover have "(\<lambda>(i', t, j). (key_of ((gNodes G)[i := nd] ! i'), t, key_of ((gNodes G)[i := nd] ! j))) ` set (gRels G)
      = (\<lambda>(i', t, j). (key_of (gNodes G ! i'), t, key_of (gNodes G ! j))) ` set (gRels G)"
    using assms(1) nth by (intro image_cong) (auto simp: keyed_def)
  ultimately show "abs_graph (G\<lparr>gNodes := (gNodes G)[i := nd]\<rparr>)
      = (abs_graph G)\<lparr>kgNodes := (kgNodes (abs_graph G))(k \<mapsto> value_of ps)\<rparr>"
    by (simp add: abs_graph_def)
qed

lemma keyed_rel:
  assumes "keyed G" "pos G a = Some i" "pos G b = Some j"
  shows "keyed (if (i, t, j) \<in> set (gRels G) then G else G\<lparr>gRels := gRels G @ [(i, t, j)]\<rparr>)"
    and "abs_graph (if (i, t, j) \<in> set (gRels G) then G else G\<lparr>gRels := gRels G @ [(i, t, j)]\<rparr>) = k_rel a t b (abs_graph G)"
proof -
  have i: "i < length (gNodes G)" "key_of (gNodes G ! i) = a" "j < length (gNodes G)" "key_of (gNodes G ! j) = b"
    using pos_Some [OF assms(2)] pos_Some [OF assms(3)] by auto
  then show "keyed (if (i, t, j) \<in> set (gRels G) then G else G\<lparr>gRels := gRels G @ [(i, t, j)]\<rparr>)"
    using assms(1) by (auto simp: keyed_def)
  have "(a, t, b) \<in> kgRels (abs_graph G)" if "(i, t, j) \<in> set (gRels G)"
    using that i by (force simp: abs_graph_def)
  then show "abs_graph (if (i, t, j) \<in> set (gRels G) then G else G\<lparr>gRels := gRels G @ [(i, t, j)]\<rparr>) = k_rel a t b (abs_graph G)"
    using i by (auto simp: k_rel_def insert_absorb) (auto simp: abs_graph_def)
qed

section \<open>Clauses on one row\<close>

text \<open>One row whose variables stand for nodes with known keys.\<close>

definition tracks :: "kgraph \<Rightarrow> (string \<times> nkey) list \<Rightarrow> graph \<Rightarrow> row \<Rightarrow> bool" where
  "tracks K env G row \<longleftrightarrow> keyed G \<and> abs_graph G = K \<and> fst ` set row = fst ` set env
     \<and> (\<forall>v k. map_of env v = Some k \<longrightarrow> (\<exists>i. map_of row v = Some (Some i) \<and> pos G k = Some i))"

lemma tracks_start: "keyed G \<Longrightarrow> tracks (abs_graph G) [] G []"
  by (simp add: tracks_def)

lemma tracks_unbound: "tracks K env G row \<Longrightarrow> map_of env v = None \<Longrightarrow> map_of row v = None"
  by (auto simp: tracks_def map_of_eq_None_iff)

lemma tracks_bind: "tracks K env G row \<Longrightarrow> pos G k = Some i \<Longrightarrow> tracks K ((v, k) # env) G ((v, Some i) # row)"
  by (cases k) (simp add: tracks_def)

lemma tracks_graph:
  assumes "tracks K env G row" "keyed G'" "abs_graph G' = K'" "\<And>k i. pos G k = Some i \<Longrightarrow> pos G' k = Some i"
  shows "tracks K' env G' row"
  using assms unfolding tracks_def by metis

lemma run_rows_one [simp]: "run_rows ps c [r] G = run_row ps c r G"
  by (simp split: prod.splits)

lemma run_clauses_none [simp]: "run_clauses ps cs [] G = (G, [])"
  by (induction cs) auto

lemma match_node [simp]: "match_path G ps (np, []) row = bind_node G ps np row"
proof -
  have "match_steps G ps v [] = (\<lambda>r. [r])" for v by (rule ext) simp
  then show ?thesis by (simp add: match_path_def)
qed

lemma value_of_zip:
  assumes "distinct ks" "length ks = length vs"
  shows "map (value_of (zip ks vs)) ks = vs"
  by (rule nth_equalityI) (use assms in \<open>auto simp: value_of_def map_of_zip_nth\<close>)

lemma new_node_props: "key_pat ps np k \<Longrightarrow> ndProps (new_node ps np) = zip (key_names (fst k)) (snd k)"
proof -
  assume "key_pat ps np k"
  then have "key_names (fst k) = map fst (npProps np)" "snd k = map (\<lambda>(x, p). value_of ps p) (npProps np)"
    by (simp_all add: key_pat_def)
  then show ?thesis by (simp only: new_node_def cy_node.simps zip_map_map zip_same_conv_map map_map) (simp add: comp_def case_prod_unfold)
qed

lemma new_node_key: "key_pat ps np k \<Longrightarrow> key_of (new_node ps np) = k"
proof -
  assume k: "key_pat ps np k"
  have "length (key_names (fst k)) = length (snd k)" using k by (metis key_pat_def length_map)
  moreover have "distinct (key_names (fst k))" by (simp add: key_names_def)
  moreover have "ndLabel (new_node ps np) = fst k" using k by (simp add: key_pat_def new_node_def)
  ultimately show ?thesis
    unfolding key_of_def new_node_props [OF k] by (simp only: value_of_zip prod.collapse)
qed

text \<open>A command whose final graph is \<open>K\<close>.\<close>

definition ends :: "kgraph \<Rightarrow> graph \<times> row list \<Rightarrow> bool" where
  "ends K z \<longleftrightarrow> keyed (fst z) \<and> abs_graph (fst z) = K"

lemma tracks_merge:
  assumes "tracks K env G row" "key_pat ps np k" "map_of env (npVar np) = None"
    and "\<And>G' row'. tracks (k_merge k K) ((npVar np, k) # env) G' row' \<Longrightarrow> ends T (run_clauses ps cs [row'] G')"
  shows "ends T (run_clauses ps (MergeNode np # cs) [row] G)"
proof -
  have G: "keyed G" "abs_graph G = K" using assms(1) by (auto simp: tracks_def)
  note b = bind_key [OF G(1) assms(2) tracks_unbound [OF assms(1,3)]]
  show ?thesis
  proof (cases "pos G k")
    case None
    let ?nd = "new_node ps np"
    note k = new_node_key [OF assms(2)] and p = new_node_props [OF assms(2)]
    have "CNull \<notin> set (snd (key_of ?nd))" using assms(2) k by (simp add: key_pat_def)
    note a = keyed_append [OF G(1), of ?nd, unfolded k, OF None this [unfolded k]]
    have "k \<notin> dom (kgNodes K)" using None G(2) dom_abs [of k G] by simp
    then have "abs_graph (G\<lparr>gNodes := gNodes G @ [?nd]\<rparr>) = k_merge k K" using a(2) p G(2) by (simp add: k_merge_def)
    then have "tracks (k_merge k K) env (G\<lparr>gNodes := gNodes G @ [?nd]\<rparr>) row"
      by (rule tracks_graph [OF assms(1) a(1)]) (simp add: pos_append)
    then have "tracks (k_merge k K) ((npVar np, k) # env) (G\<lparr>gNodes := gNodes G @ [?nd]\<rparr>) ((npVar np, Some (length (gNodes G))) # row)"
      by (rule tracks_bind) (simp add: pos_append None k)
    then show ?thesis using assms(4) b None by (simp add: merge_node_def)
  next
    case (Some i)
    have "k \<in> dom (kgNodes K)" using Some G(2) dom_abs [of k G] by simp
    then have "tracks (k_merge k K) ((npVar np, k) # env) G ((npVar np, Some i) # row)"
      using tracks_bind [OF assms(1) Some] by (simp add: k_merge_def)
    then show ?thesis using assms(4) b Some by (simp add: merge_node_def)
  qed
qed

lemma tracks_match:
  assumes "tracks K env G row" "key_pat ps np k" "map_of env (npVar np) = None"
    and "\<And>row'. k \<in> dom (kgNodes K) \<Longrightarrow> tracks K ((npVar np, k) # env) G row' \<Longrightarrow> ends T (run_clauses ps cs [row'] G)"
    and "k \<notin> dom (kgNodes K) \<Longrightarrow> ends T (G, [])"
  shows "ends T (run_clauses ps (Match (np, []) # cs) [row] G)"
proof -
  have G: "keyed G" "abs_graph G = K" using assms(1) by (auto simp: tracks_def)
  note b = bind_key [OF G(1) assms(2) tracks_unbound [OF assms(1,3)]]
  show ?thesis
  proof (cases "pos G k")
    case None
    have "k \<notin> dom (kgNodes K)" using None G(2) dom_abs [of k G] by simp
    then show ?thesis using assms(5) b None by simp
  next
    case (Some i)
    have "k \<in> dom (kgNodes K)" using Some G(2) dom_abs [of k G] by simp
    moreover have "tracks K ((npVar np, k) # env) G ((npVar np, Some i) # row)"
      by (rule tracks_bind [OF assms(1) Some])
    ultimately show ?thesis using assms(4) b Some by simp
  qed
qed

lemma tracks_rel:
  assumes "tracks K env G row" "map_of env a = Some ka" "map_of env b = Some kb"
    and "\<And>G'. tracks (k_rel ka t kb K) env G' row \<Longrightarrow> ends T (run_clauses ps cs [row] G')"
  shows "ends T (run_clauses ps (MergeRel a t b # cs) [row] G)"
proof -
  obtain i j where ij: "map_of row a = Some (Some i)" "pos G ka = Some i" "map_of row b = Some (Some j)" "pos G kb = Some j"
    using assms(1,2,3) unfolding tracks_def by metis
  have G: "keyed G" "abs_graph G = K" using assms(1) by (auto simp: tracks_def)
  let ?G = "if (i, t, j) \<in> set (gRels G) then G else G\<lparr>gRels := gRels G @ [(i, t, j)]\<rparr>"
  have "tracks (k_rel ka t kb K) env ?G row"
    by (rule tracks_graph [OF assms(1)]) (use keyed_rel [OF G(1) ij(2,4), of t] G(2) in simp_all)
  then show ?thesis using assms(4) [of ?G] ij by (simp add: merge_rel_def)
qed

lemma value_of_assign: "value_of (assign k v ps) = (value_of ps)(k := v)"
  by (rule ext) (simp add: value_of_def)

lemma value_of_assigns: "value_of (fold (\<lambda>(k, v). assign k v) kvs ps) = fold (\<lambda>(k, v) f. f(k := v)) kvs (value_of ps)"
  by (induction kvs arbitrary: ps) (auto simp: value_of_assign)

lemma fold_upd_other: "x \<notin> fst ` set kvs \<Longrightarrow> fold (\<lambda>(k, v) f. f(k := v)) kvs f x = f x"
  by (induction kvs arbitrary: f) auto

lemma kgNodes_pos: "keyed G \<Longrightarrow> pos G k = Some i \<Longrightarrow> kgNodes (abs_graph G) k = Some (value_of (ndProps (gNodes G ! i)))"
proof -
  assume "keyed G" "pos G k = Some i"
  then have "distinct (map fst (map (\<lambda>nd. (key_of nd, value_of (ndProps nd))) (gNodes G)))"
      "(k, value_of (ndProps (gNodes G ! i))) \<in> set (map (\<lambda>nd. (key_of nd, value_of (ndProps nd))) (gNodes G))"
    using pos_Some [of G k i] by (auto simp: keyed_def comp_def)
  then show ?thesis by (simp add: abs_graph_def)
qed

lemma tracks_update:
  assumes "tracks K env G row" "map_of env v = Some k"
    and "\<And>ps'. value_of (f ps') = fold (\<lambda>(x, w) h. h(x := w)) kvs (value_of ps')"
    and "fst ` set kvs \<inter> set (key_names (fst k)) = {}"
  shows "tracks (k_set k kvs K) env (update_node f v row G) row"
proof -
  obtain i where i: "map_of row v = Some (Some i)" "pos G k = Some i"
    using assms(1,2) unfolding tracks_def by metis
  have G: "keyed G" "abs_graph G = K" using assms(1) by (auto simp: tracks_def)
  have n: "i < length (gNodes G)" "key_of (gNodes G ! i) = k" using pos_Some [OF i(2)] by auto
  let ?nd = "(gNodes G ! i)\<lparr>ndProps := f (ndProps (gNodes G ! i))\<rparr>"
  have l: "ndLabel (gNodes G ! i) = fst k" using n(2) by (auto simp: key_of_def)
  have "value_of (f (ndProps (gNodes G ! i))) x = value_of (ndProps (gNodes G ! i)) x" if "x \<in> set (key_names (fst k))" for x
    unfolding assms(3) using assms(4) that by (intro fold_upd_other) auto
  then have "map (value_of (f (ndProps (gNodes G ! i)))) (key_names (fst k)) = map (value_of (ndProps (gNodes G ! i))) (key_names (fst k))"
    by (rule map_cong [OF refl])
  then have k: "key_of ?nd = k" using n(2) l by (cases k) (simp add: key_of_def del: map_eq_conv)
  note u = keyed_update [OF G(1) i(2) refl k]
  have "kgNodes K k = Some (value_of (ndProps (gNodes G ! i)))" using kgNodes_pos [OF G(1) i(2)] G(2) by simp
  then have "k_set k kvs K = K\<lparr>kgNodes := (kgNodes K)(k \<mapsto> value_of (f (ndProps (gNodes G ! i))))\<rparr>"
    by (simp only: k_set_def option.case assms(3))
  then have "abs_graph (G\<lparr>gNodes := (gNodes G)[i := ?nd]\<rparr>) = k_set k kvs K" using u(3) G(2) by (simp only:)
  moreover have "update_node f v row G = G\<lparr>gNodes := (gNodes G)[i := ?nd]\<rparr>" using i n(1) by (simp add: update_node_def)
  ultimately show ?thesis using tracks_graph [OF assms(1) u(1)] u(2) by simp
qed

lemma tracks_set_prop:
  assumes "tracks K env G row" "map_of env v = Some k" "x \<notin> set (key_names (fst k))"
    and "\<And>G'. tracks (k_set k [(x, value_of ps p)] K) env G' row \<Longrightarrow> ends T (run_clauses ps cs [row] G')"
  shows "ends T (run_clauses ps (SetProp v x p # cs) [row] G)"
  using tracks_update [OF assms(1,2), of "assign x (value_of ps p)" "[(x, value_of ps p)]"] assms(3,4)
  by (simp add: value_of_assign)

lemma tracks_set_all:
  assumes "tracks K env G row" "map_of env v = Some k" "value_of ps p = CMap kvs"
    and "fst ` set kvs \<inter> set (key_names (fst k)) = {}"
    and "\<And>G'. tracks (k_set k kvs K) env G' row \<Longrightarrow> ends T (run_clauses ps cs [row] G')"
  shows "ends T (run_clauses ps (SetAll v p # cs) [row] G)"
  using tracks_update [OF assms(1,2) _ assms(4), of "set_all (CMap kvs)"] assms(3,5)
  by (simp add: set_all_def value_of_assigns)

lemma map_of_filter_key: "map_of (filter (\<lambda>(v, i). P v) row) v = (if P v then map_of row v else None)"
  by (induction row) auto

lemma filter_keys: "fst ` {x \<in> set xs. case x of (v, i) \<Rightarrow> P v} = {v \<in> fst ` set xs. P v}"
  by force

lemma tracks_with:
  assumes "tracks K env G row"
    and "\<And>row'. tracks K (filter (\<lambda>(v, k). v \<in> set vs) env) G row' \<Longrightarrow> ends T (run_clauses ps cs [row'] G)"
  shows "ends T (run_clauses ps (WithVars vs # cs) [row] G)"
proof -
  have "tracks K (filter (\<lambda>(v, k). v \<in> set vs) env) G (filter (\<lambda>(v, i). v \<in> set vs) row)"
    using assms(1) unfolding tracks_def by (auto simp: map_of_filter_key filter_keys split: if_splits)
  then show ?thesis using assms(2) by simp
qed

lemma tracks_done: "tracks K env G row \<Longrightarrow> K = K' \<Longrightarrow> ends K' (run_clauses ps [] [row] G)"
  by (simp add: tracks_def ends_def)

lemma tracks_stop: "tracks K env G row \<Longrightarrow> K = K' \<Longrightarrow> ends K' (G, [])"
  by (simp add: tracks_def ends_def)

section \<open>Refinement\<close>

text \<open>What a write does: on success its effect; on failure nothing or its effect.\<close>

definition refines :: "(kgraph \<Rightarrow> kgraph) \<Rightarrow> ('g \<Rightarrow> graph) \<Rightarrow> ('g \<Rightarrow> goerr option \<times> 'g) \<Rightarrow> bool" where
  "refines spec view op \<longleftrightarrow> (\<forall>g e g'. keyed (view g) \<longrightarrow> op g = (e, g') \<longrightarrow>
     keyed (view g') \<and>
     (abs_graph (view g') = spec (abs_graph (view g)) \<or> e \<noteq> None \<and> abs_graph (view g') = abs_graph (view g)))"

context memgraph
begin

lemma exec_refines:
  assumes "\<And>G. keyed G \<Longrightarrow> ends (spec (abs_graph G)) (run_clauses ps (qClauses q) [[]] G)"
  shows "refines spec view (exec D q ps)"
  unfolding refines_def
proof (intro allI impI)
  fix g e g' assume g: "keyed (view g)" and op: "exec D q ps g = (e, g')"
  consider (refused) err where "run D g q ps = (Inl err, g')" "e = Some err"
    | (failed) rows err where "run D g q ps = (Inr (rows, Some err), g')" "e = Some err"
    | (ok) rows where "run D g q ps = (Inr (rows, None), g')" "e = None"
    using op by (auto simp: exec_def split: prod.split_asm sum.split_asm)
  then show "keyed (view g') \<and>
      (abs_graph (view g') = spec (abs_graph (view g)) \<or> e \<noteq> None \<and> abs_graph (view g') = abs_graph (view g))"
  proof cases
    case refused
    then show ?thesis using run_refused g by simp
  next
    case failed
    then show ?thesis using run_failed [OF failed(1)] assms [OF g] g by (auto simp: ends_def effect_def)
  next
    case ok
    then show ?thesis using run_ok [OF ok(1)] assms [OF g] by (auto simp: ends_def effect_def)
  qed
qed

end

lemma key_names_simps [simp]:
  "key_names ''Subject'' = [''id'']" "key_names ''Publisher'' = [''issuer'', ''sub'']"
  "key_names ''IngestedStub'' = [''digest'', ''subjectId'']" "key_names ''Evidence'' = [''logIndex'']"
  "entity_label l \<Longrightarrow> key_names l = [''id'']"
  by (auto simp: key_names_def entity_label_def)

lemmas key_defs = subject_key_def publisher_key_def stub_key_def evidence_key_def entity_key_def

lemma key_pat_node:
  "key_pat ps (node v l nps) k \<longleftrightarrow> l = fst k \<and> map fst nps = key_names (fst k)
     \<and> map (\<lambda>(x, p). value_of ps p) nps = snd k \<and> CNull \<notin> set (snd k)"
  by (auto simp: key_pat_def node_def)

lemma npVar_node [simp]: "npVar (node v l nps) = v"
  by (simp add: node_def)

lemma k_set_Nil [simp]: "k_set k [] K = K"
  by (auto simp: k_set_def fun_upd_idem split: option.splits)

lemma k_set_Cons: "k_set k (x # xs) K = k_set k xs (k_set k [x] K)"
  by (auto simp: k_set_def split: option.splits)

lemma dom_k [simp]:
  "dom (kgNodes (k_merge k K)) = insert k (dom (kgNodes K))" "dom (kgNodes (k_set k ps K)) = dom (kgNodes K)"
  "kgNodes (k_rel a t b K) = kgNodes K"
  by (auto simp: k_merge_def k_set_def k_rel_def split: option.splits)

lemma qClauses_command [simp]: "qClauses (command cs) = cs"
  by (simp add: command_def)

lemmas step_simps = key_pat_node key_defs value_of_def

context memgraph
begin

lemma UpsertSubject_refines: "refines (k_merge (subject_key s)) view (UpsertSubject D s)"
  unfolding UpsertSubject_def
proof (rule exec_refines, unfold qClauses_command)
  fix G assume "keyed G"
  then show "ends (k_merge (subject_key s) (abs_graph G))
      (run_clauses [(''id'', CStr s)] [MergeNode (node ''s'' ''Subject'' [(''id'', ''id'')])] [[]] G)"
    by - (rule tracks_merge [OF tracks_start, where k = "subject_key s"],
      (simp add: step_simps; fail)+, erule tracks_done, rule refl)
qed

lemma UpsertPublisher_refines: "refines (k_merge (publisher_key iss sub)) view (UpsertPublisher D iss sub)"
  unfolding UpsertPublisher_def
proof (rule exec_refines, unfold qClauses_command)
  fix G assume "keyed G"
  then show "ends (k_merge (publisher_key iss sub) (abs_graph G))
      (run_clauses [(''issuer'', CStr iss), (''sub'', CStr sub)]
        [MergeNode (node ''p'' ''Publisher'' [(''issuer'', ''issuer''), (''sub'', ''sub'')])] [[]] G)"
    by - (rule tracks_merge [OF tracks_start, where k = "publisher_key iss sub"],
      (simp add: step_simps; fail)+, erule tracks_done, rule refl)
qed

lemma UpsertIngestedStub_refines: "refines (spec_stub d s iss sub) view (UpsertIngestedStub D d s iss sub)"
  unfolding UpsertIngestedStub_def
proof (rule exec_refines, unfold qClauses_command, goal_cases)
  case (1 G)
  show ?case
    apply (rule tracks_match [OF tracks_start [OF 1], where k = "subject_key s"])
       apply (simp add: step_simps)
      apply simp
     apply (rule tracks_match [where k = "publisher_key iss sub"], assumption)
        apply (simp add: step_simps)
       apply simp
      apply (rule tracks_merge [where k = "stub_key d s"], assumption)
        apply (simp add: step_simps)
       apply simp
      apply (rule tracks_rel, assumption, simp, simp)
      apply (rule tracks_rel, assumption, simp, simp)
      apply (erule tracks_done, simp add: spec_stub_def)
     apply (erule tracks_stop, simp add: spec_stub_def)
    apply (rule tracks_stop [OF tracks_start [OF 1]], simp add: spec_stub_def)
    done
qed

lemma UpsertEvidence_refines: "refines (spec_evidence ev) view (UpsertEvidence D ev)"
  unfolding UpsertEvidence_def upsert_evidence_def
proof (rule exec_refines, unfold qClauses_command, goal_cases)
  case (1 G)
  let ?s = "subject_key (evSubjectID ev)" and ?p = "publisher_key (evPublisherIssuer ev) (evPublisherSub ev)"
  show ?case
    apply (rule tracks_match [OF tracks_start [OF 1], where k = ?s])
       apply (simp add: step_simps)
      apply simp
     apply (rule tracks_match [where k = ?p], assumption)
        apply (simp add: step_simps)
       apply simp
      apply (rule tracks_merge [where k = "evidence_key (evLogIndex ev)"], assumption)
        apply (simp add: step_simps)
       apply simp
      apply (rule tracks_set_prop, assumption, simp, simp add: key_defs)+
      apply (rule tracks_rel, assumption, simp, simp)+
      apply (erule tracks_done)
      apply (simp add: spec_evidence_def evidence_props_def Let_def value_of_def)
      apply (simp add: k_set_Cons [of _ _ "_ # _"])
     apply (erule tracks_stop, simp add: spec_evidence_def)
    apply (rule tracks_stop [OF tracks_start [OF 1]], simp add: spec_evidence_def)
    done
qed

lemma UpsertEntity_refines: "entity_ok en \<Longrightarrow> refines (spec_entity en) view (UpsertEntity D en)"
  unfolding UpsertEntity_def
proof (rule exec_refines, unfold qClauses_command, goal_cases)
  case (1 G)
  have l: "entity_label (enLabel en)" "fst ` set (enProperties en) \<inter> {''id''} = {}"
    using 1(1) by (auto simp: entity_ok_def)
  show ?case
    apply (rule tracks_merge [OF tracks_start [OF 1(2)], where k = "entity_key (enLabel en) (enID en)"])
      apply (simp add: step_simps l)
     apply simp
    apply (rule tracks_set_all, assumption, simp, simp add: value_of_def, simp add: key_defs l)
    apply (rule tracks_with, assumption)
    apply (rule tracks_match [where k = "evidence_key (enEvidenceLogIndex en)"], assumption)
       apply (simp add: step_simps)
      apply simp
     apply (rule tracks_rel, assumption, simp, simp)
     apply (erule tracks_done, simp add: spec_entity_def Let_def)
    apply (erule tracks_stop, simp add: spec_entity_def Let_def)
    done
qed

lemma UpsertEdge_refines:
  "entity_label (edFromLabel ed) \<Longrightarrow> entity_label (edToLabel ed) \<Longrightarrow> refines (spec_edge ed) view (UpsertEdge D ed)"
  unfolding UpsertEdge_def
proof (rule exec_refines, unfold qClauses_command, goal_cases)
  case (1 G)
  show ?case
    apply (rule tracks_match [OF tracks_start [OF 1(3)], where k = "entity_key (edFromLabel ed) (edFromID ed)"])
       apply (simp add: step_simps 1(1))
      apply simp
     apply (rule tracks_match [where k = "entity_key (edToLabel ed) (edToID ed)"], assumption)
        apply (simp add: step_simps 1(2))
       apply simp
      apply (rule tracks_rel, assumption, simp, simp)
      apply (erule tracks_done, simp add: spec_edge_def Let_def)
     apply (erule tracks_stop, simp add: spec_edge_def Let_def)
    apply (rule tracks_stop [OF tracks_start [OF 1(3)]], simp add: spec_edge_def Let_def)
    done
qed

end

section \<open>Sequences of upserts\<close>

text \<open>The unconditional effects the commands are made of.\<close>

datatype kop = KUpsert nkey props | KRel nkey string nkey

fun apply_kop :: "kop \<Rightarrow> kgraph \<Rightarrow> kgraph" where
  "apply_kop (KUpsert k ps) K = k_set k ps (k_merge k K)"
| "apply_kop (KRel a t b) K = k_rel a t b K"

definition run_kops :: "kop list \<Rightarrow> kgraph \<Rightarrow> kgraph" where
  "run_kops ops K = fold apply_kop ops K"

fun upserted :: "kop \<Rightarrow> nkey set" where
  "upserted (KUpsert k ps) = {k}"
| "upserted (KRel a t b) = {}"

definition all_upserted :: "kop list \<Rightarrow> nkey set" where
  "all_upserted ops = (\<Union>o' \<in> set ops. upserted o')"

lemma run_kops_simps [simp]:
  "run_kops [] K = K" "run_kops (op # ops) K = run_kops ops (apply_kop op K)" "run_kops (xs @ ys) K = run_kops ys (run_kops xs K)"
  by (simp_all add: run_kops_def)

lemma all_upserted_simps [simp]:
  "all_upserted [] = {}" "all_upserted (op # ops) = upserted op \<union> all_upserted ops"
  "all_upserted (xs @ ys) = all_upserted xs \<union> all_upserted ys"
  by (auto simp: all_upserted_def)

lemma dom_run_kops: "dom (kgNodes (run_kops ops K)) = dom (kgNodes K) \<union> all_upserted ops"
proof (induction ops arbitrary: K)
  case (Cons op ops)
  then show ?case by (cases op) auto
qed simp

text \<open>What a sequence writes: the last value of each property of each node, and the relationships.\<close>

fun written :: "kop list \<Rightarrow> nkey \<Rightarrow> string \<Rightarrow> cy_value option" where
  "written [] k x = None"
| "written (KUpsert k' ps # ops) k x =
     (case written ops k x of
        Some v \<Rightarrow> Some v
      | None \<Rightarrow> if k' = k then map_of (rev ps) x else None)"
| "written (KRel a t b # ops) k x = written ops k x"

definition rels_of :: "kop list \<Rightarrow> (nkey \<times> string \<times> nkey) set" where
  "rels_of ops = {(a, t, b). KRel a t b \<in> set ops}"

definition base_props :: "kgraph \<Rightarrow> nkey \<Rightarrow> string \<Rightarrow> cy_value" where
  "base_props K k = (case kgNodes K k of Some f \<Rightarrow> f | None \<Rightarrow> value_of (zip (key_names (fst k)) (snd k)))"

definition overlay :: "kop list \<Rightarrow> kgraph \<Rightarrow> kgraph" where
  "overlay ops K = K\<lparr>kgNodes := (\<lambda>k. if k \<in> dom (kgNodes K) \<union> all_upserted ops
       then Some (\<lambda>x. case written ops k x of Some v \<Rightarrow> v | None \<Rightarrow> base_props K k x) else None),
     kgRels := kgRels K \<union> rels_of ops\<rparr>"

lemma fold_upd_map_of: "fold (\<lambda>(x, v) f. f(x := v)) ps f x = (case map_of (rev ps) x of Some v \<Rightarrow> v | None \<Rightarrow> f x)"
proof (induction ps rule: rev_induct)
  case (snoc p ps)
  then show ?case by (cases p) simp
qed simp

lemma base_props_upsert:
  "base_props (apply_kop (KUpsert k' ps) K) k x
     = (if k' = k then (case map_of (rev ps) x of Some v \<Rightarrow> v | None \<Rightarrow> base_props K k x) else base_props K k x)"
proof (cases "kgNodes K k'")
  case None
  then have "k_set k' ps (k_merge k' K) = K\<lparr>kgNodes := (kgNodes K)(k' \<mapsto> fold (\<lambda>(x, v) f. f(x := v)) ps (base_props K k'))\<rparr>"
    by (simp add: k_merge_def k_set_def base_props_def domIff)
  then show ?thesis by (simp add: base_props_def [of "K\<lparr>kgNodes := _\<rparr>"] fold_upd_map_of) (simp add: base_props_def)
next
  case (Some f)
  then have "k_set k' ps (k_merge k' K) = K\<lparr>kgNodes := (kgNodes K)(k' \<mapsto> fold (\<lambda>(x, v) f. f(x := v)) ps (base_props K k'))\<rparr>"
    by (simp add: k_merge_def k_set_def base_props_def domIff)
  then show ?thesis by (simp add: base_props_def [of "K\<lparr>kgNodes := _\<rparr>"] fold_upd_map_of) (simp add: base_props_def)
qed

lemma run_kops_overlay: "run_kops ops K = overlay ops K"
proof (induction ops arbitrary: K)
  case Nil
  show ?case by (auto simp: overlay_def rels_of_def base_props_def fun_eq_iff intro!: kgraph.equality split: option.splits)
next
  case (Cons op ops)
  show ?case
  proof (cases op)
    case (KUpsert k ps)
    have d: "dom (kgNodes (apply_kop op K)) = insert k (dom (kgNodes K))" by (simp add: KUpsert)
    have w: "(case written ops k' x of Some v \<Rightarrow> v | None \<Rightarrow> base_props (apply_kop op K) k' x)
        = (case written (op # ops) k' x of Some v \<Rightarrow> v | None \<Rightarrow> base_props K k' x)" for k' x
      by (simp add: KUpsert base_props_upsert del: apply_kop.simps split: option.splits)
    have "kgNodes (overlay ops (apply_kop op K)) = kgNodes (overlay (op # ops) K)"
      unfolding overlay_def by (simp only: d w kgraph.simps) (simp add: KUpsert)
    moreover have "kgRels (apply_kop op K) = kgRels K" by (simp add: KUpsert k_set_def k_merge_def split: option.splits)
    ultimately show ?thesis
      using Cons [of "apply_kop op K"] by (auto simp: overlay_def rels_of_def KUpsert intro!: kgraph.equality)
  next
    case (KRel a t b)
    have e: "base_props (k_rel a t b K) = base_props K" "written (op # ops) = written ops"
      by (simp_all add: fun_eq_iff base_props_def KRel)
    have "overlay ops (k_rel a t b K) = overlay (op # ops) K"
      unfolding overlay_def e by (rule kgraph.equality) (auto simp: rels_of_def KRel k_rel_def)
    then show ?thesis using Cons [of "k_rel a t b K"] by (simp add: KRel)
  qed
qed

text \<open>Running a sequence again changes nothing, and a sequence absorbs its own prefix.\<close>

lemma run_kops_again: "run_kops ops (run_kops ops K) = run_kops ops K"
proof -
  have n: "kgNodes (overlay ops K) k = Some (\<lambda>x. case written ops k x of Some v \<Rightarrow> v | None \<Rightarrow> base_props K k x)"
    if "k \<in> dom (kgNodes K) \<union> all_upserted ops" for k
    using that by (simp add: overlay_def)
  then have "base_props (overlay ops K) k x = (case written ops k x of Some v \<Rightarrow> v | None \<Rightarrow> base_props K k x)"
    if "k \<in> dom (kgNodes K) \<union> all_upserted ops" for k x
    using that by (simp only: base_props_def [of "overlay ops K"] option.case)
  moreover have "dom (kgNodes (overlay ops K)) = dom (kgNodes K) \<union> all_upserted ops"
    using dom_run_kops [of ops K] by (simp add: run_kops_overlay)
  ultimately have "kgNodes (overlay ops (overlay ops K)) k = kgNodes (overlay ops K) k" for k
    unfolding overlay_def [of ops "overlay ops K"]
    by (cases "k \<in> dom (kgNodes K) \<union> all_upserted ops") (auto simp: n fun_eq_iff split: option.splits)
  moreover have "kgRels (overlay ops (overlay ops K)) = kgRels (overlay ops K)" by (auto simp: overlay_def)
  ultimately show ?thesis unfolding run_kops_overlay by (intro kgraph.equality) auto
qed

lemma run_kops_prefix: "run_kops (concat xss) (run_kops (concat (take n xss)) K) = run_kops (concat xss) K"
proof -
  have "concat xss = concat (take n xss) @ concat (drop n xss)" by (metis append_take_drop_id concat_append)
  then show ?thesis using run_kops_again by (metis run_kops_simps(3))
qed

text \<open>
  A handler that issues commands with the effects \<open>xss\<close> on a graph that has the nodes \<open>S\<close>: it performs a prefix
  of them, and all of them when it succeeds.
\<close>

definition follows :: "kop list list \<Rightarrow> nkey set \<Rightarrow> ('g \<Rightarrow> graph) \<Rightarrow> ('g \<Rightarrow> goerr option \<times> 'g) \<Rightarrow> bool" where
  "follows xss S view op \<longleftrightarrow> (\<forall>g e g'. keyed (view g) \<longrightarrow> S \<subseteq> dom (kgNodes (abs_graph (view g))) \<longrightarrow> op g = (e, g') \<longrightarrow>
     keyed (view g') \<and>
     (\<exists>n \<le> length xss. abs_graph (view g') = run_kops (concat (take n xss)) (abs_graph (view g))
        \<and> (e = None \<longrightarrow> n = length xss)))"

lemma refines_follows:
  assumes "refines spec view op" "\<And>K. S \<subseteq> dom (kgNodes K) \<Longrightarrow> spec K = run_kops ops K"
  shows "follows [ops] S view op"
  unfolding follows_def
proof (intro allI impI)
  fix g e g' assume g: "keyed (view g)" "S \<subseteq> dom (kgNodes (abs_graph (view g)))" "op g = (e, g')"
  let ?K = "abs_graph (view g)" and ?K' = "abs_graph (view g')"
  have "keyed (view g')" "?K' = spec ?K \<or> e \<noteq> None \<and> ?K' = ?K"
    using assms(1) g unfolding refines_def by blast+
  moreover have "spec ?K = run_kops ops ?K" by (rule assms(2) [OF g(2)])
  ultimately consider "keyed (view g')" "?K' = run_kops ops ?K" | "keyed (view g')" "e \<noteq> None" "?K' = ?K" by auto
  then show "keyed (view g') \<and>
      (\<exists>n \<le> length [ops]. ?K' = run_kops (concat (take n [ops])) ?K \<and> (e = None \<longrightarrow> n = length [ops]))"
  proof cases
    case 1
    then show ?thesis by (auto intro!: exI [of _ 1])
  next
    case 2
    then show ?thesis by (auto intro!: exI [of _ 0])
  qed
qed

context memgraph
begin

lemma subject_follows: "follows [[KUpsert (subject_key s) []]] {} view (UpsertSubject D s)"
  by (rule refines_follows [OF UpsertSubject_refines]) simp

lemma publisher_follows: "follows [[KUpsert (publisher_key iss sub) []]] {} view (UpsertPublisher D iss sub)"
  by (rule refines_follows [OF UpsertPublisher_refines]) simp

lemma stub_follows:
  "follows [[KUpsert (stub_key d s) [], KRel (stub_key d s) ''TARGETS'' (subject_key s),
      KRel (stub_key d s) ''PUBLISHED_BY'' (publisher_key iss sub)]]
    {subject_key s, publisher_key iss sub} view (UpsertIngestedStub D d s iss sub)"
  by (rule refines_follows [OF UpsertIngestedStub_refines]) (auto simp: spec_stub_def)

lemma evidence_follows:
  "follows [[KUpsert (evidence_key (evLogIndex ev)) (evidence_props ev),
      KRel (evidence_key (evLogIndex ev)) ''TARGETS'' (subject_key (evSubjectID ev)),
      KRel (evidence_key (evLogIndex ev)) ''PUBLISHED_BY'' (publisher_key (evPublisherIssuer ev) (evPublisherSub ev))]]
    {subject_key (evSubjectID ev), publisher_key (evPublisherIssuer ev) (evPublisherSub ev)} view (UpsertEvidence D ev)"
  by (rule refines_follows [OF UpsertEvidence_refines]) (auto simp: spec_evidence_def Let_def)

lemma entity_follows:
  "entity_ok en \<Longrightarrow>
   follows [[KUpsert (entity_key (enLabel en) (enID en)) (enProperties en),
      KRel (evidence_key (enEvidenceLogIndex en)) ''DEFINES'' (entity_key (enLabel en) (enID en))]]
    {evidence_key (enEvidenceLogIndex en)} view (UpsertEntity D en)"
  by (rule refines_follows [OF UpsertEntity_refines]) (auto simp: spec_entity_def Let_def)

lemma edge_follows:
  "entity_label (edFromLabel ed) \<Longrightarrow> entity_label (edToLabel ed) \<Longrightarrow>
   follows [[KRel (entity_key (edFromLabel ed) (edFromID ed)) (edEdgeType ed) (entity_key (edToLabel ed) (edToID ed))]]
    {entity_key (edFromLabel ed) (edFromID ed), entity_key (edToLabel ed) (edToID ed)} view (UpsertEdge D ed)"
  by (rule refines_follows [OF UpsertEdge_refines]) (auto simp: spec_edge_def Let_def)

end

end
