(* ===== verification/GraphReads.thy ===== *)
theory GraphReads
  imports GraphSpec
begin

text \<open>
  What the read queries of \<^verbatim>\<open>internal/graph/writer.go\<close> return, in terms of the keyed graph: reads leave the graph
  alone, and the rows of a path pattern are the chains of relationships it describes, each once.
\<close>

section \<open>Reads leave the graph alone\<close>

fun reads :: "clause \<Rightarrow> bool" where
  "reads (Match _) = True"
| "reads (OptionalMatch _) = True"
| "reads (Where _) = True"
| "reads (WithVars _) = True"
| "reads _ = False"

lemma run_rows_reads: "reads c \<Longrightarrow> fst (run_rows ps c rows G) = G"
  by (induction rows) (cases c; auto split: prod.splits)+

lemma run_clauses_reads: "list_all reads cs \<Longrightarrow> fst (run_clauses ps cs rows G) = G"
proof (induction cs arbitrary: rows)
  case (Cons c cs)
  then show ?case using run_rows_reads [of c ps rows G] by (cases "run_rows ps c rows G") auto
qed simp

lemma effect_reads: "list_all reads (qClauses q) \<Longrightarrow> effect q ps G = G"
  by (simp add: effect_def run_clauses_reads)

context memgraph
begin

lemma run_reads: "list_all reads (qClauses q) \<Longrightarrow> run D g q ps = (x, g') \<Longrightarrow> view g' = view g"
proof -
  assume q: "list_all reads (qClauses q)" and r: "run D g q ps = (x, g')"
  consider e where "x = Inl e" | rows e where "x = Inr (rows, Some e)" | rows where "x = Inr (rows, None)"
    by (metis option.exhaust old.sum.exhaust surj_pair)
  then show ?thesis
    using r run_refused [of g q ps _ g'] run_failed [of g q ps _ _ g'] run_ok [of g q ps _ g'] effect_reads [OF q] by cases auto
qed

end

section \<open>Rows of a pattern\<close>

lemma bind_fresh:
  "map_of row (npVar np) = None \<Longrightarrow>
   bind_node G ps np row = map (\<lambda>i. (npVar np, Some i) # row) (filter (node_ok G ps np) [0..<length (gNodes G)])"
  by (simp add: bind_node_def)

lemma distinct_bind: "distinct (bind_node G ps np row)"
  by (auto simp: bind_node_def distinct_map inj_on_def split: option.splits)

lemma bind_rows:
  assumes "r \<in> set (bind_node G ps np row)"
  shows "\<exists>pre. r = pre @ row" "length r = (if map_of row (npVar np) = None then Suc (length row) else length row)"
  using assms by (auto simp: bind_node_def split: option.splits if_splits)

lemma match_steps_suffix: "r \<in> set (match_steps G ps v steps row) \<Longrightarrow> \<exists>pre. r = pre @ row"
proof (induction G ps v steps row rule: match_steps.induct)
  case (2 G ps v d t np steps row)
  then obtain r' where r': "r' \<in> set (bind_node G ps np row)" "joined G d t (map_of r' v) (map_of r' (npVar np))"
      "r \<in> set (match_steps G ps (npVar np) steps r')"
    by auto
  then obtain pre where "r = pre @ r'" using 2(1) by auto
  then show ?case using bind_rows(1) [OF r'(1)] by auto
qed simp

lemma distinct_concat_suffix:
  assumes "distinct rows" "\<And>r. r \<in> set rows \<Longrightarrow> length r = n" "\<And>r. r \<in> set rows \<Longrightarrow> distinct (f r)"
    and "\<And>r x. r \<in> set rows \<Longrightarrow> x \<in> set (f r) \<Longrightarrow> \<exists>pre. x = pre @ r"
  shows "distinct (concat (map f rows))"
  using assms
proof (induction rows)
  case (Cons r rows)
  have "set (f r) \<inter> set (f r') = {}" if "r' \<in> set rows" for r'
  proof (rule ccontr)
    assume "set (f r) \<inter> set (f r') \<noteq> {}"
    then obtain x where "x \<in> set (f r)" "x \<in> set (f r')" by blast
    then have "\<exists>a. x = a @ r" "\<exists>b. x = b @ r'" using Cons.prems(4) that by auto
    moreover have "length r = length r'" using Cons.prems(2) that by simp
    ultimately have "r = r'" by auto
    then show False using Cons.prems(1) that by simp
  qed
  then show ?case using Cons by auto
qed simp

lemma distinct_match_steps: "distinct (match_steps G ps v steps row)"
proof (induction G ps v steps row rule: match_steps.induct)
  case (2 G ps v d t np steps row)
  show ?case
    unfolding match_steps.simps
    by (rule distinct_concat_suffix [where n = "if map_of row (npVar np) = None then Suc (length row) else length row"])
      (use 2 distinct_bind bind_rows(2) match_steps_suffix in auto)
qed simp

lemma distinct_match_path: "distinct (match_path G ps path row)"
  unfolding match_path_def
  by (rule distinct_concat_suffix [where n = "if map_of row (npVar (fst path)) = None then Suc (length row) else length row"])
    (use distinct_bind bind_rows(2) distinct_match_steps match_steps_suffix in auto)

text \<open>The step from a bound variable to a new one.\<close>

definition linked :: "graph \<Rightarrow> direction \<Rightarrow> string \<Rightarrow> nat \<Rightarrow> nat \<Rightarrow> bool" where
  "linked G d t i j \<longleftrightarrow> (case d of Outgoing \<Rightarrow> (i, t, j) | Incoming \<Rightarrow> (j, t, i)) \<in> set (gRels G)"

lemma set_match_step:
  assumes "map_of row v = Some (Some i)" "map_of row (npVar np) = None"
  shows "set (match_steps G ps v ((d, t, np) # steps) row)
    = {r. \<exists>j. node_ok G ps np j \<and> linked G d t i j \<and> r \<in> set (match_steps G ps (npVar np) steps ((npVar np, Some j) # row))}"
proof -
  have "npVar np \<noteq> v" using assms by auto
  moreover have "node_ok G ps np j \<Longrightarrow> j < length (gNodes G)" for j by (simp add: node_ok_def)
  ultimately show ?thesis
    using assms by (cases d) (fastforce simp: bind_fresh joined_def linked_def)+
qed

declare match_steps.simps(2) [simp del]

lemma set_match_path:
  assumes "map_of row (npVar np) = None"
  shows "set (match_path G ps (np, steps) row)
    = {r. \<exists>i. node_ok G ps np i \<and> r \<in> set (match_steps G ps (npVar np) steps ((npVar np, Some i) # row))}"
proof -
  have "node_ok G ps np j \<Longrightarrow> j < length (gNodes G)" for j by (simp add: node_ok_def)
  then show ?thesis using assms by (auto simp: match_path_def bind_fresh)
qed

text \<open>Labels and relationships of a keyed graph.\<close>

lemma node_ok_label: "node_ok G ps (node v l []) i \<longleftrightarrow> i < length (gNodes G) \<and> ndLabel (gNodes G ! i) = l"
  by (simp add: node_ok_def node_def)

lemma kgRels_iff:
  assumes "keyed G"
  shows "(a, t, b) \<in> kgRels (abs_graph G) \<longleftrightarrow> (\<exists>i j. pos G a = Some i \<and> pos G b = Some j \<and> (i, t, j) \<in> set (gRels G))"
proof
  assume "(a, t, b) \<in> kgRels (abs_graph G)"
  then obtain i j where "(i, t, j) \<in> set (gRels G)" "a = key_of (gNodes G ! i)" "b = key_of (gNodes G ! j)"
    by (auto simp: abs_graph_def)
  moreover from this have "i < length (gNodes G)" "j < length (gNodes G)" using assms by (auto simp: keyed_def)
  ultimately show "\<exists>i j. pos G a = Some i \<and> pos G b = Some j \<and> (i, t, j) \<in> set (gRels G)"
    using keyed_pos [OF assms] by metis
next
  assume "\<exists>i j. pos G a = Some i \<and> pos G b = Some j \<and> (i, t, j) \<in> set (gRels G)"
  then obtain i j where "pos G a = Some i" "pos G b = Some j" "(i, t, j) \<in> set (gRels G)" by blast
  then show "(a, t, b) \<in> kgRels (abs_graph G)"
    using pos_Some [of G a i] pos_Some [of G b j] by (force simp: abs_graph_def)
qed

lemma kgNodes_key: "keyed G \<Longrightarrow> kgNodes (abs_graph G) k = Some f \<Longrightarrow> map f (key_names (fst k)) = snd k"
proof -
  assume G: "keyed G" and f: "kgNodes (abs_graph G) k = Some f"
  then obtain i where i: "pos G k = Some i" using dom_abs [of k G] by auto
  then have "f = value_of (ndProps (gNodes G ! i))" using kgNodes_pos [OF G i] f by simp
  then show ?thesis using pos_Some [OF i] by (auto simp: key_of_def)
qed

lemma linked_key:
  assumes "keyed G" "j < length (gNodes G)"
  shows "(\<exists>i. pos G k = Some i \<and> (i, t, j) \<in> set (gRels G)) \<longleftrightarrow> (k, t, key_of (gNodes G ! j)) \<in> kgRels (abs_graph G)"
  using kgRels_iff [OF assms(1)] keyed_pos [OF assms] by auto

lemma set_match_out:
  assumes "keyed G" "key_pat ps np k" "npVar np \<noteq> b"
  shows "set (match_path G ps (np, [(Outgoing, t, node b l [])]) [])
    = {[(b, Some j), (npVar np, Some i)] | i j. pos G k = Some i \<and> (i, t, j) \<in> set (gRels G)
         \<and> j < length (gNodes G) \<and> ndLabel (gNodes G ! j) = l}"
  using assms(3)
  by (auto simp: set_match_path set_match_step node_ok_key [OF assms(2)] node_ok_label keyed_eq_pos [OF assms(1)] linked_def)

section \<open>The publisher of a digest\<close>

lemma publisher_rows:
  assumes G: "keyed G"
  shows "r \<in> set (answer publisher_by_digest [(''digest'', CStr d), (''subjectID'', CStr s)] G)
    \<longleftrightarrow> (\<exists>v w. r = [(''issuer'', v), (''sub'', w)]
          \<and> (stub_key d s, ''PUBLISHED_BY'', (''Publisher'', [v, w])) \<in> kgRels (abs_graph G))" (is "?A \<longleftrightarrow> ?B")
proof -
  let ?ps = "[(''digest'', CStr d), (''subjectID'', CStr s)]"
  let ?np = "node ''stub'' ''IngestedStub'' [(''digest'', ''digest''), (''subjectId'', ''subjectID'')]"
  let ?out = "\<lambda>r. [(''issuer'', prop_of G r ''p'' ''issuer''), (''sub'', prop_of G r ''p'' ''sub'')]"
  have key: "key_pat ?ps ?np (stub_key d s)" by (simp add: step_simps)
  have "?A \<longleftrightarrow> r \<in> ?out ` set (match_path G ?ps (?np, [(Outgoing, ''PUBLISHED_BY'', node ''p'' ''Publisher'' [])]) [])"
    by (simp add: answer_def publisher_by_digest_def project_def)
  also have "\<dots> \<longleftrightarrow> (\<exists>i j. r = ?out [(''p'', Some j), (''stub'', Some i)] \<and> pos G (stub_key d s) = Some i
      \<and> (i, ''PUBLISHED_BY'', j) \<in> set (gRels G) \<and> j < length (gNodes G) \<and> ndLabel (gNodes G ! j) = ''Publisher'')"
    (is "_ \<longleftrightarrow> ?C")
    by (subst set_match_out [OF G key]) (simp, auto)
  finally have C: "?A \<longleftrightarrow> ?C" .
  have pr: "prop_of G [(''p'', Some j), (''stub'', Some i)] ''p'' x = value_of (ndProps (gNodes G ! j)) x"
    if "j < length (gNodes G)" for i j x
    using that by (simp add: prop_of_def)
  show ?thesis
  proof
    assume ?A
    then obtain i j where ij: "pos G (stub_key d s) = Some i" "(i, ''PUBLISHED_BY'', j) \<in> set (gRels G)"
        "j < length (gNodes G)" "ndLabel (gNodes G ! j) = ''Publisher''" "r = ?out [(''p'', Some j), (''stub'', Some i)]"
      using C by metis
    have "key_of (gNodes G ! j)
        = (''Publisher'', [value_of (ndProps (gNodes G ! j)) ''issuer'', value_of (ndProps (gNodes G ! j)) ''sub''])"
      using ij(4) by (simp add: key_of_def)
    then have "(stub_key d s, ''PUBLISHED_BY'', (''Publisher'', [value_of (ndProps (gNodes G ! j)) ''issuer'',
        value_of (ndProps (gNodes G ! j)) ''sub''])) \<in> kgRels (abs_graph G)"
      using linked_key [OF G ij(3), of "stub_key d s" "''PUBLISHED_BY''"] ij(1,2) by simp
    then show ?B unfolding ij(5) pr [OF ij(3)] by (intro exI conjI) (rule refl)
  next
    assume ?B
    then obtain v w where r: "r = [(''issuer'', v), (''sub'', w)]"
        and rel: "(stub_key d s, ''PUBLISHED_BY'', (''Publisher'', [v, w])) \<in> kgRels (abs_graph G)"
      by (elim exE conjE)
    obtain i j where ij: "pos G (stub_key d s) = Some i" "pos G (''Publisher'', [v, w]) = Some j"
        "(i, ''PUBLISHED_BY'', j) \<in> set (gRels G)"
      using rel unfolding kgRels_iff [OF G] by blast
    have j: "j < length (gNodes G)" "key_of (gNodes G ! j) = (''Publisher'', [v, w])" using pos_Some [OF ij(2)] by auto
    then have "ndLabel (gNodes G ! j) = ''Publisher''" "value_of (ndProps (gNodes G ! j)) ''issuer'' = v"
        "value_of (ndProps (gNodes G ! j)) ''sub'' = w"
      by (auto simp: key_of_def)
    then show ?A unfolding C using ij(1,3) j(1) r pr [OF j(1)] by (intro exI [of _ i] exI [of _ j]) simp
  qed
qed

end
