(* ===== verification/Receipt.thy ===== *)
theory Receipt
  imports Events GoTime
begin

text \<open>
  Receipts (\<^verbatim>\<open>internal/gateway/receipt\<close>): wrapping content into an in-toto statement and unwrapping it.
  The JCS canonicalizer, protobuf structs and protojson are parameters; the locale \<open>receipt_codec\<close> states
  that each keeps the data of the JSON value it transforms.
\<close>

section \<open>Definitions\<close>

record Publisher =
  pbIssuer :: string
  pbSub :: string

record Statement =
  stmtType :: string
  stmtSubjectNames :: "string list"
  stmtPredicateType :: string
  stmtPredicate :: json

record receipt_lib =
  jcs_transform :: "bytes \<Rightarrow> bytes res"
  new_struct :: "(string \<times> json) list \<Rightarrow> json res"
  proto_marshal :: "Statement \<Rightarrow> bytes res"
  StatementTypeUri :: string

definition predicateToStruct :: "receipt_lib \<Rightarrow> json \<Rightarrow> json res" where
  "predicateToStruct L v =
     (let data = print_json v in
      case unmarshal_map data of Inl err \<Rightarrow> Inl err | Inr m \<Rightarrow> new_struct L m)"

text \<open>The digest of the canonical content, and the predicate: a Go map prints its keys in order.\<close>

definition content_digest :: "bytes \<Rightarrow> string" where
  "content_digest canonicalContent = ''sha256:'' @ url_encode (sha256 canonicalContent)"

definition receipt_predicate :: "bytes \<Rightarrow> Publisher \<Rightarrow> string \<Rightarrow> time \<Rightarrow> (string \<times> json) list" where
  "receipt_predicate canonicalContent publisher artifactType now =
     [(''artifactType'', JStr artifactType),
      (''content'', JStr (std_encode canonicalContent)),
      (''contentDigest'', JStr (content_digest canonicalContent)),
      (''publisher'', JObj [(''issuer'', JStr (pbIssuer publisher)), (''sub'', JStr (pbSub publisher))]),
      (''receivedAt'', JStr (format_rfc3339 now))]"

definition Wrap :: "receipt_lib \<Rightarrow> time \<Rightarrow> bytes \<Rightarrow> Publisher \<Rightarrow> string \<Rightarrow> string \<Rightarrow> bytes res" where
  "Wrap L now content publisher subjectID artifactType =
     (case jcs_transform L content of
        Inl err \<Rightarrow> Inl (ErrorfW ''canonicalize content: '' err [])
      | Inr canonicalContent \<Rightarrow>
     (case predicateToStruct L (JObj (receipt_predicate canonicalContent publisher artifactType now)) of
        Inl err \<Rightarrow> Inl (ErrorfW ''convert predicate to struct: '' err [])
      | Inr predicateStruct \<Rightarrow>
     (case proto_marshal L \<lparr>stmtType = StatementTypeUri L, stmtSubjectNames = [subjectID],
             stmtPredicateType = ''gemara-receipt/v1'', stmtPredicate = predicateStruct\<rparr> of
        Inl err \<Rightarrow> Inl (ErrorfW ''marshal statement: '' err [])
      | Inr stmtJSON \<Rightarrow>
     (case jcs_transform L stmtJSON of
        Inl err \<Rightarrow> Inl (ErrorfW ''canonicalize receipt: '' err [])
      | Inr canonicalReceipt \<Rightarrow> Inr canonicalReceipt))))"

record UnwrapResult =
  urContent :: bytes
  urPublisher :: Publisher
  urFormat :: string

definition extractPublisher :: "(string \<times> json) list \<Rightarrow> Publisher res" where
  "extractPublisher predicate =
     (case jget_obj predicate ''publisher'' of
        None \<Rightarrow> Inl (Errorf ''predicate missing publisher field'')
      | Some publisherData \<Rightarrow>
     (case jget_str publisherData ''issuer'' of
        None \<Rightarrow> Inl (Errorf ''publisher missing issuer field'')
      | Some issuer \<Rightarrow>
     (case jget_str publisherData ''sub'' of
        None \<Rightarrow> Inl (Errorf ''publisher missing sub field'')
      | Some sub \<Rightarrow> Inr \<lparr>pbIssuer = issuer, pbSub = sub\<rparr>)))"

definition UnwrapContent :: "bytes \<Rightarrow> UnwrapResult res" where
  "UnwrapContent entry =
     (case unmarshal_map entry of
        Inl err \<Rightarrow> Inl (ErrorfW ''unmarshal entry: '' err [])
      | Inr raw \<Rightarrow>
     (case jget_str raw ''predicate_type'' of
        None \<Rightarrow> Inl (Errorf ''unknown entry format: missing predicate_type'')
      | Some predicateType \<Rightarrow>
     (case jget_obj raw ''predicate'' of
        None \<Rightarrow> Inl (Errorf ''invalid entry: missing predicate'')
      | Some predicate \<Rightarrow>
     (case extractPublisher predicate of
        Inl err \<Rightarrow> Inl (ErrorfW ''extract publisher: '' err [])
      | Inr publisher \<Rightarrow>
        if predicateType \<noteq> ''gemara-receipt/v1'' then Inl (Errorf (''unknown predicate type: '' @ predicateType))
        else
     (case jget_str predicate ''content'' of
        None \<Rightarrow> Inl (Errorf ''receipt missing content field'')
      | Some encodedContent \<Rightarrow>
     (case std_decode encodedContent of
        None \<Rightarrow> Inl (ErrorfW ''decode content: '' (Foreign ''illegal base64 data'') [])
      | Some content \<Rightarrow> Inr \<lparr>urContent = content, urPublisher = publisher, urFormat = predicateType\<rparr>))))))"

section \<open>The same data\<close>

text \<open>
  Two JSON values with the same data: objects agree key by key (the order and repetitions of keys do not
  matter), numbers may be written differently.
\<close>

inductive same_data :: "json \<Rightarrow> json \<Rightarrow> bool" where
  same_null: "same_data JNull JNull"
| same_bool: "same_data (JBool b) (JBool b)"
| same_num: "same_data (JNum n) (JNum n')"
| same_str: "same_data (JStr s) (JStr s)"
| same_arr: "list_all2 same_data xs ys \<Longrightarrow> same_data (JArr xs) (JArr ys)"
| same_obj: "\<forall>k. rel_option same_data (jget ms k) (jget ns k) \<Longrightarrow> same_data (JObj ms) (JObj ns)"

inductive_cases same_strE: "same_data (JStr s) j"
inductive_cases same_objE: "same_data (JObj ms) j"

lemma jget_in_set: "jget ms k = Some v \<Longrightarrow> (k, v) \<in> set ms"
  unfolding jget_def by (drule map_of_SomeD) simp

lemma same_data_refl: "same_data j j"
proof (induction j)
  case (JArr xs)
  then show ?case by (auto intro: same_arr list.rel_refl_strong)
next
  case (JObj ms)
  have "rel_option same_data (jget ms k) (jget ms k)" for k
  proof (cases "jget ms k")
    case (Some v)
    then have "same_data v v" using JObj [of "(k, v)" v] jget_in_set by (simp add: prod_set_simps)
    then show ?thesis using Some by simp
  qed simp
  then show ?case by (auto intro: same_obj)
qed (auto intro: same_data.intros)

lemma same_data_trans: "same_data a b \<Longrightarrow> same_data b c \<Longrightarrow> same_data a c"
proof (induction arbitrary: c rule: same_data.induct)
  case (same_arr xs ys)
  from same_arr.prems obtain zs where c: "c = JArr zs" "list_all2 same_data ys zs" by (cases rule: same_data.cases) auto
  have "list_all2 same_data xs zs"
    using list_all2_trans [OF _ same_arr.IH c(2), of same_data] by blast
  then show ?case using c(1) by (auto intro: same_data.intros)
next
  case (same_obj ms ns)
  from same_obj.prems obtain os where c: "c = JObj os" "\<forall>k. rel_option same_data (jget ns k) (jget os k)"
    by (cases rule: same_data.cases) auto
  have "rel_option same_data (jget ms k) (jget os k)" for k
    using same_obj.IH [rule_format, of k] c(2) [rule_format, of k]
    by (cases "jget ms k"; cases "jget ns k"; cases "jget os k") auto
  then show ?case using c(1) by (auto intro: same_data.intros)
qed (auto elim: same_data.cases intro: same_data.intros)

lemma same_str [simp]: "same_data (JStr s) j \<longleftrightarrow> j = JStr s"
  by (auto elim: same_strE intro: same_data.intros)

text \<open>Every entry of the first object is an entry of the second, with the same data.\<close>

definition obj_le :: "(string \<times> json) list \<Rightarrow> (string \<times> json) list \<Rightarrow> bool" where
  "obj_le ms ns \<longleftrightarrow> (\<forall>k v. jget ms k = Some v \<longrightarrow> (\<exists>w. jget ns k = Some w \<and> same_data v w))"

lemma obj_le_same: "same_data (JObj ms) j \<Longrightarrow> \<exists>ns. j = JObj ns \<and> obj_le ms ns"
  by (elim same_objE) (metis obj_le_def option_rel_Some1)

lemma obj_le_trans: "obj_le a b \<Longrightarrow> obj_le b c \<Longrightarrow> obj_le a c"
  unfolding obj_le_def by (meson same_data_trans)

lemma obj_le_str: "obj_le ms ns \<Longrightarrow> jget ms k = Some (JStr s) \<Longrightarrow> jget_str ns k = Some s"
  by (fastforce simp: obj_le_def jget_str_def)

lemma obj_le_obj: "obj_le ms ns \<Longrightarrow> jget ms k = Some (JObj os) \<Longrightarrow> \<exists>us. jget_obj ns k = Some us \<and> obj_le os us"
  by (fastforce simp: obj_le_def [of ms] jget_obj_def dest: obj_le_same)

section \<open>What wrapping relies on\<close>

locale receipt_codec =
  fixes L :: receipt_lib
  assumes jcs: "jcs_transform L c = Inr c' \<Longrightarrow> json_parse c = Inr j \<Longrightarrow> \<exists>j'. json_parse c' = Inr j' \<and> same_data j j'"
    and struct: "new_struct L ms = Inr p \<Longrightarrow> same_data (JObj ms) p"
    and proto: "proto_marshal L st = Inr bs \<Longrightarrow> stmtPredicateType st \<noteq> [] \<Longrightarrow>
        \<exists>ms p. json_parse bs = Inr (JObj ms) \<and> jget ms ''predicate_type'' = Some (JStr (stmtPredicateType st))
          \<and> jget ms ''predicate'' = Some p \<and> same_data (stmtPredicate st) p"

context receipt_codec
begin

lemma predicate_struct:
  assumes "predicateToStruct L (JObj ms) = Inr p" "wf_json (JObj ms)"
  shows "same_data (JObj ms) p"
  using assms json_parse_print [OF assms(2)]
  by (auto simp: predicateToStruct_def Let_def unmarshal_map_def to_map_def struct simp del: print_json.simps)

text \<open>A wrapped receipt has a predicate that agrees with \<open>receipt_predicate\<close>.\<close>

lemma Wrap_predicate:
  assumes "Wrap L now content pub subj typ = Inr r"
  shows "\<exists>c ms ns. jcs_transform L content = Inr c \<and> json_parse r = Inr (JObj ms)
    \<and> jget_str ms ''predicate_type'' = Some ''gemara-receipt/v1'' \<and> jget_obj ms ''predicate'' = Some ns
    \<and> obj_le (receipt_predicate c pub typ now) ns"
proof -
  obtain c p b where c: "jcs_transform L content = Inr c"
    and p: "predicateToStruct L (JObj (receipt_predicate c pub typ now)) = Inr p"
    and b: "proto_marshal L \<lparr>stmtType = StatementTypeUri L, stmtSubjectNames = [subj],
      stmtPredicateType = ''gemara-receipt/v1'', stmtPredicate = p\<rparr> = Inr b"
    and r: "jcs_transform L b = Inr r"
    using assms by (auto simp: Wrap_def split: sum.splits)
  have "wf_json (JObj (receipt_predicate c pub typ now))" by (simp add: receipt_predicate_def)
  then obtain ps where ps: "p = JObj ps" "obj_le (receipt_predicate c pub typ now) ps"
    using predicate_struct [OF p] obj_le_same by blast
  obtain ms q where ms: "json_parse b = Inr (JObj ms)" "jget ms ''predicate_type'' = Some (JStr ''gemara-receipt/v1'')"
      "jget ms ''predicate'' = Some q" "same_data p q"
    using proto [OF b] by auto
  obtain qs where qs: "q = JObj qs" "obj_le ps qs" using ms(4) ps(1) obj_le_same by blast
  obtain ns where ns: "json_parse r = Inr (JObj ns)" "obj_le ms ns"
    using jcs [OF r ms(1)] obj_le_same by blast
  obtain us where us: "jget_obj ns ''predicate'' = Some us" "obj_le qs us"
    using obj_le_obj [OF ns(2)] ms(3) qs(1) by blast
  have "obj_le (receipt_predicate c pub typ now) us"
    by (rule obj_le_trans [OF ps(2) obj_le_trans [OF qs(2) us(2)]])
  then show ?thesis using c ns(1) us(1) obj_le_str [OF ns(2) ms(2)] by blast
qed

lemma Wrap_Unwrap:
  assumes "Wrap L now content pub subj typ = Inr r"
  shows "\<exists>c ms ns. jcs_transform L content = Inr c
    \<and> UnwrapContent r = Inr \<lparr>urContent = c, urPublisher = pub, urFormat = ''gemara-receipt/v1''\<rparr>
    \<and> json_parse r = Inr (JObj ms) \<and> jget_obj ms ''predicate'' = Some ns
    \<and> jget_str ns ''contentDigest'' = Some (content_digest c) \<and> jget_str ns ''artifactType'' = Some typ"
proof -
  obtain c ms ns where w: "jcs_transform L content = Inr c" "json_parse r = Inr (JObj ms)"
      "jget_str ms ''predicate_type'' = Some ''gemara-receipt/v1''" "jget_obj ms ''predicate'' = Some ns"
      and le: "obj_le (receipt_predicate c pub typ now) ns"
    using Wrap_predicate [OF assms] by blast
  have strs: "jget_str ns ''content'' = Some (std_encode c)" "jget_str ns ''contentDigest'' = Some (content_digest c)"
      "jget_str ns ''artifactType'' = Some typ"
    using obj_le_str [OF le] by (simp_all add: receipt_predicate_def jget_def)
  obtain us where us: "jget_obj ns ''publisher'' = Some us"
      "obj_le [(''issuer'', JStr (pbIssuer pub)), (''sub'', JStr (pbSub pub))] us"
    using obj_le_obj [OF le, of "''publisher''"] by (auto simp: receipt_predicate_def jget_def)
  have "jget_str us ''issuer'' = Some (pbIssuer pub)" "jget_str us ''sub'' = Some (pbSub pub)"
    using obj_le_str [OF us(2)] by (simp_all add: jget_def)
  then have "extractPublisher ns = Inr pub" using us(1) by (simp add: extractPublisher_def)
  then show ?thesis
    using w strs by (simp add: UnwrapContent_def unmarshal_map_def to_map_def)
qed

end

section \<open>A concrete codec\<close>

text \<open>Transformations that print what they parsed.\<close>

definition statement_json :: "Statement \<Rightarrow> json" where
  "statement_json st = JObj
     [(''_type'', JStr (stmtType st)), (''predicate'', stmtPredicate st),
      (''predicate_type'', JStr (stmtPredicateType st)),
      (''subject'', JArr (map (\<lambda>n. JObj [(''name'', JStr n)]) (stmtSubjectNames st)))]"

definition plain_codec :: receipt_lib where
  "plain_codec = \<lparr>
     jcs_transform = (\<lambda>c. case json_parse c of Inl e \<Rightarrow> Inl e
        | Inr j \<Rightarrow> if wf_json j then Inr (print_json j) else Inl (Foreign ''number'')),
     new_struct = (\<lambda>ms. Inr (JObj ms)),
     proto_marshal = (\<lambda>st. if wf_json (stmtPredicate st) then Inr (print_json (statement_json st))
        else Inl (Foreign ''number'')),
     StatementTypeUri = ''https://in-toto.io/Statement/v1''\<rparr>"

lemma proto_plain:
  assumes "wf_json (stmtPredicate st)"
  shows "json_parse (print_json (statement_json st)) = Inr (statement_json st)"
proof -
  have "wf_json (statement_json st)" using assms by (simp add: statement_json_def)
  then show ?thesis by (rule json_parse_print)
qed

interpretation plain: receipt_codec plain_codec
proof unfold_locales
  show "\<exists>ms p. json_parse bs = Inr (JObj ms) \<and> jget ms ''predicate_type'' = Some (JStr (stmtPredicateType st))
      \<and> jget ms ''predicate'' = Some p \<and> same_data (stmtPredicate st) p"
    if "proto_marshal plain_codec st = Inr bs" for st bs
    using that proto_plain [of st] by (auto simp: plain_codec_def same_data_refl statement_json_def jget_def
        simp del: print_json.simps split: if_splits)
  show "\<exists>j'. json_parse c' = Inr j' \<and> same_data j j'"
    if "jcs_transform plain_codec c = Inr c'" "json_parse c = Inr j" for c c' j
    using that by (auto simp: plain_codec_def same_data_refl split: if_splits)
qed (simp add: plain_codec_def same_data_refl)

lemma plain_wraps:
  assumes "json_parse content = Inr j" "wf_json j"
  shows "\<exists>r. Wrap plain_codec now content pub subj typ = Inr r"
proof -
  have c: "jcs_transform plain_codec content = Inr (print_json j)" using assms by (simp add: plain_codec_def)
  let ?p = "JObj (receipt_predicate (print_json j) pub typ now)"
  have wf: "wf_json ?p" by (simp add: receipt_predicate_def)
  have p: "predicateToStruct plain_codec ?p = Inr ?p"
    unfolding predicateToStruct_def Let_def unmarshal_map_def json_parse_print [OF wf]
    by (simp add: to_map_def plain_codec_def)
  let ?st = "\<lparr>stmtType = StatementTypeUri plain_codec, stmtSubjectNames = [subj],
    stmtPredicateType = ''gemara-receipt/v1'', stmtPredicate = ?p\<rparr>"
  have m: "proto_marshal plain_codec ?st = Inr (print_json (statement_json ?st))"
    using wf by (simp add: plain_codec_def)
  have "wf_json (statement_json ?st)" using wf by (simp add: statement_json_def)
  then have "\<exists>r. jcs_transform plain_codec (print_json (statement_json ?st)) = Inr r"
    using proto_plain [of ?st] wf by (simp add: plain_codec_def del: print_json.simps)
  then show ?thesis using c p m by (auto simp: Wrap_def)
qed

section \<open>Properties\<close>

text \<open>
  C18: unwrapping inverts wrapping.  Every receipt \<^verbatim>\<open>Wrap\<close> produces is accepted by
  \<^verbatim>\<open>UnwrapContent\<close>, which returns the canonical content and the publisher that were wrapped, and its
  predicate carries the digest of that content and the artifact type.
\<close>

theorem wrap_then_unwrap:
  assumes "receipt_codec L" "Wrap L now content pub subj typ = Inr r"
  shows "\<exists>c ms ns. jcs_transform L content = Inr c
    \<and> UnwrapContent r = Inr \<lparr>urContent = c, urPublisher = pub, urFormat = ''gemara-receipt/v1''\<rparr>
    \<and> json_parse r = Inr (JObj ms) \<and> jget_obj ms ''predicate'' = Some ns
    \<and> jget_str ns ''contentDigest'' = Some (''sha256:'' @ url_encode (sha256 c))
    \<and> jget_str ns ''artifactType'' = Some typ"
  using receipt_codec.Wrap_Unwrap [OF assms] unfolding content_digest_def .

theorem wrap_then_unwrap_witness:
  "\<exists>r. Wrap plain_codec 0 ''{}'' \<lparr>pbIssuer = ''i'', pbSub = ''s''\<rparr> ''app'' ''sbom'' = Inr r
     \<and> UnwrapContent r = Inr \<lparr>urContent = ''{}'', urPublisher = \<lparr>pbIssuer = ''i'', pbSub = ''s''\<rparr>, urFormat = ''gemara-receipt/v1''\<rparr>"
proof -
  have j: "json_parse ''{}'' = Inr (JObj [])" "jcs_transform plain_codec ''{}'' = Inr ''{}''" by code_simp+
  have "\<exists>r. Wrap plain_codec 0 ''{}'' \<lparr>pbIssuer = ''i'', pbSub = ''s''\<rparr> ''app'' ''sbom'' = Inr r"
    by (rule plain_wraps [OF j(1)]) simp
  then obtain r where r: "Wrap plain_codec 0 ''{}'' \<lparr>pbIssuer = ''i'', pbSub = ''s''\<rparr> ''app'' ''sbom'' = Inr r"
    by blast
  then show ?thesis using wrap_then_unwrap [OF plain.receipt_codec_axioms r] j(2) by fastforce
qed

end
