(* ===== verification/GraphLoader.thy ===== *)
theory GraphLoader
  imports GraphReads Receipt GoFiles
begin

text \<open>
  The loader of the graph service: parsing of catalogs (\<^verbatim>\<open>internal/graph/parser.go\<close>) and the consumer of
  lifecycle events (\<^verbatim>\<open>internal/graph/loader.go\<close>).  The catalog types of go-gemara, the CloudEvents SDK and the
  locker's HTTP endpoint are parameters.
\<close>

section \<open>Catalogs\<close>

text \<open>The fields of the go-gemara types that the parser reads; a mapping is its list of reference identifiers.\<close>

record gemara_control =
  gcId :: string
  gcTitle :: string
  gcObjective :: string
  gcGroup :: string
  gcRequirementTexts :: "string list"
  gcThreats :: "string list list"

record gemara_threat =
  gtId :: string
  gtTitle :: string
  gtDescription :: string
  gtGroup :: string
  gtCapabilities :: "string list list"
  gtVectors :: "string list list"

record gemara_capability =
  gpId :: string
  gpTitle :: string
  gpDescription :: string
  gpGroup :: string

text \<open>\<^verbatim>\<open>json.Unmarshal\<close> into the three catalog types: the identifier in the metadata and the entries.\<close>

record gemara =
  gm_controls :: "bytes \<Rightarrow> (string \<times> gemara_control list) res"
  gm_threats :: "bytes \<Rightarrow> (string \<times> gemara_threat list) res"
  gm_capabilities :: "bytes \<Rightarrow> (string \<times> gemara_capability list) res"

record ParsedArtifact =
  paCatalogID :: string
  paEntities :: "EntityRecord list"
  paEdges :: "EdgeRecord list"

definition references :: "string list list \<Rightarrow> string list" where
  "references mappings = filter (\<lambda>r. r \<noteq> []) (concat mappings)"

definition control_entity :: "string \<Rightarrow> int \<Rightarrow> gemara_control \<Rightarrow> EntityRecord" where
  "control_entity catalogID logIndex control =
     \<lparr>enID = gcId control, enLabel = ''Control'',
      enProperties = [(''title'', CStr (gcTitle control)), (''objective'', CStr (gcObjective control)),
        (''group'', CStr (gcGroup control)), (''catalogID'', CStr catalogID)]
        @ (if gcRequirementTexts control = [] then []
           else [(''assessmentRequirements'', CList (map CStr (gcRequirementTexts control)))]),
      enEvidenceLogIndex = logIndex\<rparr>"

definition control_edges :: "gemara_control \<Rightarrow> EdgeRecord list" where
  "control_edges control = map (\<lambda>r. \<lparr>edFromID = gcId control, edFromLabel = ''Control'', edToID = r,
     edToLabel = ''Threat'', edEdgeType = ''ADDRESSES''\<rparr>) (references (gcThreats control))"

definition parseControlCatalog :: "gemara \<Rightarrow> bytes \<Rightarrow> int \<Rightarrow> ParsedArtifact res" where
  "parseControlCatalog M data logIndex =
     (case gm_controls M data of
        Inl err \<Rightarrow> Inl (ErrorfW ''unmarshaling ControlCatalog: '' err [])
      | Inr (catalogID, controls) \<Rightarrow>
          Inr \<lparr>paCatalogID = catalogID, paEntities = map (control_entity catalogID logIndex) controls,
               paEdges = concat (map control_edges controls)\<rparr>)"

definition threat_entity :: "int \<Rightarrow> gemara_threat \<Rightarrow> EntityRecord" where
  "threat_entity logIndex threat =
     \<lparr>enID = gtId threat, enLabel = ''Threat'',
      enProperties = [(''title'', CStr (gtTitle threat)), (''description'', CStr (gtDescription threat)),
        (''group'', CStr (gtGroup threat))],
      enEvidenceLogIndex = logIndex\<rparr>"

definition threat_edges :: "gemara_threat \<Rightarrow> EdgeRecord list" where
  "threat_edges threat =
     map (\<lambda>r. \<lparr>edFromID = r, edFromLabel = ''Capability'', edToID = gtId threat, edToLabel = ''Threat'',
       edEdgeType = ''INTRODUCES''\<rparr>) (references (gtCapabilities threat))
   @ map (\<lambda>r. \<lparr>edFromID = gtId threat, edFromLabel = ''Threat'', edToID = r, edToLabel = ''Vector'',
       edEdgeType = ''LEVERAGES''\<rparr>) (references (gtVectors threat))"

definition parseThreatCatalog :: "gemara \<Rightarrow> bytes \<Rightarrow> int \<Rightarrow> ParsedArtifact res" where
  "parseThreatCatalog M data logIndex =
     (case gm_threats M data of
        Inl err \<Rightarrow> Inl (ErrorfW ''unmarshaling ThreatCatalog: '' err [])
      | Inr (catalogID, threats) \<Rightarrow>
          Inr \<lparr>paCatalogID = catalogID, paEntities = map (threat_entity logIndex) threats,
               paEdges = concat (map threat_edges threats)\<rparr>)"

definition capability_entity :: "int \<Rightarrow> gemara_capability \<Rightarrow> EntityRecord" where
  "capability_entity logIndex capability =
     \<lparr>enID = gpId capability, enLabel = ''Capability'',
      enProperties = [(''title'', CStr (gpTitle capability)), (''description'', CStr (gpDescription capability)),
        (''group'', CStr (gpGroup capability))],
      enEvidenceLogIndex = logIndex\<rparr>"

definition parseCapabilityCatalog :: "gemara \<Rightarrow> bytes \<Rightarrow> int \<Rightarrow> ParsedArtifact res" where
  "parseCapabilityCatalog M data logIndex =
     (case gm_capabilities M data of
        Inl err \<Rightarrow> Inl (ErrorfW ''unmarshaling CapabilityCatalog: '' err [])
      | Inr (catalogID, capabilities) \<Rightarrow>
          Inr \<lparr>paCatalogID = catalogID, paEntities = map (capability_entity logIndex) capabilities, paEdges = []\<rparr>)"

definition ParseArtifact :: "gemara \<Rightarrow> string \<Rightarrow> bytes \<Rightarrow> int \<Rightarrow> ParsedArtifact res" where
  "ParseArtifact M artifactType data evidenceLogIndex =
     (if artifactType = ''ControlCatalog'' then parseControlCatalog M data evidenceLogIndex
      else if artifactType = ''ThreatCatalog'' then parseThreatCatalog M data evidenceLogIndex
      else if artifactType = ''CapabilityCatalog'' then parseCapabilityCatalog M data evidenceLogIndex
      else Inr \<lparr>paCatalogID = [], paEntities = [], paEdges = []\<rparr>)"

section \<open>Event data\<close>

fun assign_int64 :: "int \<Rightarrow> json list \<Rightarrow> int res" where
  "assign_int64 v [] = Inr v"
| "assign_int64 v (JNull # js) = assign_int64 v js"
| "assign_int64 v (JNum l # js) =
     (case parse_int64 l of (None, i) \<Rightarrow> assign_int64 i js | (Some _, _) \<Rightarrow> Inl JsonUnmarshalTypeError)"
| "assign_int64 v (_ # js) = Inl JsonUnmarshalTypeError"

fun assign_ptr :: "string option \<Rightarrow> json list \<Rightarrow> string option res" where
  "assign_ptr v [] = Inr v"
| "assign_ptr v (JNull # js) = assign_ptr None js"
| "assign_ptr v (JStr s # js) = assign_ptr (Some s) js"
| "assign_ptr v (_ # js) = Inl JsonUnmarshalTypeError"

fun assign_publisher :: "PublisherIdentity \<Rightarrow> json list \<Rightarrow> PublisherIdentity res" where
  "assign_publisher v [] = Inr v"
| "assign_publisher v (JNull # js) = assign_publisher v js"
| "assign_publisher v (JObj ms # js) =
     (case assign_str (piIssuer v) (jvals ms ''issuer'') of Inl e \<Rightarrow> Inl e | Inr iss \<Rightarrow>
     (case assign_str (piSub v) (jvals ms ''sub'') of Inl e \<Rightarrow> Inl e | Inr sub \<Rightarrow>
        assign_publisher \<lparr>piIssuer = iss, piSub = sub\<rparr> js))"
| "assign_publisher v (_ # js) = Inl JsonUnmarshalTypeError"

definition ingested_data_of :: "(string \<times> json) list \<Rightarrow> EvidenceIngestedData res" where
  "ingested_data_of ms =
     (case field_str ms ''contentDigest'' of Inl e \<Rightarrow> Inl e | Inr dig \<Rightarrow>
     (case field_str ms ''artifactType'' of Inl e \<Rightarrow> Inl e | Inr ty \<Rightarrow>
     (case field_str ms ''storageRef'' of Inl e \<Rightarrow> Inl e | Inr ref \<Rightarrow>
     (case field_str ms ''subjectId'' of Inl e \<Rightarrow> Inl e | Inr subj \<Rightarrow>
     (case assign_publisher \<lparr>piIssuer = [], piSub = []\<rparr> (jvals ms ''publisher'') of Inl e \<Rightarrow> Inl e | Inr pub \<Rightarrow>
     (case assign_ptr None (jvals ms ''shardId'') of Inl e \<Rightarrow> Inl e | Inr shard \<Rightarrow>
        Inr \<lparr>eiContentDigest = dig, eiArtifactType = ty, eiStorageRef = ref, eiSubjectID = subj, eiPublisher = pub,
             eiShardID = shard\<rparr>))))))"

definition sealed_data_of :: "(string \<times> json) list \<Rightarrow> EvidenceSealedData res" where
  "sealed_data_of ms =
     (case field_str ms ''contentDigest'' of Inl e \<Rightarrow> Inl e | Inr dig \<Rightarrow>
     (case assign_int64 0 (jvals ms ''logIndex'') of Inl e \<Rightarrow> Inl e | Inr idx \<Rightarrow>
     (case field_str ms ''receiptDigest'' of Inl e \<Rightarrow> Inl e | Inr rdig \<Rightarrow>
     (case field_str ms ''receiptType'' of Inl e \<Rightarrow> Inl e | Inr rty \<Rightarrow>
     (case field_str ms ''storageRef'' of Inl e \<Rightarrow> Inl e | Inr ref \<Rightarrow>
     (case field_str ms ''subjectId'' of Inl e \<Rightarrow> Inl e | Inr subj \<Rightarrow>
     (case assign_ptr None (jvals ms ''shardId'') of Inl e \<Rightarrow> Inl e | Inr shard \<Rightarrow>
        Inr \<lparr>esContentDigest = dig, esLogIndex = idx, esReceiptDigest = rdig, esReceiptType = rty, esStorageRef = ref,
             esSubjectID = subj, esShardID = shard\<rparr>)))))))"

text \<open>
  \<^verbatim>\<open>event.DataAs\<close>: an event without data leaves the struct at its zero value; \<open>sdkErr\<close> is how the SDK reports
  a decoding error.
\<close>

definition DataAs :: "(goerr \<Rightarrow> goerr) \<Rightarrow> ((string \<times> json) list \<Rightarrow> 'a res) \<Rightarrow> cloud_event \<Rightarrow> 'a res" where
  "DataAs sdkErr of_map event =
     (case (case ceData event of None \<Rightarrow> of_map []
            | Some j \<Rightarrow> (case to_map j of Inl e \<Rightarrow> Inl e | Inr ms \<Rightarrow> of_map ms)) of
        Inl e \<Rightarrow> Inl (sdkErr e)
      | Inr d \<Rightarrow> Inr d)"

section \<open>Handlers\<close>

record 'g loader_env =
  loDB :: "'g graph_db"
  loSdk :: ce_sdk
  loDataErr :: "goerr \<Rightarrow> goerr"
  loGemara :: gemara
  loWeb :: web
  loLockerURL :: string
  loNow :: time

text \<open>\<open>None\<close> is the panic of slicing a reference that is shorter than its scheme.\<close>

definition fetchArtifact :: "web \<Rightarrow> string \<Rightarrow> string \<Rightarrow> bytes res option" where
  "fetchArtifact W lockerURL storageRef =
     (if length storageRef < length ''locker://'' then None
      else
        let url = lockerURL @ ''/ledgers/'' @ drop (length ''locker://'') storageRef in
        Some (case web_request W url of
          Some err \<Rightarrow> Inl (ErrorfW ''creating request: '' err [])
        | None \<Rightarrow>
       (case web_do W url of
          Inl err \<Rightarrow> Inl (ErrorfW ''fetching from locker: '' err [])
        | Inr (status, rbody) \<Rightarrow>
          if status \<noteq> 200 then Inl (Errorf (''locker returned '' @ show_int status))
          else case rbody of
            Inl err \<Rightarrow> Inl (ErrorfW ''reading response body: '' err [])
          | Inr data \<Rightarrow> Inr data)))"

definition inferArtifactType :: "bytes \<Rightarrow> string" where
  "inferArtifactType data =
     (case unmarshal_map data of
        Inl err \<Rightarrow> ''unknown''
      | Inr ms \<Rightarrow>
        (case fold (\<lambda>j acc. case acc of Inl e \<Rightarrow> Inl e
                | Inr t \<Rightarrow> (case j of JNull \<Rightarrow> Inr t | JObj ns \<Rightarrow> assign_str t (jvals ns ''type'') | _ \<Rightarrow> Inl JsonUnmarshalTypeError))
              (jvals ms ''metadata'') (Inr []) of
           Inl err \<Rightarrow> ''unknown''
         | Inr t \<Rightarrow> if t = [] then ''unknown'' else t))"

text \<open>A sequence of commands that stops at the first error.\<close>

definition and_then :: "('g \<Rightarrow> goerr option \<times> 'g) \<Rightarrow> ('g \<Rightarrow> goerr option \<times> 'g) \<Rightarrow> 'g \<Rightarrow> goerr option \<times> 'g" where
  "and_then a b g = (case a g of (Some err, g') \<Rightarrow> (Some err, g') | (None, g') \<Rightarrow> b g')"

definition wrapping :: "string \<Rightarrow> ('g \<Rightarrow> goerr option \<times> 'g) \<Rightarrow> 'g \<Rightarrow> goerr option \<times> 'g" where
  "wrapping what a g = (case a g of (Some err, g') \<Rightarrow> (Some (ErrorfW what err []), g') | (None, g') \<Rightarrow> (None, g'))"

definition succeed :: "'g \<Rightarrow> goerr option \<times> 'g" where
  "succeed g = (None, g)"

definition stub_entity :: "int \<Rightarrow> string \<Rightarrow> string \<Rightarrow> EntityRecord" where
  "stub_entity logIndex x label =
     \<lparr>enID = x, enLabel = label, enProperties = [(''stub'', CBool True)], enEvidenceLogIndex = logIndex\<rparr>"

fun upsert_entities :: "'g graph_db \<Rightarrow> string \<Rightarrow> EntityRecord list \<Rightarrow> 'g \<Rightarrow> goerr option \<times> 'g" where
  "upsert_entities D what [] = succeed"
| "upsert_entities D what (entity # rest) =
     and_then (wrapping (what @ enID entity @ '': '') (UpsertEntity D entity)) (upsert_entities D what rest)"

fun upsert_edges :: "'g graph_db \<Rightarrow> int \<Rightarrow> EdgeRecord list \<Rightarrow> 'g \<Rightarrow> goerr option \<times> 'g" where
  "upsert_edges D logIndex [] = succeed"
| "upsert_edges D logIndex (edge # rest) =
     and_then (upsert_entities D ''upserting stub entity ''
        [stub_entity logIndex (edFromID edge) (edFromLabel edge), stub_entity logIndex (edToID edge) (edToLabel edge)])
     (and_then (wrapping (''upserting edge '' @ edFromID edge @ ''->'' @ edToID edge @ '': '') (UpsertEdge D edge))
        (upsert_edges D logIndex rest))"

definition processArtifact :: "gemara \<Rightarrow> 'g graph_db \<Rightarrow> string \<Rightarrow> bytes \<Rightarrow> int \<Rightarrow> 'g \<Rightarrow> goerr option \<times> 'g" where
  "processArtifact M D artifactType data logIndex g =
     (case ParseArtifact M artifactType data logIndex of
        Inl err \<Rightarrow> (Some (ErrorfW ''parsing artifact: '' err []), g)
      | Inr parsed \<Rightarrow>
          and_then (upsert_entities D ''upserting entity '' (paEntities parsed)) (upsert_edges D logIndex (paEdges parsed)) g)"

definition handleIngested :: "'g loader_env \<Rightarrow> cloud_event \<Rightarrow> 'g \<Rightarrow> goerr option \<times> 'g" where
  "handleIngested E event g =
     (case DataAs (loDataErr E) ingested_data_of event of
        Inl err \<Rightarrow> (Some (ErrorfW ''extracting ingested data: '' err []), g)
      | Inr data \<Rightarrow>
        (let iss = piIssuer (eiPublisher data); sub = piSub (eiPublisher data) in
         and_then (wrapping ''upserting subject: '' (UpsertSubject (loDB E) (eiSubjectID data)))
        (and_then (wrapping ''upserting publisher: '' (UpsertPublisher (loDB E) iss sub))
           (wrapping ''upserting ingested stub: ''
              (UpsertIngestedStub (loDB E) (eiContentDigest data) (eiSubjectID data) iss sub))) g))"

definition placeholder :: "string \<times> string" where
  "placeholder = (''locker-service'', ''locker'')"

text \<open>The publisher that a lookup gives: the placeholder when it fails or finds nothing.\<close>

definition attributed :: "(string \<times> string) res \<Rightarrow> string \<times> string" where
  "attributed r = (case r of Inl err \<Rightarrow> placeholder | Inr (iss, sub) \<Rightarrow> if iss = [] then placeholder else (iss, sub))"

definition sealed_time :: "time \<Rightarrow> cloud_event \<Rightarrow> time" where
  "sealed_time now event = (if ceTime event = zero_time then now else ceTime event)"

definition sealed_record :: "time \<Rightarrow> cloud_event \<Rightarrow> EvidenceSealedData \<Rightarrow> bytes \<Rightarrow> string \<times> string \<Rightarrow> EvidenceRecord" where
  "sealed_record now event data artifactData pub =
     \<lparr>evLogIndex = esLogIndex data, evDigest = esContentDigest data, evReceiptDigest = esReceiptDigest data,
      evArtifactType = inferArtifactType artifactData, evStatus = ''sealed'', evSubjectID = esSubjectID data,
      evPublisherIssuer = fst pub, evPublisherSub = snd pub, evSealed = sealed_time now event\<rparr>"

text \<open>\<open>None\<close> is a panic.\<close>

definition handleSealed :: "'g loader_env \<Rightarrow> cloud_event \<Rightarrow> 'g \<Rightarrow> goerr option option \<times> 'g" where
  "handleSealed E event g =
     (case DataAs (loDataErr E) sealed_data_of event of
        Inl err \<Rightarrow> (Some (Some (ErrorfW ''extracting sealed data: '' err [])), g)
      | Inr data \<Rightarrow>
     (case fetchArtifact (loWeb E) (loLockerURL E) (esStorageRef data) of
        None \<Rightarrow> (None, g)
      | Some (Inl err) \<Rightarrow> (Some (Some (ErrorfW ''fetching artifact: '' err [])), g)
      | Some (Inr receiptBytes) \<Rightarrow>
     (case UnwrapContent receiptBytes of
        Inl err \<Rightarrow> (Some (Some (ErrorfW ''unwrapping receipt: '' err [])), g)
      | Inr unwrapped \<Rightarrow>
     (case wrapping ''upserting subject: '' (UpsertSubject (loDB E) (esSubjectID data)) g of
        (Some err, g1) \<Rightarrow> (Some (Some err), g1)
      | (None, g1) \<Rightarrow>
     (case FindPublisherByDigest (loDB E) (esSubjectID data) (esContentDigest data) g1 of
        (None, g2) \<Rightarrow> (None, g2)
      | (Some found, g2) \<Rightarrow>
        let pub = attributed found; ev = sealed_record (loNow E) event data (urContent unwrapped) pub in
        case and_then (wrapping ''upserting publisher: '' (UpsertPublisher (loDB E) (fst pub) (snd pub)))
            (and_then (wrapping ''upserting evidence: '' (UpsertEvidence (loDB E) ev))
               (wrapping ''processing artifact: ''
                  (processArtifact (loGemara E) (loDB E) (evArtifactType ev) (urContent unwrapped) (esLogIndex data)))) g2 of
          (r, g3) \<Rightarrow> (Some r, g3))))))"

definition handleSubjectRegistered :: "'g loader_env \<Rightarrow> cloud_event \<Rightarrow> 'g \<Rightarrow> goerr option \<times> 'g" where
  "handleSubjectRegistered E event g =
     (case DataAs (loDataErr E) (\<lambda>ms. field_str ms ''subjectId'') event of
        Inl err \<Rightarrow> (Some (ErrorfW ''extracting subject data: '' err []), g)
      | Inr subjectID \<Rightarrow> wrapping ''upserting subject: '' (UpsertSubject (loDB E) subjectID) g)"

definition parseCloudEvent :: "ce_sdk \<Rightarrow> bytes \<Rightarrow> cloud_event res" where
  "parseCloudEvent sdk data =
     (case ce_parse sdk data of Inl err \<Rightarrow> Inl (ErrorfW ''unmarshaling CloudEvent: '' err []) | Inr event \<Rightarrow> Inr event)"

text \<open>Type assertions and a comparison: none looks through wrapped errors.\<close>

definition isPermanentError :: "goerr \<Rightarrow> bool" where
  "isPermanentError err =
     (case err of JsonUnmarshalTypeError \<Rightarrow> True | JsonSyntaxError \<Rightarrow> True | ContextCanceled \<Rightarrow> True | _ \<Rightarrow> False)"

definition loader_retryDelay :: duration where "loader_retryDelay = 5 * second"

definition handle_event :: "'g loader_env \<Rightarrow> cloud_event \<Rightarrow> 'g \<Rightarrow> goerr option option \<times> 'g" where
  "handle_event E event g =
     (if ceType event = TypeEvidenceIngested then (case handleIngested E event g of (r, g') \<Rightarrow> (Some r, g'))
      else if ceType event = TypeEvidenceSealed then handleSealed E event g
      else (case handleSubjectRegistered E event g of (r, g') \<Rightarrow> (Some r, g')))"

definition loader_handleMessage :: "'g loader_env \<Rightarrow> bytes \<Rightarrow> 'g \<Rightarrow> verdict option \<times> 'g" where
  "loader_handleMessage E data g =
     (case parseCloudEvent (loSdk E) data of
        Inl err \<Rightarrow> (Some Term, g)
      | Inr event \<Rightarrow>
        if ceType event \<notin> {TypeEvidenceIngested, TypeEvidenceSealed, TypeSubjectRegistered} then (Some Ack, g)
        else case handle_event E event g of
          (None, g') \<Rightarrow> (None, g')
        | (Some (Some err), g') \<Rightarrow>
            (Some (if isPermanentError err then Term else NakWithDelay loader_retryDelay), g')
        | (Some None, g') \<Rightarrow> (Some Ack, g'))"

text \<open>
  One turn of the loop of \<^verbatim>\<open>consume\<close>: a stop signal, a cancelled context, a failed fetch with the context live or
  cancelled, or a batch.  A panic ends the process: the run has no result.
\<close>

datatype loader_event = LoaderStop | LoaderCancelled | LoaderFetchFailed goerr bool | Batch "bytes list"

fun loader_batch :: "'g loader_env \<Rightarrow> bytes list \<Rightarrow> 'g \<Rightarrow> (verdict list \<times> 'g) option" where
  "loader_batch E [] g = Some ([], g)"
| "loader_batch E (m # ms) g =
     (case loader_handleMessage E m g of
        (None, g') \<Rightarrow> None
      | (Some v, g') \<Rightarrow> map_option (\<lambda>(vs, g''). (v # vs, g'')) (loader_batch E ms g'))"

fun consume :: "'g loader_env \<Rightarrow> loader_event list \<Rightarrow> 'g \<Rightarrow> (verdict list \<times> 'g) option" where
  "consume E [] g = Some ([], g)"
| "consume E (LoaderStop # evs) g = Some ([], g)"
| "consume E (LoaderCancelled # evs) g = Some ([], g)"
| "consume E (LoaderFetchFailed err cancelled # evs) g = (if cancelled then Some ([], g) else consume E evs g)"
| "consume E (Batch ms # evs) g =
     (case loader_batch E ms g of
        None \<Rightarrow> None
      | Some (vs, g') \<Rightarrow> map_option (\<lambda>(vs', g''). (vs @ vs', g'')) (consume E evs g'))"

definition LoaderStart ::
    "'g loader_env \<Rightarrow> (string \<Rightarrow> ConsumerConfig \<Rightarrow> goerr option) \<Rightarrow> loader_event list \<Rightarrow> 'g
       \<Rightarrow> goerr option \<times> (verdict list \<times> 'g) option" where
  "LoaderStart E js_create_consumer evs g =
     (case js_create_consumer StreamEvidence GraphLoaderConsumerConfig of
        Some err \<Rightarrow> (Some (ErrorfW ''creating graph loader consumer: '' err []), Some ([], g))
      | None \<Rightarrow> (None, consume E evs g))"

section \<open>Sequences of commands\<close>

lemma follows_wrapping: "follows xss S view a \<Longrightarrow> follows xss S view (wrapping w a)"
proof -
  assume a: "follows xss S view a"
  show ?thesis
    unfolding follows_def
  proof (intro allI impI)
    fix g e g'
    assume g: "keyed (view g)" "S \<subseteq> dom (kgNodes (abs_graph (view g)))" "wrapping w a g = (e, g')"
    then obtain e1 where "a g = (e1, g')" "e1 = None \<longleftrightarrow> e = None"
      by (auto simp: wrapping_def split: prod.splits option.splits)
    then show "keyed (view g') \<and> (\<exists>n \<le> length xss. abs_graph (view g') = run_kops (concat (take n xss)) (abs_graph (view g))
        \<and> (e = None \<longrightarrow> n = length xss))"
      using a g(1,2) unfolding follows_def by blast
  qed
qed

lemma followsE:
  assumes "follows xss S view op" "keyed (view g)" "op g = (e, g')" "S \<subseteq> dom (kgNodes (abs_graph (view g)))"
  obtains n where "keyed (view g')" "n \<le> length xss" "e = None \<longrightarrow> n = length xss"
    "abs_graph (view g') = run_kops (concat (take n xss)) (abs_graph (view g))"
  using assms unfolding follows_def by blast

lemma follows_succeed: "follows [] S view succeed"
  by (simp add: follows_def succeed_def)

lemma follows_mono: "follows xss S view a \<Longrightarrow> S \<subseteq> S' \<Longrightarrow> follows xss S' view a"
  unfolding follows_def by blast

lemma follows_and_then:
  assumes a: "follows xs S view a" and b: "follows ys S' view b" and S': "S' \<subseteq> S \<union> all_upserted (concat xs)"
  shows "follows (xs @ ys) S view (and_then a b)"
  unfolding follows_def
proof (intro allI impI)
  fix g e g'
  assume g: "keyed (view g)" "S \<subseteq> dom (kgNodes (abs_graph (view g)))" "and_then a b g = (e, g')"
  obtain e1 g1 where a1: "a g = (e1, g1)" by fastforce
  then obtain n where n: "keyed (view g1)" "n \<le> length xs" "e1 = None \<longrightarrow> n = length xs"
      "abs_graph (view g1) = run_kops (concat (take n xs)) (abs_graph (view g))"
    using a g(1,2) unfolding follows_def by blast
  show "keyed (view g') \<and> (\<exists>n \<le> length (xs @ ys). abs_graph (view g') = run_kops (concat (take n (xs @ ys))) (abs_graph (view g))
      \<and> (e = None \<longrightarrow> n = length (xs @ ys)))"
  proof (cases e1)
    case (Some err)
    then have "g' = g1" "e \<noteq> None" using g(3) a1 by (auto simp: and_then_def)
    then show ?thesis using n by (intro conjI exI [of _ n]) auto
  next
    case None
    then have all: "n = length xs" and b1: "b g1 = (e, g')" using n(3) g(3) a1 by (auto simp: and_then_def)
    then have "S' \<subseteq> dom (kgNodes (abs_graph (view g1)))" using n(4) S' g(2) by (auto simp: dom_run_kops)
    then obtain m where "keyed (view g')" "m \<le> length ys" "e = None \<longrightarrow> m = length ys"
        "abs_graph (view g') = run_kops (concat (take m ys)) (abs_graph (view g1))"
      using b n(1) b1 unfolding follows_def by blast
    then show ?thesis using n(4) all by (intro conjI exI [of _ "length xs + m"]) auto
  qed
qed

section \<open>Effects of the handlers\<close>

definition entity_kops :: "EntityRecord \<Rightarrow> kop list" where
  "entity_kops en = [KUpsert (entity_key (enLabel en) (enID en)) (enProperties en),
     KRel (evidence_key (enEvidenceLogIndex en)) ''DEFINES'' (entity_key (enLabel en) (enID en))]"

definition edge_kops :: "int \<Rightarrow> EdgeRecord \<Rightarrow> kop list list" where
  "edge_kops i ed = [entity_kops (stub_entity i (edFromID ed) (edFromLabel ed)), entity_kops (stub_entity i (edToID ed) (edToLabel ed)),
     [KRel (entity_key (edFromLabel ed) (edFromID ed)) (edEdgeType ed) (entity_key (edToLabel ed) (edToID ed))]]"

definition artifact_kops :: "gemara \<Rightarrow> string \<Rightarrow> bytes \<Rightarrow> int \<Rightarrow> kop list list" where
  "artifact_kops M ty data i = (case ParseArtifact M ty data i of
       Inl _ \<Rightarrow> [] | Inr p \<Rightarrow> map entity_kops (paEntities p) @ concat (map (edge_kops i) (paEdges p)))"

definition ingested_kops :: "EvidenceIngestedData \<Rightarrow> kop list list" where
  "ingested_kops d =
     (let s = subject_key (eiSubjectID d); p = publisher_key (piIssuer (eiPublisher d)) (piSub (eiPublisher d));
          k = stub_key (eiContentDigest d) (eiSubjectID d)
      in [[KUpsert s []], [KUpsert p []], [KUpsert k [], KRel k ''TARGETS'' s, KRel k ''PUBLISHED_BY'' p]])"

definition evidence_kops :: "EvidenceRecord \<Rightarrow> kop list" where
  "evidence_kops ev =
     (let s = subject_key (evSubjectID ev); p = publisher_key (evPublisherIssuer ev) (evPublisherSub ev);
          e = evidence_key (evLogIndex ev)
      in [KUpsert e (evidence_props ev), KRel e ''TARGETS'' s, KRel e ''PUBLISHED_BY'' p])"

text \<open>The publishers that ingested events recorded for a digest, and the publisher a lookup then finds.\<close>

definition stub_publishers :: "kgraph \<Rightarrow> string \<Rightarrow> string \<Rightarrow> nkey set" where
  "stub_publishers K d s = {p. (stub_key d s, ''PUBLISHED_BY'', p) \<in> kgRels K}"

definition expected :: "kgraph \<Rightarrow> string \<Rightarrow> string \<Rightarrow> string \<times> string \<Rightarrow> bool" where
  "expected K d s pub \<longleftrightarrow> stub_publishers K d s = {} \<and> pub = placeholder
     \<or> fst pub \<noteq> [] \<and> stub_publishers K d s = {publisher_key (fst pub) (snd pub)}"

text \<open>A database that answers a query.\<close>

definition answers :: "'g graph_db \<Rightarrow> query \<Rightarrow> bool" where
  "answers D q \<longleftrightarrow> (\<forall>g ps. \<exists>rows g'. run D g q ps = (Inr (rows, None), g'))"

text \<open>Everything a sealed event does to the graph when its publisher is known.\<close>

definition sealed_kops :: "gemara \<Rightarrow> EvidenceRecord \<Rightarrow> bytes \<Rightarrow> kop list list" where
  "sealed_kops M ev content =
     [[KUpsert (subject_key (evSubjectID ev)) []], [KUpsert (publisher_key (evPublisherIssuer ev) (evPublisherSub ev)) []],
      evidence_kops ev] @ artifact_kops M (evArtifactType ev) content (evLogIndex ev)"

lemma parsed_ok:
  assumes "ParseArtifact M ty data i = Inr p"
  shows "\<forall>en \<in> set (paEntities p). entity_ok en \<and> enEvidenceLogIndex en = i"
    and "\<forall>ed \<in> set (paEdges p). entity_label (edFromLabel ed) \<and> entity_label (edToLabel ed)"
  using assms
  by (auto simp: ParseArtifact_def parseControlCatalog_def parseThreatCatalog_def parseCapabilityCatalog_def
      control_entity_def threat_entity_def capability_entity_def control_edges_def threat_edges_def
      entity_ok_def entity_label_def split: if_splits sum.splits)

lemma stub_entity_ok: "entity_label l \<Longrightarrow> entity_ok (stub_entity i x l)" "enEvidenceLogIndex (stub_entity i x l) = i"
  by (simp_all add: stub_entity_def entity_ok_def)

context memgraph
begin

lemma entities_follow:
  "\<forall>en \<in> set ens. entity_ok en \<and> enEvidenceLogIndex en = i \<Longrightarrow>
   follows (map entity_kops ens) {evidence_key i} view (upsert_entities D what ens)"
proof (induction ens)
  case Nil
  show ?case by (simp add: follows_succeed)
next
  case (Cons en ens)
  have "follows [entity_kops en] {evidence_key i} view (UpsertEntity D en)"
    using entity_follows [of en] Cons.prems by (simp add: entity_kops_def)
  then have "follows ([entity_kops en] @ map entity_kops ens) {evidence_key i} view (upsert_entities D what (en # ens))"
    unfolding upsert_entities.simps by (intro follows_and_then [OF follows_wrapping]) (use Cons in auto)
  then show ?case by simp
qed

lemma edges_follow:
  "\<forall>ed \<in> set eds. entity_label (edFromLabel ed) \<and> entity_label (edToLabel ed) \<Longrightarrow>
   follows (concat (map (edge_kops i) eds)) {evidence_key i} view (upsert_edges D i eds)"
proof (induction eds)
  case Nil
  show ?case by (simp add: follows_succeed)
next
  case (Cons ed eds)
  let ?a = "entity_key (edFromLabel ed) (edFromID ed)" and ?b = "entity_key (edToLabel ed) (edToID ed)"
  let ?stubs = "[stub_entity i (edFromID ed) (edFromLabel ed), stub_entity i (edToID ed) (edToLabel ed)]"
  have A: "follows (map entity_kops ?stubs) {evidence_key i} view (upsert_entities D ''upserting stub entity '' ?stubs)"
    by (rule entities_follow) (use Cons.prems stub_entity_ok in auto)
  have B: "follows [[KRel ?a (edEdgeType ed) ?b]] {?a, ?b} view (wrapping w (UpsertEdge D ed))" for w
    using edge_follows Cons.prems by (intro follows_wrapping) simp
  have C: "follows (concat (map (edge_kops i) eds)) {evidence_key i} view (upsert_edges D i eds)"
    using Cons by simp
  have BC: "follows ([[KRel ?a (edEdgeType ed) ?b]] @ concat (map (edge_kops i) eds)) {evidence_key i, ?a, ?b} view
      (and_then (wrapping w (UpsertEdge D ed)) (upsert_edges D i eds))" for w
    by (rule follows_and_then [OF follows_mono [OF B] C]) auto
  have "{evidence_key i, ?a, ?b} \<subseteq> {evidence_key i} \<union> all_upserted (concat (map entity_kops ?stubs))"
    by (auto simp: entity_kops_def stub_entity_def)
  then have "follows (map entity_kops ?stubs @ [[KRel ?a (edEdgeType ed) ?b]] @ concat (map (edge_kops i) eds))
      {evidence_key i} view (upsert_edges D i (ed # eds))"
    unfolding upsert_edges.simps by (rule follows_and_then [OF A BC])
  then show ?case by (simp add: edge_kops_def [of i ed] del: upsert_edges.simps)
qed

lemma artifact_follows: "follows (artifact_kops M ty data i) {evidence_key i} view (processArtifact M D ty data i)"
proof (cases "ParseArtifact M ty data i")
  case (Inl err)
  then show ?thesis by (simp add: follows_def processArtifact_def artifact_kops_def)
next
  case (Inr p)
  have "follows (map entity_kops (paEntities p) @ concat (map (edge_kops i) (paEdges p))) {evidence_key i} view
      (and_then (upsert_entities D ''upserting entity '' (paEntities p)) (upsert_edges D i (paEdges p)))"
    by (rule follows_and_then [OF entities_follow [OF parsed_ok(1) [OF Inr]] edges_follow [OF parsed_ok(2) [OF Inr]]]) auto
  moreover have "processArtifact M D ty data i
      = and_then (upsert_entities D ''upserting entity '' (paEntities p)) (upsert_edges D i (paEdges p))"
    using Inr by (simp add: fun_eq_iff processArtifact_def)
  ultimately show ?thesis using Inr by (simp add: artifact_kops_def)
qed

lemma ingested_follows:
  assumes "DataAs (loDataErr E) ingested_data_of event = Inr d" "loDB E = D"
  shows "follows (ingested_kops d) {} view (handleIngested E event)"
proof -
  let ?s = "subject_key (eiSubjectID d)" and ?p = "publisher_key (piIssuer (eiPublisher d)) (piSub (eiPublisher d))"
  let ?k = "stub_key (eiContentDigest d) (eiSubjectID d)"
  have pk: "follows ([[KUpsert ?p []]] @ [[KUpsert ?k [], KRel ?k ''TARGETS'' ?s, KRel ?k ''PUBLISHED_BY'' ?p]]) {?s} view
      (and_then (wrapping v (UpsertPublisher D (piIssuer (eiPublisher d)) (piSub (eiPublisher d))))
         (wrapping w (UpsertIngestedStub D (eiContentDigest d) (eiSubjectID d) (piIssuer (eiPublisher d)) (piSub (eiPublisher d)))))" for v w
    by (rule follows_and_then [OF follows_mono [OF follows_wrapping [OF publisher_follows]] follows_wrapping [OF stub_follows]]) auto
  have "follows ([[KUpsert ?s []]] @ [[KUpsert ?p []]] @ [[KUpsert ?k [], KRel ?k ''TARGETS'' ?s, KRel ?k ''PUBLISHED_BY'' ?p]]) {} view
      (and_then (wrapping u (UpsertSubject D (eiSubjectID d)))
        (and_then (wrapping v (UpsertPublisher D (piIssuer (eiPublisher d)) (piSub (eiPublisher d))))
         (wrapping w (UpsertIngestedStub D (eiContentDigest d) (eiSubjectID d) (piIssuer (eiPublisher d)) (piSub (eiPublisher d))))))" for u v w
    by (rule follows_and_then [OF follows_wrapping [OF subject_follows] pk]) auto
  moreover have "handleIngested E event
      = (and_then (wrapping ''upserting subject: '' (UpsertSubject D (eiSubjectID d)))
        (and_then (wrapping ''upserting publisher: '' (UpsertPublisher D (piIssuer (eiPublisher d)) (piSub (eiPublisher d))))
         (wrapping ''upserting ingested stub: ''
           (UpsertIngestedStub D (eiContentDigest d) (eiSubjectID d) (piIssuer (eiPublisher d)) (piSub (eiPublisher d))))))"
    using assms by (simp add: fun_eq_iff handleIngested_def Let_def)
  ultimately show ?thesis by (simp add: ingested_kops_def Let_def)
qed

text \<open>What remains of a sealed event once its publisher is known.\<close>

lemma recording_follows:
  "follows ([[KUpsert (publisher_key (evPublisherIssuer ev) (evPublisherSub ev)) []], evidence_kops ev]
      @ artifact_kops M (evArtifactType ev) content (evLogIndex ev)) {subject_key (evSubjectID ev)} view
    (and_then (wrapping u (UpsertPublisher D (evPublisherIssuer ev) (evPublisherSub ev)))
      (and_then (wrapping v (UpsertEvidence D ev))
        (wrapping w (processArtifact M D (evArtifactType ev) content (evLogIndex ev)))))"
proof -
  let ?s = "subject_key (evSubjectID ev)" and ?p = "publisher_key (evPublisherIssuer ev) (evPublisherSub ev)"
  have E: "follows [evidence_kops ev] {?s, ?p} view (wrapping v (UpsertEvidence D ev))"
    using evidence_follows [of ev] by (intro follows_wrapping) (simp add: evidence_kops_def Let_def)
  have EA: "follows ([evidence_kops ev] @ artifact_kops M (evArtifactType ev) content (evLogIndex ev)) {?s, ?p} view
      (and_then (wrapping v (UpsertEvidence D ev)) (wrapping w (processArtifact M D (evArtifactType ev) content (evLogIndex ev))))"
    by (rule follows_and_then [OF E follows_wrapping [OF artifact_follows]]) (auto simp: evidence_kops_def Let_def)
  have "follows ([[KUpsert ?p []]] @ [evidence_kops ev] @ artifact_kops M (evArtifactType ev) content (evLogIndex ev)) {?s} view
      (and_then (wrapping u (UpsertPublisher D (evPublisherIssuer ev) (evPublisherSub ev)))
        (and_then (wrapping v (UpsertEvidence D ev)) (wrapping w (processArtifact M D (evArtifactType ev) content (evLogIndex ev)))))"
    by (rule follows_and_then [OF follows_mono [OF follows_wrapping [OF publisher_follows]] EA]) auto
  then show ?thesis by simp
qed

lemma find_publisher_view: "FindPublisherByDigest D s d g = (x, g') \<Longrightarrow> view g' = view g"
proof -
  assume f: "FindPublisherByDigest D s d g = (x, g')"
  have "list_all reads (qClauses publisher_by_digest)" by (simp add: publisher_by_digest_def)
  moreover obtain y where "run D g publisher_by_digest [(''digest'', CStr d), (''subjectID'', CStr s)] = (y, g')"
    using f by (auto simp: FindPublisherByDigest_def split: prod.splits sum.splits list.splits)
  ultimately show ?thesis by (rule run_reads)
qed

text \<open>A sealed event, with the lookup of its publisher described by what it can return.\<close>

lemma sealed_follows:
  assumes g: "keyed (view g)" and D: "loDB E = D" and h: "handleSealed E event g = (r, g')"
    and d: "DataAs (loDataErr E) sealed_data_of event = Inr d"
    and f: "fetchArtifact (loWeb E) (loLockerURL E) (esStorageRef d) = Some (Inr receipt)"
    and u: "UnwrapContent receipt = Inr unw"
    and ev: "ev = sealed_record (loNow E) event d (urContent unw) pub"
    and pub: "\<And>g1 x g2. keyed (view g1) \<Longrightarrow> abs_graph (view g1) = run_kops [KUpsert (subject_key (esSubjectID d)) []] (abs_graph (view g)) \<Longrightarrow>
      FindPublisherByDigest D (esSubjectID d) (esContentDigest d) g1 = (x, g2) \<Longrightarrow> \<exists>q. x = Some q \<and> attributed q = pub"
  shows "keyed (view g') \<and> (\<exists>n \<le> length (sealed_kops (loGemara E) ev (urContent unw)).
      abs_graph (view g') = run_kops (concat (take n (sealed_kops (loGemara E) ev (urContent unw)))) (abs_graph (view g))
      \<and> (r = Some None \<longrightarrow> n = length (sealed_kops (loGemara E) ev (urContent unw)))) \<and> r \<noteq> None"
proof -
  let ?s = "esSubjectID d" and ?M = "loGemara E" and ?c = "urContent unw"
  let ?rest = "[[KUpsert (publisher_key (evPublisherIssuer ev) (evPublisherSub ev)) []], evidence_kops ev]
      @ artifact_kops ?M (evArtifactType ev) ?c (evLogIndex ev)"
  have evs: "evSubjectID ev = ?s" "evLogIndex ev = esLogIndex d" "evPublisherIssuer ev = fst pub" "evPublisherSub ev = snd pub"
    by (simp_all add: ev sealed_record_def)
  have kss: "sealed_kops ?M ev ?c = [KUpsert (subject_key ?s) []] # ?rest" by (simp add: sealed_kops_def evs)
  obtain e1 g1 where s1: "wrapping ''upserting subject: '' (UpsertSubject D ?s) g = (e1, g1)" by fastforce
  obtain n where n: "keyed (view g1)" "n \<le> 1" "e1 = None \<longrightarrow> n = 1"
      "abs_graph (view g1) = run_kops (concat (take n [[KUpsert (subject_key ?s) []]])) (abs_graph (view g))"
    by (rule followsE [OF follows_wrapping [OF subject_follows] g s1]) simp_all
  show ?thesis
  proof (cases e1)
    case (Some err)
    then have "g' = g1" "r = Some (Some err)" using h d f u s1 by (simp_all add: handleSealed_def D)
    moreover have "take n (sealed_kops ?M ev ?c) = take n [[KUpsert (subject_key ?s) []]]" using n(2) unfolding kss by (cases n) auto
    ultimately show ?thesis using n unfolding kss by (intro conjI exI [of _ n]) auto
  next
    case None
    then have K1: "abs_graph (view g1) = run_kops [KUpsert (subject_key ?s) []] (abs_graph (view g))" using n by simp
    obtain x g2 where fp: "FindPublisherByDigest D ?s (esContentDigest d) g1 = (x, g2)" by fastforce
    obtain q where q: "x = Some q" "attributed q = pub" using pub [OF n(1) K1 fp] by blast
    have v2: "view g2 = view g1" by (rule find_publisher_view [OF fp])
    have "\<exists>e3. r = Some e3 \<and> and_then (wrapping ''upserting publisher: '' (UpsertPublisher D (evPublisherIssuer ev) (evPublisherSub ev)))
        (and_then (wrapping ''upserting evidence: '' (UpsertEvidence D ev))
          (wrapping ''processing artifact: '' (processArtifact ?M D (evArtifactType ev) ?c (evLogIndex ev)))) g2 = (e3, g')"
      using h by (simp add: handleSealed_def D d f u s1 None fp q(1) Let_def q(2) ev [symmetric] evs split: prod.splits)
    then obtain e3 where t: "r = Some e3" "and_then (wrapping ''upserting publisher: '' (UpsertPublisher D (evPublisherIssuer ev) (evPublisherSub ev)))
        (and_then (wrapping ''upserting evidence: '' (UpsertEvidence D ev))
          (wrapping ''processing artifact: '' (processArtifact ?M D (evArtifactType ev) ?c (evLogIndex ev)))) g2 = (e3, g')"
      by (elim exE conjE)
    have "{subject_key (evSubjectID ev)} \<subseteq> dom (kgNodes (abs_graph (view g2)))" using K1 v2 evs(1) by simp
    then obtain m where m: "keyed (view g')" "m \<le> length ?rest" "e3 = None \<longrightarrow> m = length ?rest"
        "abs_graph (view g') = run_kops (concat (take m ?rest)) (abs_graph (view g2))"
      by (rule followsE [OF recording_follows n(1) [folded v2] t(2)]) simp
    then show ?thesis using K1 v2 t(1) unfolding kss by (intro conjI exI [of _ "Suc m"]) auto
  qed
qed

lemma find_publisher:
  assumes ans: "answers D publisher_by_digest" and g: "keyed (view g)" and ex: "expected (abs_graph (view g)) d s pub"
    and f: "FindPublisherByDigest D s d g = (x, g')"
  shows "\<exists>q. x = Some q \<and> attributed q = pub"
proof -
  let ?ps = "[(''digest'', CStr d), (''subjectID'', CStr s)]"
  obtain rows g1 where r: "run D g publisher_by_digest ?ps = (Inr (rows, None), g1)" using ans unfolding answers_def by blast
  then obtain all where all: "mset all = mset (answer publisher_by_digest ?ps (view g))" "rows = take 1 all"
    using run_ok [OF r] by (auto simp: allowed_answer_def limited_def publisher_by_digest_def)
  note set_all = mset_eq_setD [OF all(1)]
  from ex show ?thesis
    unfolding expected_def
  proof (elim disjE conjE)
    assume none: "stub_publishers (abs_graph (view g)) d s = {}" and p: "pub = placeholder"
    have "r \<notin> set all" for r using none unfolding set_all publisher_rows [OF g] stub_publishers_def by blast
    then have "all = []" by (cases all) auto
    then have "x = Some (Inr ([], []))" using f r all(2) by (simp add: FindPublisherByDigest_def)
    then show ?thesis using p by (simp add: attributed_def)
  next
    assume one: "stub_publishers (abs_graph (view g)) d s = {publisher_key (fst pub) (snd pub)}" and ne: "fst pub \<noteq> []"
    have only: "rw \<in> set all \<longleftrightarrow> rw = [(''issuer'', CStr (fst pub)), (''sub'', CStr (snd pub))]" for rw
    proof -
      have "(stub_key d s, ''PUBLISHED_BY'', p) \<in> kgRels (abs_graph (view g)) \<longleftrightarrow> p = publisher_key (fst pub) (snd pub)" for p
        using one unfolding stub_publishers_def by blast
      then show ?thesis unfolding set_all publisher_rows [OF g] by (simp add: publisher_key_def)
    qed
    then obtain rest where "all = [(''issuer'', CStr (fst pub)), (''sub'', CStr (snd pub))] # rest"
      by (cases all) auto
    then have "FindPublisherByDigest D s d g = (Some (Inr pub), g1)"
      using r all(2) by (simp add: FindPublisherByDigest_def value_of_def as_string_def)
    then show ?thesis using f ne by (cases pub) (simp add: attributed_def)
  qed
qed

end

section \<open>Messages\<close>

lemma type_distinct [simp]:
  "TypeEvidenceSealed \<noteq> TypeEvidenceIngested" "TypeEvidenceIngested \<noteq> TypeEvidenceSealed"
  "TypeSubjectRegistered \<noteq> TypeEvidenceIngested" "TypeSubjectRegistered \<noteq> TypeEvidenceSealed"
  by (simp_all add: TypeEvidenceSealed_def TypeEvidenceIngested_def TypeSubjectRegistered_def)

text \<open>Every error that a handler returns is wrapped.\<close>

lemma wrapping_error: "wrapping w a g = (Some err, g') \<Longrightarrow> \<exists>cause. err = ErrorfW w cause []"
  by (auto simp: wrapping_def split: prod.splits option.splits)

lemma and_then_error:
  assumes "and_then a b g = (Some err, g')"
  shows "(\<exists>g1. a g = (Some err, g1)) \<or> (\<exists>g1. b g1 = (Some err, g'))"
  using assms by (auto simp: and_then_def split: prod.splits option.splits)

lemma handler_error:
  assumes "handle_event E event g = (Some (Some err), g')"
  shows "\<exists>what cause. err = ErrorfW what cause []"
proof -
  consider "handleIngested E event g = (Some err, g')" | "handleSealed E event g = (Some (Some err), g')"
    | "handleSubjectRegistered E event g = (Some err, g')"
    using assms by (auto simp: handle_event_def split: if_splits prod.splits)
  then show ?thesis
    by cases (auto simp: handleIngested_def handleSealed_def handleSubjectRegistered_def Let_def
        dest!: and_then_error wrapping_error split: sum.splits option.splits prod.splits)
qed

lemma message_event:
  assumes "ce_parse (loSdk E) data = Inr event" "ceType event \<in> {TypeEvidenceIngested, TypeEvidenceSealed, TypeSubjectRegistered}"
    and "loader_handleMessage E data g = (Some v, g')"
  obtains r where "handle_event E event g = (Some r, g')" "v = Ack \<longleftrightarrow> r = None"
  using assms by (auto simp: loader_handleMessage_def parseCloudEvent_def split: prod.splits option.splits if_splits)

text \<open>Relationships only grow, by those of the operations.\<close>

lemma kgRels_run_kops: "kgRels (run_kops ops K) = kgRels K \<union> rels_of ops"
  by (simp add: run_kops_overlay overlay_def)

lemma rels_of_append [simp]: "rels_of (xs @ ys) = rels_of xs \<union> rels_of ys" "rels_of [] = {}"
  "rels_of (KUpsert k ps # xs) = rels_of xs" "rels_of (KRel a t b # xs) = insert (a, t, b) (rels_of xs)"
  by (auto simp: rels_of_def)

lemma rels_of_concat: "r \<in> rels_of (concat xss) \<longleftrightarrow> (\<exists>xs \<in> set xss. r \<in> rels_of xs)"
  by (auto simp: rels_of_def)

lemma rels_of_take: "rels_of (concat (take n xss)) \<subseteq> rels_of (concat xss)"
  unfolding rels_of_concat subset_iff by (meson in_set_takeD)

lemma artifact_rels:
  assumes "(a, t, b) \<in> rels_of (concat (artifact_kops M ty data i))"
  shows "fst a \<noteq> ''IngestedStub'' \<and> t \<noteq> ''PUBLISHED_BY'' \<and> t \<noteq> ''TARGETS''"
proof (cases "ParseArtifact M ty data i")
  case (Inr p)
  have "t = edEdgeType ed \<Longrightarrow> ed \<in> set (paEdges p) \<Longrightarrow> t \<noteq> ''PUBLISHED_BY'' \<and> t \<noteq> ''TARGETS''" for ed
    using Inr by (auto simp: ParseArtifact_def parseControlCatalog_def parseThreatCatalog_def parseCapabilityCatalog_def
        control_edges_def threat_edges_def split: if_splits sum.splits)
  then show ?thesis
    using assms Inr parsed_ok [OF Inr]
    by (auto simp: artifact_kops_def rels_of_concat edge_kops_def entity_kops_def key_defs entity_label_def)
qed (use assms in \<open>simp add: artifact_kops_def\<close>)

lemma sealed_rels:
  "(a, t, b) \<in> rels_of (concat (sealed_kops M ev content)) \<Longrightarrow> fst a \<noteq> ''IngestedStub''"
  "(a, ''PUBLISHED_BY'', b) \<in> rels_of (concat (sealed_kops M ev content)) \<longleftrightarrow>
     a = evidence_key (evLogIndex ev) \<and> b = publisher_key (evPublisherIssuer ev) (evPublisherSub ev)"
  using artifact_rels [of a _ b M "evArtifactType ev" content "evLogIndex ev"]
  by (auto simp: sealed_kops_def evidence_kops_def Let_def key_defs)

lemma expected_prefix:
  assumes "expected K d s pub"
  shows "expected (run_kops (concat (take n (sealed_kops M ev content))) K) d s pub"
proof -
  have "(stub_key d s, ''PUBLISHED_BY'', p) \<notin> rels_of (concat (take n (sealed_kops M ev content)))" for p
  proof
    assume "(stub_key d s, ''PUBLISHED_BY'', p) \<in> rels_of (concat (take n (sealed_kops M ev content)))"
    from subsetD [OF rels_of_take this] show False by (rule sealed_rels(1) [THEN notE]) (simp add: stub_key_def)
  qed
  then have "stub_publishers (run_kops (concat (take n (sealed_kops M ev content))) K) d s = stub_publishers K d s"
    by (simp add: stub_publishers_def kgRels_run_kops)
  then show ?thesis using assms by (simp add: expected_def)
qed

text \<open>Handlers on a database that answers every query.\<close>

definition steady :: "'g graph_db \<Rightarrow> bool" where
  "steady D \<longleftrightarrow> (\<forall>q. answers D q)"

definition succeeds :: "('g \<Rightarrow> goerr option \<times> 'g) \<Rightarrow> bool" where
  "succeeds op \<longleftrightarrow> (\<forall>g. fst (op g) = None)"

lemma succeedsE:
  assumes "succeeds op" obtains g' where "op g = (None, g')"
  using assms unfolding succeeds_def by (metis prod.collapse)

lemma succeeds_apply: "succeeds op \<Longrightarrow> \<exists>g'. op g = (None, g')"
  by (metis succeedsE)

lemma succeeds_wrapping: "succeeds op \<Longrightarrow> succeeds (wrapping w op)"
  by (auto simp: succeeds_def wrapping_def split: prod.splits option.splits) (metis fst_conv option.distinct(1))

lemma succeeds_and_then: "succeeds a \<Longrightarrow> succeeds b \<Longrightarrow> succeeds (and_then a b)"
  by (auto simp: succeeds_def and_then_def split: prod.splits option.splits) (metis fst_conv option.distinct(1))

lemma exec_succeeds: "steady D \<Longrightarrow> succeeds (exec D q ps)"
  unfolding succeeds_def
proof
  fix g assume "steady D"
  then obtain rows g' where "run D g q ps = (Inr (rows, None), g')" unfolding steady_def answers_def by blast
  then show "fst (exec D q ps g) = None" by (simp add: exec_def)
qed

lemma succeeds_steps:
  assumes "steady D"
  shows "succeeds (UpsertSubject D s)" "succeeds (UpsertPublisher D iss sub)" "succeeds (UpsertIngestedStub D dig s iss sub)"
    "succeeds (UpsertEvidence D ev)" "succeeds (UpsertEntity D en)" "succeeds (UpsertEdge D ed)"
  by (simp_all add: UpsertSubject_def UpsertPublisher_def UpsertIngestedStub_def UpsertEvidence_def UpsertEntity_def
      UpsertEdge_def exec_succeeds [OF assms])

lemma succeeds_artifact:
  assumes "steady D" "ParseArtifact M ty data i = Inr parsed"
  shows "succeeds (processArtifact M D ty data i)"
proof -
  have ens: "succeeds (upsert_entities D w ens)" for w ens
    by (induction ens) (auto simp: succeeds_def succeed_def
        intro!: succeeds_and_then [unfolded succeeds_def, rule_format] succeeds_wrapping [unfolded succeeds_def, rule_format]
          succeeds_steps(5) [OF assms(1), unfolded succeeds_def, rule_format])
  have eds: "succeeds (upsert_edges D i eds)" for eds
  proof (induction eds)
    case Nil
    show ?case by (simp add: succeeds_def succeed_def)
  next
    case (Cons ed eds)
    show ?case unfolding upsert_edges.simps
      by (intro succeeds_and_then succeeds_wrapping succeeds_steps(6) [OF assms(1)] ens Cons.IH)
  qed
  have "processArtifact M D ty data i
      = and_then (upsert_entities D ''upserting entity '' (paEntities parsed)) (upsert_edges D i (paEdges parsed))"
    using assms(2) by (simp add: fun_eq_iff processArtifact_def)
  then show ?thesis using succeeds_and_then [OF ens eds] by simp
qed

text \<open>
  What a delivery of a sealed event carries, and what the locker answers for it: the receipt, or a failure.  The time
  of the loader plays no part, since the event carries its own.
\<close>

definition sealed_message :: "'g loader_env \<Rightarrow> bytes \<Rightarrow> cloud_event \<Rightarrow> EvidenceSealedData \<Rightarrow> bool" where
  "sealed_message E data event d \<longleftrightarrow> ce_parse (loSdk E) data = Inr event \<and> ceType event = TypeEvidenceSealed
     \<and> ceTime event \<noteq> zero_time \<and> DataAs (loDataErr E) sealed_data_of event = Inr d"

definition ingested_message :: "'g loader_env \<Rightarrow> bytes \<Rightarrow> cloud_event \<Rightarrow> EvidenceIngestedData \<Rightarrow> bool" where
  "ingested_message E data event d \<longleftrightarrow> ce_parse (loSdk E) data = Inr event \<and> ceType event = TypeEvidenceIngested
     \<and> DataAs (loDataErr E) ingested_data_of event = Inr d"

definition serves :: "web \<Rightarrow> string \<Rightarrow> string \<Rightarrow> bytes \<Rightarrow> bool" where
  "serves W url ref receipt \<longleftrightarrow> (case fetchArtifact W url ref of Some (Inr r) \<Rightarrow> r = receipt | Some (Inl _) \<Rightarrow> True | None \<Rightarrow> False)"

text \<open>The node the graph keeps for a sealed event.\<close>

abbreviation evidence_of :: "cloud_event \<Rightarrow> EvidenceSealedData \<Rightarrow> bytes \<Rightarrow> string \<times> string \<Rightarrow> EvidenceRecord" where
  "evidence_of event d content pub \<equiv> sealed_record zero_time event d content pub"

text \<open>
  The deliveries of one message until it is acknowledged, each with the answers the locker gives then: a negative
  acknowledgement is followed by another delivery, on the graph the failed attempt left.
\<close>

inductive redelivered :: "'g loader_env \<Rightarrow> web set \<Rightarrow> bytes \<Rightarrow> 'g \<Rightarrow> 'g \<Rightarrow> bool" for E Ws data where
  acked: "W \<in> Ws \<Longrightarrow> loader_handleMessage (E\<lparr>loWeb := W, loNow := t\<rparr>) data g = (Some Ack, g') \<Longrightarrow> redelivered E Ws data g g'"
| again: "W \<in> Ws \<Longrightarrow> loader_handleMessage (E\<lparr>loWeb := W, loNow := t\<rparr>) data g = (Some (NakWithDelay w), g1) \<Longrightarrow>
    redelivered E Ws data g1 g' \<Longrightarrow> redelivered E Ws data g g'"

context memgraph
begin

lemma ingested_delivery:
  assumes m: "ingested_message E data event d" and D: "loDB E = D" and g: "keyed (view g)"
    and h: "loader_handleMessage E data g = (Some Ack, g')"
  shows "keyed (view g') \<and> abs_graph (view g') = run_kops (concat (ingested_kops d)) (abs_graph (view g))"
proof -
  note m' = m [unfolded ingested_message_def]
  obtain r where r: "handle_event E event g = (Some r, g')" "r = None"
    by (rule message_event [OF _ _ h]) (use m' in auto)
  then have "handleIngested E event g = (None, g')" using m' by (simp add: handle_event_def split: prod.splits)
  from followsE [OF ingested_follows [OF _ D] g this] show ?thesis using m' by force
qed

lemma sealed_delivery:
  assumes m: "sealed_message E data event d" and D: "loDB E = D" and ans: "answers D publisher_by_digest" and g: "keyed (view g)"
    and s: "serves (loWeb E) (loLockerURL E) (esStorageRef d) receipt" and u: "UnwrapContent receipt = Inr unw"
    and ex: "expected (abs_graph (view g)) (esContentDigest d) (esSubjectID d) pub"
    and h: "loader_handleMessage E data g = (v, g')"
    and kss: "kss = sealed_kops (loGemara E) (evidence_of event d (urContent unw) pub) (urContent unw)"
  shows "v \<noteq> None \<and> v \<noteq> Some Term \<and> keyed (view g')
    \<and> (\<exists>n \<le> length kss. abs_graph (view g') = run_kops (concat (take n kss)) (abs_graph (view g)) \<and> (v = Some Ack \<longrightarrow> n = length kss))"
proof -
  note m' = m [unfolded sealed_message_def]
  obtain r where r: "handleSealed E event g = (r, g')" "v = (case r of None \<Rightarrow> None
      | Some (Some err) \<Rightarrow> Some (if isPermanentError err then Term else NakWithDelay loader_retryDelay) | Some None \<Rightarrow> Some Ack)"
    using h m' by (auto simp: loader_handleMessage_def parseCloudEvent_def handle_event_def split: prod.splits option.splits)
  show ?thesis
  proof (cases "fetchArtifact (loWeb E) (loLockerURL E) (esStorageRef d)")
    case None
    then show ?thesis using s by (simp add: serves_def)
  next
    case (Some x)
    show ?thesis
    proof (cases x)
      case (Inl err)
      then have "r = Some (Some (ErrorfW ''fetching artifact: '' err []))" "g' = g"
        using r(1) m' Some by (simp_all add: handleSealed_def)
      then show ?thesis using r(2) g by (auto simp: isPermanentError_def intro!: exI [of _ 0])
    next
      case (Inr rc)
      then have f: "fetchArtifact (loWeb E) (loLockerURL E) (esStorageRef d) = Some (Inr receipt)"
        using Some s by (simp add: serves_def)
      have ev: "evidence_of event d (urContent unw) pub = sealed_record (loNow E) event d (urContent unw) pub"
        using m' by (simp add: sealed_record_def sealed_time_def)
      have pub: "\<exists>q. x = Some q \<and> attributed q = pub"
        if "keyed (view g1)" "abs_graph (view g1) = run_kops [KUpsert (subject_key (esSubjectID d)) []] (abs_graph (view g))"
          "FindPublisherByDigest D (esSubjectID d) (esContentDigest d) g1 = (x, g2)" for g1 x g2
      proof (rule find_publisher [OF ans that(1) _ that(3)])
        have "stub_publishers (abs_graph (view g1)) (esContentDigest d) (esSubjectID d)
            = stub_publishers (abs_graph (view g)) (esContentDigest d) (esSubjectID d)"
          unfolding that(2) stub_publishers_def kgRels_run_kops by simp
        then show "expected (abs_graph (view g1)) (esContentDigest d) (esSubjectID d) pub"
          using ex by (simp add: expected_def)
      qed
      have "keyed (view g') \<and> (\<exists>n \<le> length kss. abs_graph (view g') = run_kops (concat (take n kss)) (abs_graph (view g))
          \<and> (r = Some None \<longrightarrow> n = length kss)) \<and> r \<noteq> None"
        unfolding kss using m' by (intro sealed_follows [OF g D r(1) _ f u ev pub]) auto
      moreover have "\<not> isPermanentError err" if "r = Some (Some err)" for err
        using handler_error [of E event g err g'] r(1) m' that by (auto simp: handle_event_def isPermanentError_def)
      ultimately show ?thesis using r(2) by (auto split: option.splits)
    qed
  qed
qed

lemma sealed_redelivered:
  assumes r: "redelivered E Ws data g g'" and D: "loDB E = D" and ans: "answers D publisher_by_digest" and g: "keyed (view g)"
    and m: "sealed_message E data event d" and s: "\<forall>W \<in> Ws. serves W (loLockerURL E) (esStorageRef d) receipt"
    and u: "UnwrapContent receipt = Inr unw" and ex: "expected (abs_graph (view g)) (esContentDigest d) (esSubjectID d) pub"
    and kss: "kss = sealed_kops (loGemara E) (evidence_of event d (urContent unw) pub) (urContent unw)"
  shows "keyed (view g') \<and> abs_graph (view g') = run_kops (concat kss) (abs_graph (view g))"
  using r g ex
proof induction
  case (acked W t g g')
  let ?E = "E\<lparr>loWeb := W, loNow := t\<rparr>"
  have "sealed_message ?E data event d" "serves (loWeb ?E) (loLockerURL ?E) (esStorageRef d) receipt"
    using m s acked.hyps(1) by (simp_all add: sealed_message_def)
  then show ?case using sealed_delivery [of ?E data event d g receipt unw pub _ g' kss] acked D ans u kss by fastforce
next
  case (again W t g w g1 g')
  let ?E = "E\<lparr>loWeb := W, loNow := t\<rparr>"
  have "sealed_message ?E data event d" "serves (loWeb ?E) (loLockerURL ?E) (esStorageRef d) receipt"
    using m s again.hyps(1) by (simp_all add: sealed_message_def)
  then obtain n where n: "keyed (view g1)" "abs_graph (view g1) = run_kops (concat (take n kss)) (abs_graph (view g))"
    using sealed_delivery [of ?E data event d g receipt unw pub _ g1 kss] again.hyps(2) again.prems D ans u kss by fastforce
  have "expected (abs_graph (view g1)) (esContentDigest d) (esSubjectID d) pub"
    unfolding n(2) kss by (rule expected_prefix [OF again.prems(2)])
  then show ?case using again.IH [OF n(1)] by (simp add: n(2) run_kops_prefix)
qed

text \<open>A database that answers everything: the handlers succeed, so a delivery is acknowledged.\<close>

lemma sealed_acknowledged:
  assumes st: "steady D" and D: "loDB E = D" and g: "keyed (view g)" and m: "sealed_message E data event d"
    and f: "fetchArtifact (loWeb E) (loLockerURL E) (esStorageRef d) = Some (Inr receipt)" and u: "UnwrapContent receipt = Inr unw"
    and ex: "expected (abs_graph (view g)) (esContentDigest d) (esSubjectID d) pub"
    and p: "ParseArtifact (loGemara E) (inferArtifactType (urContent unw)) (urContent unw) (esLogIndex d) = Inr parsed"
  shows "\<exists>g'. loader_handleMessage E data g = (Some Ack, g')"
proof -
  note m' = m [unfolded sealed_message_def]
  have ans: "answers D publisher_by_digest" using st by (simp add: steady_def)
  have serves: "serves (loWeb E) (loLockerURL E) (esStorageRef d) receipt" using f by (simp add: serves_def)
  obtain v g' where h: "loader_handleMessage E data g = (v, g')" by fastforce
  have v: "v \<noteq> None" using sealed_delivery [OF m D ans g serves u ex h refl] by simp
  obtain g1 where s1: "wrapping ''upserting subject: '' (UpsertSubject D (esSubjectID d)) g = (None, g1)"
    using succeeds_steps(1) [OF st] succeeds_wrapping succeedsE by metis
  obtain found g2 where s2: "FindPublisherByDigest D (esSubjectID d) (esContentDigest d) g1 = (found, g2)" by fastforce
  have "found \<noteq> None"
  proof
    assume "found = None"
    then have "handleSealed E event g = (None, g2)" using m' f u s1 s2 D by (simp add: handleSealed_def)
    then show False using v h m' by (simp add: loader_handleMessage_def parseCloudEvent_def handle_event_def)
  qed
  then obtain q where q: "found = Some q" by auto
  define ev where "ev = sealed_record (loNow E) event d (urContent unw) (attributed q)"
  have "succeeds (and_then (wrapping ''upserting publisher: '' (UpsertPublisher D (fst (attributed q)) (snd (attributed q))))
      (and_then (wrapping ''upserting evidence: '' (UpsertEvidence D ev))
         (wrapping ''processing artifact: '' (processArtifact (loGemara E) D (evArtifactType ev) (urContent unw) (esLogIndex d)))))"
    using p by (intro succeeds_and_then succeeds_wrapping succeeds_steps [OF st] succeeds_artifact [OF st])
      (simp add: ev_def sealed_record_def)
  then obtain g3 where "and_then (wrapping ''upserting publisher: '' (UpsertPublisher D (fst (attributed q)) (snd (attributed q))))
      (and_then (wrapping ''upserting evidence: '' (UpsertEvidence D ev))
         (wrapping ''processing artifact: '' (processArtifact (loGemara E) D (evArtifactType ev) (urContent unw) (esLogIndex d)))) g2 = (None, g3)"
    by (rule succeedsE)
  then have "handleSealed E event g = (Some None, g3)"
    using m' f u s1 s2 D q by (simp add: handleSealed_def Let_def ev_def)
  then show ?thesis using m' by (simp add: loader_handleMessage_def parseCloudEvent_def handle_event_def)
qed

lemma ingested_acknowledged:
  assumes st: "steady D" and D: "loDB E = D" and m: "ingested_message E data event d"
  shows "\<exists>g'. loader_handleMessage E data g = (Some Ack, g')"
proof -
  note m' = m [unfolded ingested_message_def]
  have "\<exists>g'. handleIngested E event g = (None, g')"
    using m' D by (simp add: handleIngested_def Let_def)
      (intro succeeds_apply succeeds_and_then succeeds_wrapping succeeds_steps [OF st])
  then show ?thesis using m' by (auto simp: loader_handleMessage_def parseCloudEvent_def handle_event_def)
qed

end

text \<open>The publishers the graph shows for the evidence at a log index.\<close>

definition evidence_publishers :: "kgraph \<Rightarrow> int \<Rightarrow> nkey set" where
  "evidence_publishers K i = {p. (evidence_key i, ''PUBLISHED_BY'', p) \<in> kgRels K}"

lemma publishers_ingested:
  "evidence_publishers (run_kops (concat (ingested_kops d)) K) i = evidence_publishers K i"
  "stub_publishers (run_kops (concat (ingested_kops d)) K) (eiContentDigest d) (eiSubjectID d)
     = insert (publisher_key (piIssuer (eiPublisher d)) (piSub (eiPublisher d))) (stub_publishers K (eiContentDigest d) (eiSubjectID d))"
  unfolding evidence_publishers_def stub_publishers_def kgRels_run_kops by (auto simp: ingested_kops_def Let_def key_defs)

lemma publishers_sealed:
  "evidence_publishers (run_kops (concat (sealed_kops M (evidence_of event d content pub) content)) K) (esLogIndex d)
     = insert (publisher_key (fst pub) (snd pub)) (evidence_publishers K (esLogIndex d))"
  unfolding evidence_publishers_def kgRels_run_kops by (auto simp: sealed_rels sealed_record_def)

section \<open>Properties\<close>

text \<open>A sample artifact: its two events, its receipt, a locker that serves it and one that is down.\<close>

definition sample_content :: bytes where
  "sample_content = print_json (JObj [(''metadata'', JObj [(''type'', JStr ''ControlCatalog'')])])"

definition sample_receipt :: bytes where
  "sample_receipt = print_json (JObj [(''predicate_type'', JStr ''gemara-receipt/v1''),
     (''predicate'', JObj [(''publisher'', JObj [(''issuer'', JStr ''iss''), (''sub'', JStr ''ci'')]), 
       (''content'', JStr (std_encode sample_content))])])"

definition sample_ingested :: cloud_event where
  "sample_ingested = \<lparr>ceType = TypeEvidenceIngested, ceSource = ''gateway'', ceSubject = ''app'', ceTime = 0,
     ceData = Some (JObj [(''contentDigest'', JStr ''sha256:aa''), (''subjectId'', JStr ''app''),
       (''publisher'', JObj [(''issuer'', JStr ''iss''), (''sub'', JStr ''ci'')])])\<rparr>"

definition sample_sealed :: cloud_event where
  "sample_sealed = \<lparr>ceType = TypeEvidenceSealed, ceSource = ''locker'', ceSubject = ''app'', ceTime = 1,
     ceData = Some (JObj [(''contentDigest'', JStr ''sha256:aa''), (''logIndex'', JNum ''7''), (''subjectId'', JStr ''app''),
       (''storageRef'', JStr ''locker://app/7'')])\<rparr>"

definition locker_up :: web where
  "locker_up = \<lparr>web_request = (\<lambda>_. None),
     web_do = (\<lambda>url. if url = ''http://locker/ledgers/app/7'' then Inr (200, Inr sample_receipt) else Inr (404, Inr []))\<rparr>"

definition locker_down :: web where
  "locker_down = \<lparr>web_request = (\<lambda>_. None), web_do = (\<lambda>_. Inl (Foreign ''connection refused''))\<rparr>"

definition sample_loader :: "graph loader_env" where
  "sample_loader = \<lparr>loDB = mem_graph,
     loSdk = plain_sdk\<lparr>ce_parse := (\<lambda>bs. if bs = ''ingested'' then Inr sample_ingested
       else if bs = ''sealed'' then Inr sample_sealed else Inl JsonSyntaxError)\<rparr>,
     loDataErr = (\<lambda>e. e),
     loGemara = \<lparr>gm_controls = (\<lambda>_. Inr (''CAT'', [\<lparr>gcId = ''C-1'', gcTitle = ''Review'', gcObjective = [], gcGroup = [],
         gcRequirementTexts = [], gcThreats = [[''T-1'']]\<rparr>])),
       gm_threats = (\<lambda>_. Inl JsonSyntaxError), gm_capabilities = (\<lambda>_. Inl JsonSyntaxError)\<rparr>,
     loWeb = locker_up, loLockerURL = ''http://locker'', loNow = 2\<rparr>"

abbreviation sample_data :: EvidenceSealedData where
  "sample_data \<equiv> \<lparr>esContentDigest = ''sha256:aa'', esLogIndex = 7, esReceiptDigest = [], esReceiptType = [],
     esStorageRef = ''locker://app/7'', esSubjectID = ''app'', esShardID = None\<rparr>"

abbreviation no_graph :: graph where "no_graph \<equiv> \<lparr>gNodes = [], gRels = []\<rparr>"

lemma sample_unwrap: "UnwrapContent sample_receipt
    = Inr \<lparr>urContent = sample_content, urPublisher = \<lparr>pbIssuer = ''iss'', pbSub = ''ci''\<rparr>, urFormat = ''gemara-receipt/v1''\<rparr>"
  by code_simp

abbreviation sample_ingest :: EvidenceIngestedData where
  "sample_ingest \<equiv> \<lparr>eiContentDigest = ''sha256:aa'', eiArtifactType = [], eiStorageRef = [], eiSubjectID = ''app'',
     eiPublisher = \<lparr>piIssuer = ''iss'', piSub = ''ci''\<rparr>, eiShardID = None\<rparr>"

lemma sample_messages:
  "sealed_message sample_loader ''sealed'' sample_sealed sample_data"
  "ingested_message sample_loader ''ingested'' sample_ingested sample_ingest"
  by code_simp+

lemma sample_answers: "answers mem_graph publisher_by_digest"
  by (simp add: answers_def mem_graph_def)

lemma no_graph_facts: "keyed no_graph" "kgRels (abs_graph no_graph) = {}"
  by (simp_all add: keyed_def abs_graph_def)

lemma sample_serves:
  "serves locker_up ''http://locker'' ''locker://app/7'' sample_receipt"
  "serves locker_down ''http://locker'' ''locker://app/7'' sample_receipt"
  by code_simp+

lemma sample_steady: "steady mem_graph"
  by (simp add: steady_def answers_def mem_graph_def)

lemma sample_expected: "expected (abs_graph no_graph) ''sha256:aa'' ''app'' placeholder"
  by (simp add: expected_def stub_publishers_def no_graph_facts)

lemma sample_fails: "loader_handleMessage (sample_loader\<lparr>loWeb := locker_down, loNow := 3\<rparr>) ''sealed'' no_graph
    = (Some (NakWithDelay (5 * second)), no_graph)"
  by code_simp

lemma sample_fetched: "fetchArtifact locker_up ''http://locker'' ''locker://app/7'' = Some (Inr sample_receipt)"
  by code_simp

lemma sample_parsed:
  "\<exists>parsed. ParseArtifact (loGemara sample_loader) (inferArtifactType sample_content) sample_content 7 = Inr parsed"
proof -
  have "inferArtifactType sample_content = ''ControlCatalog''" by code_simp
  then show ?thesis by (simp add: ParseArtifact_def parseControlCatalog_def sample_loader_def)
qed

lemma sample_fields: "loDB (sample_loader\<lparr>loWeb := W, loNow := t\<rparr>) = mem_graph"
  "loLockerURL (sample_loader\<lparr>loWeb := W, loNow := t\<rparr>) = ''http://locker''"
  "loGemara (sample_loader\<lparr>loWeb := W, loNow := t\<rparr>) = loGemara sample_loader"
  "loWeb sample_loader = locker_up" "loDB sample_loader = mem_graph" "loLockerURL sample_loader = ''http://locker''"
  by (simp_all add: sample_loader_def)

lemma sample_ingested_first:
  "loader_handleMessage sample_loader ''ingested'' g = (Some Ack, g1) \<Longrightarrow> keyed g \<Longrightarrow>
   keyed g1 \<and> stub_publishers (abs_graph g1) ''sha256:aa'' ''app'' = insert (publisher_key ''iss'' ''ci'') (stub_publishers (abs_graph g) ''sha256:aa'' ''app'')"
  using mem_memgraph.ingested_delivery [OF sample_messages(2) sample_fields(5), of g g1] publishers_ingested(2) [of sample_ingest "abs_graph g"]
  by simp

lemma sample_batches:
  "\<exists>g'. loader_batch sample_loader [''ingested'', ''sealed''] no_graph = Some ([Ack, Ack], g')"
  "\<exists>g'. loader_batch sample_loader [''sealed'', ''ingested''] no_graph = Some ([Ack, Ack], g')"
proof -
  obtain parsed where p: "ParseArtifact (loGemara sample_loader) (inferArtifactType sample_content) sample_content 7 = Inr parsed"
    using sample_parsed by blast
  have f: "fetchArtifact (loWeb sample_loader) (loLockerURL sample_loader) (esStorageRef sample_data) = Some (Inr sample_receipt)"
    by (simp add: sample_fields sample_fetched)
  have ing: "\<exists>g'. loader_handleMessage sample_loader ''ingested'' g = (Some Ack, g')" for g
    by (rule mem_memgraph.ingested_acknowledged [OF sample_steady sample_fields(5) sample_messages(2)])
  have seal: "\<exists>g'. loader_handleMessage sample_loader ''sealed'' g = (Some Ack, g')"
    if "keyed g" "expected (abs_graph g) ''sha256:aa'' ''app'' pub" for g pub
    using mem_memgraph.sealed_acknowledged [OF sample_steady sample_fields(5) that(1) sample_messages(1) f sample_unwrap, of pub parsed]
      that(2) p by simp
  obtain g1 where 1: "loader_handleMessage sample_loader ''ingested'' no_graph = (Some Ack, g1)" using ing by blast
  have "keyed g1" "expected (abs_graph g1) ''sha256:aa'' ''app'' (''iss'', ''ci'')"
    using sample_ingested_first [OF 1 no_graph_facts(1)] by (simp_all add: expected_def stub_publishers_def [of "abs_graph no_graph"] no_graph_facts)
  then obtain g2 where "loader_handleMessage sample_loader ''sealed'' g1 = (Some Ack, g2)" using seal by blast
  with 1 show "\<exists>g'. loader_batch sample_loader [''ingested'', ''sealed''] no_graph = Some ([Ack, Ack], g')" by simp
  obtain g3 where 3: "loader_handleMessage sample_loader ''sealed'' no_graph = (Some Ack, g3)"
    using seal [OF no_graph_facts(1) sample_expected] by blast
  obtain g4 where "loader_handleMessage sample_loader ''ingested'' g3 = (Some Ack, g4)" using ing by blast
  with 3 show "\<exists>g'. loader_batch sample_loader [''sealed'', ''ingested''] no_graph = Some ([Ack, Ack], g')" by simp
qed

lemma sample_acknowledged:
  "\<exists>g'. loader_handleMessage (sample_loader\<lparr>loWeb := locker_up, loNow := t\<rparr>) ''sealed'' no_graph = (Some Ack, g')"
proof -
  let ?E = "sample_loader\<lparr>loWeb := locker_up, loNow := t\<rparr>"
  obtain parsed where p: "ParseArtifact (loGemara sample_loader) (inferArtifactType sample_content) sample_content 7 = Inr parsed"
    using sample_parsed by blast
  have m: "sealed_message ?E ''sealed'' sample_sealed sample_data"
    using sample_messages(1) by (simp add: sealed_message_def)
  show ?thesis
    by (rule mem_memgraph.sealed_acknowledged [OF sample_steady sample_fields(1) no_graph_facts(1) m _ sample_unwrap, where pub = placeholder and parsed = parsed])
      (simp_all add: sample_fields sample_fetched sample_expected p)
qed



text \<open>
  Progress.  When the database answers its queries, the locker returns the receipt and the artifact parses, a
  delivery of a sealed event is acknowledged: redelivery ends with the first delivery that meets no failure.
\<close>
theorem sealed_event_acknowledged:
  assumes "memgraph (loDB E) view" "steady (loDB E)" "keyed (view g)" "sealed_message E data event d"
    and "fetchArtifact (loWeb E) (loLockerURL E) (esStorageRef d) = Some (Inr receipt)" "UnwrapContent receipt = Inr unw"
    and "expected (abs_graph (view g)) (esContentDigest d) (esSubjectID d) pub"
    and "ParseArtifact (loGemara E) (inferArtifactType (urContent unw)) (urContent unw) (esLogIndex d) = Inr parsed"
  shows "\<exists>g'. loader_handleMessage E data g = (Some Ack, g')"
  using memgraph.sealed_acknowledged [OF assms(1,2) refl assms(3-8)] .

theorem sealed_event_acknowledged_witness:
  "\<exists>g'. loader_handleMessage sample_loader ''sealed'' no_graph = (Some Ack, g')"
proof -
  obtain parsed where p: "ParseArtifact (loGemara sample_loader) (inferArtifactType sample_content) sample_content 7 = Inr parsed"
    using sample_parsed by blast
  show ?thesis
    by (rule sealed_event_acknowledged [OF _ _ _ sample_messages(1) _ sample_unwrap,
          where view = "\<lambda>G. G" and pub = placeholder and parsed = parsed])
      (simp_all add: sample_fields mem_memgraph.memgraph_axioms sample_steady no_graph_facts sample_fetched sample_expected p)
qed

text \<open>
  C13: who the graph says submitted a sealed artifact depends on the order in which the two events of the artifact
  arrive.  When the ingested event is processed first, the evidence is attributed to the publisher that was
  authenticated at ingestion; when the sealed event comes first, it is attributed to the placeholder
  \<^verbatim>\<open>locker-service\<close>, and the ingested event that follows does not correct it.
\<close>
theorem attribution_by_order:
  assumes D: "memgraph (loDB E) view" "answers (loDB E) publisher_by_digest" and g: "keyed (view g)"
    and m: "ingested_message E m1 ev1 i" "sealed_message E m2 ev2 d" "eiSubjectID i = esSubjectID d" "eiContentDigest i = esContentDigest d"
    and s: "serves (loWeb E) (loLockerURL E) (esStorageRef d) receipt" "UnwrapContent receipt = Inr unw"
    and pub: "pub = (piIssuer (eiPublisher i), piSub (eiPublisher i))" "fst pub \<noteq> []"
    and fresh: "stub_publishers (abs_graph (view g)) (esContentDigest d) (esSubjectID d) = {}"
      "evidence_publishers (abs_graph (view g)) (esLogIndex d) = {}"
  shows "(loader_batch E [m1, m2] g = Some ([Ack, Ack], g') \<longrightarrow>
      evidence_publishers (abs_graph (view g')) (esLogIndex d) = {publisher_key (fst pub) (snd pub)})
    \<and> (loader_batch E [m2, m1] g = Some ([Ack, Ack], g') \<longrightarrow>
      evidence_publishers (abs_graph (view g')) (esLogIndex d) = {publisher_key ''locker-service'' ''locker''})"
proof (intro conjI impI)
  assume "loader_batch E [m1, m2] g = Some ([Ack, Ack], g')"
  then obtain g1 where h: "loader_handleMessage E m1 g = (Some Ack, g1)" "loader_handleMessage E m2 g1 = (Some Ack, g')"
    by (auto split: prod.splits option.splits)
  have 1: "keyed (view g1)" "abs_graph (view g1) = run_kops (concat (ingested_kops i)) (abs_graph (view g))"
    using memgraph.ingested_delivery [OF D(1) m(1) refl g h(1)] by auto
  then have "expected (abs_graph (view g1)) (esContentDigest d) (esSubjectID d) pub"
    using publishers_ingested(2) [of i "abs_graph (view g)"] m(3,4) pub fresh(1) by (simp add: expected_def)
  from memgraph.sealed_delivery [OF D(1) m(2) refl D(2) 1(1) s this h(2) refl]
  show "evidence_publishers (abs_graph (view g')) (esLogIndex d) = {publisher_key (fst pub) (snd pub)}"
    by (auto simp: publishers_sealed publishers_ingested 1(2) fresh(2))
next
  assume "loader_batch E [m2, m1] g = Some ([Ack, Ack], g')"
  then obtain g1 where h: "loader_handleMessage E m2 g = (Some Ack, g1)" "loader_handleMessage E m1 g1 = (Some Ack, g')"
    by (auto split: prod.splits option.splits)
  have "expected (abs_graph (view g)) (esContentDigest d) (esSubjectID d) placeholder" using fresh(1) by (simp add: expected_def)
  from memgraph.sealed_delivery [OF D(1) m(2) refl D(2) g s this h(1) refl]
  have 1: "keyed (view g1)" "evidence_publishers (abs_graph (view g1)) (esLogIndex d) = {publisher_key ''locker-service'' ''locker''}"
    by (auto simp: publishers_sealed fresh(2) placeholder_def)
  from memgraph.ingested_delivery [OF D(1) m(1) refl 1(1) h(2)]
  show "evidence_publishers (abs_graph (view g')) (esLogIndex d) = {publisher_key ''locker-service'' ''locker''}"
    by (simp add: publishers_ingested 1(2))
qed

theorem attribution_by_order_witness:
  "\<exists>g1 g2. loader_batch sample_loader [''ingested'', ''sealed''] no_graph = Some ([Ack, Ack], g1)
     \<and> loader_batch sample_loader [''sealed'', ''ingested''] no_graph = Some ([Ack, Ack], g2)
     \<and> evidence_publishers (abs_graph g1) 7 = {publisher_key ''iss'' ''ci''}
     \<and> evidence_publishers (abs_graph g2) 7 = {publisher_key ''locker-service'' ''locker''}"
proof -
  have D: "memgraph (loDB sample_loader) (\<lambda>G. G)" "answers (loDB sample_loader) publisher_by_digest"
    by (simp_all only: sample_fields mem_memgraph.memgraph_axioms sample_answers)
  have s: "serves (loWeb sample_loader) (loLockerURL sample_loader) (esStorageRef sample_data) sample_receipt"
    using sample_serves by (simp add: sample_fields)
  note batches = attribution_by_order [OF D _ sample_messages(2,1) _ _ s sample_unwrap refl, of no_graph]
  obtain g1 where 1: "loader_batch sample_loader [''ingested'', ''sealed''] no_graph = Some ([Ack, Ack], g1)"
    using sample_batches(1) by blast
  obtain g2 where 2: "loader_batch sample_loader [''sealed'', ''ingested''] no_graph = Some ([Ack, Ack], g2)"
    using sample_batches(2) by blast
  have "evidence_publishers (abs_graph g1) 7 = {publisher_key ''iss'' ''ci''}"
    using batches [of g1] 1 by (simp add: no_graph_facts stub_publishers_def evidence_publishers_def del: loader_batch.simps)
  moreover have "evidence_publishers (abs_graph g2) 7 = {publisher_key ''locker-service'' ''locker''}"
    using batches [of g2] 2 by (simp add: no_graph_facts stub_publishers_def evidence_publishers_def del: loader_batch.simps)
  ultimately show ?thesis using 1 2 by blast
qed



end
