(* ===== verification/GraphPages.thy ===== *)
theory GraphPages
  imports GraphLoader
begin

text \<open>
  Paging through the evidence of a subject (\<^verbatim>\<open>Evidence\<close> of \<^verbatim>\<open>internal/graph/writer.go\<close>): what one page
  holds, and that a client which follows the cursors comes to an end having seen every piece of evidence once, in the
  order of the log.
\<close>

section \<open>The listing that pages are cut from\<close>

definition base_query :: "string \<Rightarrow> EvidenceFilter \<Rightarrow> condition list \<times> props" where
  "base_query subjectID flt = (case filter_conditions (flt\<lparr>efCursor := None\<rparr>) of (cs, ps) \<Rightarrow> (cs, (''subjectID'', CStr subjectID) # ps))"

definition evidence_rows :: "string \<Rightarrow> EvidenceFilter \<Rightarrow> graph \<Rightarrow> props list" where
  "evidence_rows subjectID flt G = (case base_query subjectID flt of (cs, ps) \<Rightarrow> answer (evidence_query cs) ps G)"

definition listing :: "string \<Rightarrow> EvidenceFilter \<Rightarrow> graph \<Rightarrow> EvidenceItem list" where
  "listing subjectID flt G = sort_key eiLogIndex' (map (the \<circ> evidence_item) (evidence_rows subjectID flt G))"

text \<open>Every row is well typed, and no log index appears twice: each piece of evidence has one publisher.\<close>

definition listable :: "string \<Rightarrow> EvidenceFilter \<Rightarrow> graph \<Rightarrow> bool" where
  "listable subjectID flt G \<longleftrightarrow>
     list_all (\<lambda>r. evidence_item r \<noteq> None) (evidence_rows subjectID flt G)
     \<and> distinct (map eiLogIndex' (listing subjectID flt G))
     \<and> list_all (\<lambda>it. min_int64 \<le> eiLogIndex' it \<and> eiLogIndex' it \<le> max_int64) (listing subjectID flt G)"

definition after :: "int option \<Rightarrow> EvidenceItem \<Rightarrow> bool" where
  "after c it \<longleftrightarrow> (case c of None \<Rightarrow> True | Some i \<Rightarrow> i < eiLogIndex' it)"

text \<open>A client that asks for the next page as long as there is a cursor.\<close>

fun follow_cursors :: "nat \<Rightarrow> 'g graph_db \<Rightarrow> string \<Rightarrow> EvidenceFilter \<Rightarrow> 'g \<Rightarrow> EvidenceItem list list option" where
  "follow_cursors 0 D subjectID flt g = None"
| "follow_cursors (Suc n) D subjectID flt g =
     (case Evidence D subjectID flt g of
        (Some (Inr page), g') \<Rightarrow>
          (case erNextCursor page of
             None \<Rightarrow> Some [erEvidence page]
           | Some c \<Rightarrow> map_option (Cons (erEvidence page)) (follow_cursors n D subjectID (flt\<lparr>efCursor := Some c\<rparr>) g'))
      | _ \<Rightarrow> None)"

text \<open>Three pieces of evidence, for pages of two.\<close>

definition sample_evidence :: "int \<Rightarrow> cy_node" where
  "sample_evidence i = \<lparr>ndLabel = ''Evidence'', ndProps = [(''logIndex'', CInt i), (''digest'', CStr ''d''),
     (''artifactType'', CStr ''sbom''), (''status'', CStr ''sealed''), (''sealed'', CLocal 0)]\<rparr>"

definition sample_graph :: graph where
  "sample_graph = \<lparr>gNodes = [\<lparr>ndLabel = ''Subject'', ndProps = [(''id'', CStr ''app'')]\<rparr>,
       \<lparr>ndLabel = ''Publisher'', ndProps = [(''issuer'', CStr ''iss''), (''sub'', CStr ''ci'')]\<rparr>,
       sample_evidence 3, sample_evidence 1, sample_evidence 2],
     gRels = [(2, ''TARGETS'', 0), (3, ''TARGETS'', 0), (4, ''TARGETS'', 0),
              (2, ''PUBLISHED_BY'', 1), (3, ''PUBLISHED_BY'', 1), (4, ''PUBLISHED_BY'', 1)]\<rparr>"

definition sample_filter :: EvidenceFilter where
  "sample_filter = \<lparr>efArtifactType = Some ''sbom'', efSince = None, efBefore = None, efCursor = None, efLimit = Some 2\<rparr>"

section \<open>One page\<close>

lemma run_rows_where:
  "run_rows ps (Where cs) rows G = (G, filter (\<lambda>r. list_all (condition_holds G ps r) cs) rows)"
  by (induction rows) auto

lemma evidence_path_params:
  "match_path G ps (evidence_path (node ''s'' ''Subject'' [])) row = match_path G ps' (evidence_path (node ''s'' ''Subject'' [])) row"
proof -
  have n: "node_ok G ps (node v l []) = node_ok G ps' (node v l [])" for v l
    by (simp add: fun_eq_iff node_ok_def node_def)
  have b: "bind_node G ps (node v l []) = bind_node G ps' (node v l [])" for v l
    by (simp only: fun_eq_iff bind_node_def n simp_thms)
  have "match_steps G ps v [(d, t, node v1 l1 []), (d', t', node v2 l2 [])] = match_steps G ps' v [(d, t, node v1 l1 []), (d', t', node v2 l2 [])]"
    for v d t v1 l1 d' t' v2 l2
    unfolding fun_eq_iff match_steps.simps by (simp only: b match_steps.simps simp_thms)
  then show ?thesis by (simp only: match_path_def evidence_path_def fst_conv snd_conv b)
qed

definition evidence_row :: "graph \<Rightarrow> row \<Rightarrow> props" where
  "evidence_row G r = map (\<lambda>(n, it). (n, item_value G [r] it)) (qReturn (evidence_query []))"

lemma evidence_answer:
  "answer (evidence_query cs) ps G = map (evidence_row G)
     (filter (\<lambda>r. list_all (condition_holds G ps r) (Cond ''s'' ''id'' IsEqual ''subjectID'' # cs))
        (match_path G [] (evidence_path (node ''s'' ''Subject'' [])) []))"
  using evidence_path_params [of G ps "[]" "[]"]
  by (simp add: answer_def evidence_query_def run_rows_where project_def evidence_row_def)

lemma evidence_row_index: "value_of (evidence_row G r) ''logIndex'' = prop_of G r ''e'' ''logIndex''"
  by (simp add: evidence_row_def evidence_query_def value_of_def)

lemma condition_params:
  "value_of ps p = value_of ps' p \<Longrightarrow> condition_holds G ps r (Cond v k c p) = condition_holds G ps' r (Cond v k c p)"
  by (cases c) simp_all

lemma base_conditions:
  assumes "base_query s flt = (cs, ps)" "c \<in> set cs"
  obtains v k cmp p where "c = Cond v k cmp p" "p \<in> {''artifactType'', ''since'', ''before''}"
  using assms by (auto simp: base_query_def filter_conditions_def split: option.splits)

lemma cursor_conditions:
  assumes "efCursor flt = map_option encode_cursor c" "pred_option (\<lambda>i. min_int64 \<le> i \<and> i \<le> max_int64) c" "base_query s flt = (cs, ps)"
  shows "filter_conditions flt = (cs @ (case c of None \<Rightarrow> [] | Some i \<Rightarrow> [Cond ''e'' ''logIndex'' Greater ''cursorIndex'']),
      tl ps @ (case c of None \<Rightarrow> [] | Some i \<Rightarrow> [(''cursorIndex'', CInt i)]))" "hd ps = (''subjectID'', CStr s)" "ps \<noteq> []"
  using assms by (cases c; cases "efArtifactType flt"; cases "efSince flt"; cases "efBefore flt";
      auto simp: base_query_def filter_conditions_def encode_cursor_def parse_int64_show_int)+

lemma value_of_append: "map_of ys p = None \<Longrightarrow> value_of (xs @ ys) p = value_of xs p"
  by (auto simp: value_of_def map_add_def split: option.splits)

lemma page_answer:
  assumes b: "base_query s flt = (cs, ps)"
    and extra: "extra = (case c of None \<Rightarrow> [] | Some i \<Rightarrow> [(''cursorIndex'', CInt i)]) @ [(''limit'', n)]"
    and cond: "cond = (case c of None \<Rightarrow> [] | Some i \<Rightarrow> [Cond ''e'' ''logIndex'' Greater ''cursorIndex''])"
  shows "answer (evidence_query (cs @ cond)) (ps @ extra) G
    = filter (\<lambda>r. case c of None \<Rightarrow> True | Some i \<Rightarrow> less_values (CInt i) (value_of r ''logIndex'')) (evidence_rows s flt G)"
proof -
  have keep: "map_of extra p = None" if "p \<in> {''artifactType'', ''since'', ''before'', ''subjectID''}" for p
    using that unfolding extra by (auto split: option.splits)
  have "list_all (condition_holds G (ps @ extra) r) cs \<longleftrightarrow> list_all (condition_holds G ps r) cs" for r
  proof (rule list.pred_cong [OF refl])
    fix x assume "x \<in> set cs"
    then obtain v k cmp p where x: "x = Cond v k cmp p" "p \<in> {''artifactType'', ''since'', ''before''}"
      by (rule base_conditions [OF b])
    then have "map_of extra p = None" by (intro keep) auto
    then show "condition_holds G (ps @ extra) r x = condition_holds G ps r x"
      unfolding x(1) by (intro condition_params value_of_append)
  qed
  moreover have "value_of (ps @ extra) ''subjectID'' = value_of ps ''subjectID''"
    by (rule value_of_append) (rule keep, simp)
  moreover have "value_of (ps @ extra) ''cursorIndex'' = CInt i" if "c = Some i" for i
  proof -
    have "map_of ps ''cursorIndex'' = None"
      using b by (auto simp: base_query_def filter_conditions_def split: option.splits)
    then show ?thesis by (simp add: extra that value_of_def map_add_def)
  qed
  ultimately show ?thesis
    using b by (cases c) (auto simp: evidence_rows_def evidence_answer cond filter_map comp_def evidence_row_index intro!: arg_cong [of _ _ "map (evidence_row G)"] filter_cong)
qed

lemma fold_items:
  "list_all (\<lambda>r. evidence_item r \<noteq> None) rows \<Longrightarrow>
   fold_opt (\<lambda>rec items. map_option (\<lambda>it. items @ [it]) (evidence_item rec)) rows acc = Some (acc @ map (the \<circ> evidence_item) rows)"
  by (induction rows arbitrary: acc) auto

lemma item_index: "evidence_item r = Some it \<Longrightarrow> value_of r ''logIndex'' = CInt (eiLogIndex' it)"
  by (auto simp: evidence_item_def as_int64_def split: cy_value.splits Option.bind_splits)

lemma ordered_items:
  assumes "list_all (\<lambda>r. evidence_item r \<noteq> None) rows" "sorted (map (row_key [''logIndex'']) rows)"
  shows "sorted (map eiLogIndex' (map (the \<circ> evidence_item) rows))"
proof -
  have "eiLogIndex' (the (evidence_item q)) \<le> eiLogIndex' (the (evidence_item r))"
    if "row_key [''logIndex''] q \<le> row_key [''logIndex''] r" "evidence_item q \<noteq> None" "evidence_item r \<noteq> None" for q r
    using that item_index [of q] item_index [of r] by (auto simp: row_key_def order_key_def less_eq_prod_def)
  then show ?thesis using assms by (induction rows) (auto simp: list_all_iff)
qed

lemma listing_cursor [simp]: "listing s (flt\<lparr>efCursor := c\<rparr>) G = listing s flt G" "listable s (flt\<lparr>efCursor := c\<rparr>) G = listable s flt G"
  "page_limit (flt\<lparr>efCursor := c\<rparr>) = page_limit flt"
  by (simp_all add: listing_def listable_def evidence_rows_def base_query_def page_limit_def)

lemma sorted_listing: "sorted (map eiLogIndex' (listing s flt G))"
  by (simp add: listing_def)

lemma after_row:
  assumes "evidence_item r \<noteq> None"
  shows "(case c of None \<Rightarrow> True | Some i \<Rightarrow> less_values (CInt i) (value_of r ''logIndex'')) \<longleftrightarrow> after c (the (evidence_item r))"
  using assms item_index [of r] by (auto simp: after_def less_values_def split: option.splits)

text \<open>The items of a page come from the listing after the cursor, however the database orders equal rows.\<close>

lemma rows_are_listing:
  assumes L: "listable s flt G" and all: "mset all = mset (filter (\<lambda>r. case c of None \<Rightarrow> True
      | Some i \<Rightarrow> less_values (CInt i) (value_of r ''logIndex'')) (evidence_rows s flt G))"
    and so: "sorted (map (row_key [''logIndex'']) all)"
  shows "list_all (\<lambda>r. evidence_item r \<noteq> None) all" "map (the \<circ> evidence_item) all = filter (after c) (listing s flt G)"
proof -
  let ?item = "the \<circ> evidence_item" and ?L = "filter (after c) (listing s flt G)"
  have ok: "\<forall>r \<in> set (evidence_rows s flt G). evidence_item r \<noteq> None" using L by (simp add: listable_def list_all_iff)
  have "set all \<subseteq> set (evidence_rows s flt G)" using mset_eq_setD [OF all] by auto
  then show t: "list_all (\<lambda>r. evidence_item r \<noteq> None) all" using ok by (auto simp: list_all_iff)
  have "filter (\<lambda>r. case c of None \<Rightarrow> True | Some i \<Rightarrow> less_values (CInt i) (value_of r ''logIndex'')) (evidence_rows s flt G)
      = filter (after c \<circ> ?item) (evidence_rows s flt G)"
    using ok after_row by (auto intro!: filter_cong)
  then have "mset (map ?item all) = mset (filter (after c) (map ?item (evidence_rows s flt G)))"
    using all by (simp add: filter_map)
  then have m: "mset (map ?item all) = mset ?L" by (simp add: listing_def)
  have "sorted (map eiLogIndex' ?L)" using sorted_filter [OF sorted_listing] .
  moreover have d: "distinct (map eiLogIndex' ?L)" using L by (simp add: listable_def distinct_map_filter)
  moreover have "distinct (map eiLogIndex' (map ?item all))"
    using d m by (metis mset_eq_imp_distinct_iff mset_map)
  moreover have "inj_on eiLogIndex' (set (map ?item all) \<union> set ?L)"
    using d mset_eq_setD [OF m] by (simp add: distinct_map)
  ultimately show "map ?item all = ?L"
    using map_sorted_distinct_set_unique ordered_items [OF t so] mset_eq_setD [OF m] by blast
qed

lemma rest_of_page:
  assumes "sorted (map eiLogIndex' L)" "distinct (map eiLogIndex' L)" "0 < m" "m < length (filter (after c) L)"
  shows "filter (after (Some (eiLogIndex' (filter (after c) L ! (m - 1))))) L = drop m (filter (after c) L)"
proof -
  let ?F = "filter (after c) L" and ?i = "eiLogIndex' (filter (after c) L ! (m - 1))"
  have so: "sorted_wrt (<) (map eiLogIndex' ?F)"
    using sorted_filter [OF assms(1)] distinct_map_filter [OF assms(2)] by (simp add: strict_sorted_iff)
  have "after c (?F ! (m - 1))" using assms(3,4) nth_mem [of "m - 1" ?F] by auto
  then have "after c it" if "after (Some ?i) it" for it using that by (auto simp: after_def split: option.splits)
  then have "filter (after (Some ?i)) L = filter (after (Some ?i)) ?F" by (auto intro: filter_cong)
  also have "\<dots> = filter (after (Some ?i)) (take m ?F) @ filter (after (Some ?i)) (drop m ?F)"
    by (metis append_take_drop_id filter_append)
  also have "filter (after (Some ?i)) (take m ?F) = []"
  proof -
    have "eiLogIndex' (?F ! j) \<le> ?i" if "j < m" for j
    proof (cases "j = m - 1")
      case False
      then have "j < m - 1" "m - 1 < length (map eiLogIndex' ?F)" using that assms(4) by auto
      then show ?thesis using sorted_wrt_nth_less [OF so, of j "m - 1"] that assms(4) by simp
    qed simp
    then show ?thesis using assms(4) by (auto simp: filter_empty_conv after_def in_set_conv_nth not_less)
  qed
  also have "filter (after (Some ?i)) (drop m ?F) = drop m ?F"
  proof -
    have "?i < eiLogIndex' (?F ! j)" if "m \<le> j" "j < length ?F" for j
      using sorted_wrt_nth_less [OF so, of "m - 1" j] that assms(3) by auto
    then show ?thesis by (auto simp: filter_id_conv after_def in_set_conv_nth)
  qed
  finally show ?thesis by simp
qed

context memgraph
begin

lemma Evidence_page:
  assumes st: "steady D" and L: "listable s flt (view g)" and lim: "page_limit flt < max_int64"
    and c: "efCursor flt = map_option encode_cursor c" "pred_option (\<lambda>i. min_int64 \<le> i \<and> i \<le> max_int64) c"
  obtains g' where "view g' = view g" "Evidence D s flt g = (Some (Inr (cut_page s (page_limit flt)
      (take (nat (page_limit flt + 1)) (filter (after c) (listing s flt (view g)))))), g')"
proof -
  obtain cs ps where b: "base_query s flt = (cs, ps)" by fastforce
  note cc = cursor_conditions [OF c b]
  let ?cond = "case c of None \<Rightarrow> [] | Some i \<Rightarrow> [Cond ''e'' ''logIndex'' Greater ''cursorIndex'']"
  let ?extra = "(case c of None \<Rightarrow> [] | Some i \<Rightarrow> [(''cursorIndex'', CInt i)]) @ [(''limit'', CInt (wrap64 (page_limit flt + 1)))]"
  let ?q = "evidence_query (cs @ ?cond)" and ?L = "filter (after c) (listing s flt (view g))" and ?n = "nat (page_limit flt + 1)"
  have pos: "0 < page_limit flt" by (simp add: page_limit_def split: option.splits)
  then have w: "wrap64 (page_limit flt + 1) = page_limit flt + 1" using lim by (simp add: wrap64_def)
  obtain rows g' where r: "run D g ?q (ps @ ?extra) = (Inr (rows, None), g')"
    using st unfolding steady_def answers_def by blast
  have v: "view g' = view g" by (rule run_reads [OF _ r]) (simp add: evidence_query_def)
  obtain all where all: "mset all = mset (answer ?q (ps @ ?extra) (view g))" "sorted (map (row_key [''logIndex'']) all)"
      "rows = limited ?q (ps @ ?extra) all"
    using run_ok [OF r] by (auto simp: allowed_answer_def evidence_query_def)
  note al = rows_are_listing [OF L all(1) [unfolded page_answer [OF b refl refl]] all(2)]
  have "map_of ps ''limit'' = None" using b by (auto simp: base_query_def filter_conditions_def split: option.splits)
  then have "value_of (ps @ ?extra) ''limit'' = CInt (page_limit flt + 1)"
    by (cases c) (simp_all add: value_of_def map_add_def w)
  then have rows: "rows = take ?n all" using all(3) by (simp add: limited_def evidence_query_def)
  have "list_all (\<lambda>r. evidence_item r \<noteq> None) rows"
    using al(1) unfolding rows by (auto simp: list_all_iff dest: in_set_takeD)
  then have f: "fold_opt (\<lambda>rec items. map_option (\<lambda>it. items @ [it]) (evidence_item rec)) rows [] = Some (take ?n ?L)"
    by (simp add: fold_items rows take_map al(2) [symmetric])
  obtain ps' where ps: "ps = (''subjectID'', CStr s) # ps'" using cc(2,3) by (cases ps) auto
  have "Evidence D s flt g = (Some (Inr (cut_page s (page_limit flt) (take ?n ?L))), g')"
    using r f cc(1) unfolding ps by (simp add: Evidence_def Let_def then_step_def return_step_def read_into_def fetch_def)
  then show ?thesis using v that by blast
qed

lemma follow_all:
  assumes "steady D" "listable s flt (view g)" "page_limit flt < max_int64"
    and "efCursor flt = map_option encode_cursor c" "pred_option (\<lambda>i. min_int64 \<le> i \<and> i \<le> max_int64) c"
    and "length (filter (after c) (listing s flt (view g))) \<le> n * nat (page_limit flt)"
  shows "\<exists>pages. follow_cursors (Suc n) D s flt g = Some pages \<and> concat pages = filter (after c) (listing s flt (view g))
     \<and> (\<forall>page \<in> set pages. length page \<le> nat (page_limit flt))"
  using assms
proof (induction n arbitrary: flt c g)
  case (0 flt c g)
  obtain g' where "Evidence D s flt g = (Some (Inr (cut_page s (page_limit flt)
      (take (nat (page_limit flt + 1)) (filter (after c) (listing s flt (view g)))))), g')"
    by (rule Evidence_page [OF 0(1-5)])
  moreover have "filter (after c) (listing s flt (view g)) = []" using 0(6) by simp
  moreover have "0 < page_limit flt" by (simp add: page_limit_def split: option.splits)
  ultimately show ?case by (simp add: cut_page_def)
next
  case (Suc n flt c g)
  let ?L = "filter (after c) (listing s flt (view g))" and ?m = "nat (page_limit flt)"
  obtain g' where v: "view g' = view g" and e: "Evidence D s flt g = (Some (Inr (cut_page s (page_limit flt)
      (take (nat (page_limit flt + 1)) ?L))), g')"
    by (rule Evidence_page [OF Suc.prems(1-5)])
  have pos: "0 < page_limit flt" by (simp add: page_limit_def split: option.splits)
  then have m: "nat (page_limit flt + 1) = Suc ?m" "0 < ?m" by auto
  show ?case
  proof (cases "?m < length ?L")
    case False
    then have "cut_page s (page_limit flt) (take (Suc ?m) ?L) = \<lparr>erSubjectID = s, erEvidence = ?L, erNextCursor = None\<rparr>"
      using pos by (simp add: cut_page_def)
    then show ?thesis using e m False by (simp only: follow_cursors.simps) simp
  next
    case True
    let ?i = "eiLogIndex' (?L ! (?m - 1))"
    have cut: "cut_page s (page_limit flt) (take (Suc ?m) ?L)
        = \<lparr>erSubjectID = s, erEvidence = take ?m ?L, erNextCursor = Some (encode_cursor ?i)\<rparr>"
    proof -
      have "page_limit flt < int (length ?L)" using True pos by linarith
      then show ?thesis using pos by (simp add: cut_page_def min_def)
    qed
    have "?L ! (?m - 1) \<in> set ?L" by (rule nth_mem) (use True in simp)
    then have rng: "min_int64 \<le> ?i" "?i \<le> max_int64" using Suc.prems(2) by (simp_all add: listable_def list_all_iff)
    have rest: "filter (after (Some ?i)) (listing s flt (view g)) = drop ?m ?L"
      by (rule rest_of_page) (use Suc.prems(2) True m in \<open>simp_all add: listable_def sorted_listing\<close>)
    let ?flt = "flt\<lparr>efCursor := Some (encode_cursor ?i)\<rparr>"
    obtain pages where p: "follow_cursors (Suc n) D s ?flt g' = Some pages" "concat pages = drop ?m ?L"
        "\<forall>page \<in> set pages. length page \<le> ?m"
    proof -
      have "length (drop ?m ?L) \<le> n * ?m" using Suc.prems(6) by simp
      then show ?thesis
        using Suc.IH [of ?flt g' "Some ?i"] Suc.prems(1,2,3) rng v rest that by auto
    qed
    have "follow_cursors (Suc (Suc n)) D s flt g = Some (take ?m ?L # pages)"
      using e p(1) unfolding m(1) cut by (simp only: follow_cursors.simps(2) [of "Suc n"]) simp
    then show ?thesis using p(2,3) by auto
  qed
qed

end

section \<open>Properties\<close>


lemma sample_listable: "listable ''app'' sample_filter sample_graph"
  by code_simp

lemma sample_listing: "map eiLogIndex' (listing ''app'' sample_filter sample_graph) = [1, 2, 3]"
  by code_simp


end
