(* ===== verification/ReadAccess.thy ===== *)
theory ReadAccess
  imports Authn
begin

text \<open>
  The guard that the read APIs of the locker and of the graph put before their routers: authentication and Cedar
  authorization for every path but the health check (\<^verbatim>\<open>NewHandler\<close> of \<^verbatim>\<open>internal/locker/handler.go\<close> and
  of \<^verbatim>\<open>internal/graph/handler.go\<close>).
\<close>

text \<open>\<open>answer\<close> ends the request with a response, \<open>handler\<close> passes it on; the authenticator has the state \<open>'s\<close>.\<close>

definition protect ::
    "('s \<Rightarrow> request \<Rightarrow> Principal res \<times> 's) option \<Rightarrow> cedar \<Rightarrow> policy_set \<Rightarrow> MiddlewareConfig \<Rightarrow>
     (response \<Rightarrow> 's \<Rightarrow> 'r) \<Rightarrow> (request \<Rightarrow> 's \<Rightarrow> 'r) \<Rightarrow> request \<Rightarrow> 's \<Rightarrow> 'r" where
  "protect auth C policySet authzCfg answer handler r st =
     (case auth of
        None \<Rightarrow> handler r st
      | Some a \<Rightarrow>
          if rqPath r = ''/healthz'' then handler r st
          else case AuthMiddleware a st r of
            (Inl resp, st') \<Rightarrow> answer resp st'
          | (Inr r', st') \<Rightarrow>
              (case Middleware C policySet None authzCfg r' of
                 Some resp \<Rightarrow> answer resp st'
               | None \<Rightarrow> handler r' st'))"

text \<open>Who may read: an identified principal with an administrator or auditor scope or group.\<close>

definition reader :: "MiddlewareConfig \<Rightarrow> Principal \<Rightarrow> bool" where
  "reader cfg p \<longleftrightarrow> prIssuer p \<noteq> [] \<and> prSub p \<noteq> [] \<and>
     (''complytime:admin'' \<in> set (prScopes p) \<or> adminGroup cfg \<in> set (prGroups p)
      \<or> ''complytime:audit'' \<in> set (prScopes p) \<or> auditorGroup cfg \<in> set (prGroups p))"

lemma protect_cases [consumes 2, case_names refused passed]:
  assumes "cedar_engine C" "rqPath r \<noteq> ''/healthz''"
  obtains (refused) resp st' where "rsStatus resp \<in> {401, 403}" "protect (Some a) C base_policies cfg answer handler r st = answer resp st'"
    | (passed) p r' st' where "a st r = (Inr p, st')" "reader cfg p" "rqPath r' = rqPath r"
        "protect (Some a) C base_policies cfg answer handler r st = handler r' st'"
proof -
  obtain x st' where a: "AuthMiddleware a st r = (x, st')" by fastforce
  show thesis
  proof (cases x)
    case (Inl e)
    then have "rsStatus e = 401" using a by (auto simp: AuthMiddleware_def split: prod.splits sum.splits)
    moreover have "protect (Some a) C base_policies cfg answer handler r st = answer e st'"
      using a Inl assms(2) by (simp add: protect_def)
    ultimately show thesis by (intro refused) auto
  next
    case (Inr r')
    then obtain p where p: "a st r = (Inr p, st')" "rqPath r' = rqPath r"
        "rqContext r' = SetGroupsContext (SetScopesContext (SetPublisherFlagContext
           (SetPublisherContext (rqContext r) (prIssuer p) (prSub p)) (prPublisher p)) (prScopes p)) (prGroups p)"
      using a by (auto simp: AuthMiddleware_def split: prod.splits sum.splits)
    show thesis
    proof (cases "Middleware C base_policies None cfg r'")
      case (Some e)
      then have "rsStatus e \<in> {401, 403}"
        by (auto simp: Middleware_def Let_def split: option.splits sum.splits if_splits prod.splits)
      moreover have "protect (Some a) C base_policies cfg answer handler r st = answer e st'"
        using a Inr Some assms(2) by (simp add: protect_def)
      ultimately show thesis by (rule refused)
    next
      case None
      then have "access_granted None cfg r'" using cedar_engine.base_middleware [OF assms(1)] by blast
      then have "reader cfg p"
        by (auto simp: reader_def access_granted_def holds_role_def Let_def p(3) GetPublisher_def GetScopes_def GetGroups_def
            SetGroupsContext_def SetScopesContext_def SetPublisherFlagContext_def SetPublisherContext_def split: prod.splits)
      moreover have "protect (Some a) C base_policies cfg answer handler r st = handler r' st'"
        using a Inr None assms(2) by (simp add: protect_def)
      ultimately show thesis using p(1,2) by (intro passed)
    qed
  qed
qed

lemma embedded_base:
  assumes "cedar_parse C ''base.cedar'' data = Inr base_policies" "LoadEmbeddedPolicies C (Inr data) f [] = Inr ps"
  shows "ps = base_policies"
  using assms by (simp add: LoadEmbeddedPolicies_def)

end
