(* ===== verification/GraphApi.thy ===== *)
theory GraphApi
  imports GraphPages ReadAccess
begin

text \<open>
  The HTTP API of the graph service: the handlers (\<^verbatim>\<open>internal/graph/handler.go\<close>), the JSON forms of the response
  types, and the generated wrappers that bind parameters and register the routes (\<^verbatim>\<open>gen.openapi.go\<close>).  The chi
  router and the parameter binding of the runtime library are parameters.
\<close>

section \<open>JSON forms\<close>

text \<open>\<^verbatim>\<open>json.Encode\<close> of a time: an error for a year that RFC 3339 cannot write.\<close>

definition time_json :: "time \<Rightarrow> json res" where
  "time_json t =
     (case time_marshal t of
        Inl err \<Rightarrow> Inl (ErrorfW ''json: error calling MarshalJSON for type time.Time: '' err [])
      | Inr s \<Rightarrow> Inr (JStr s))"

fun all_json :: "('a \<Rightarrow> json res) \<Rightarrow> 'a list \<Rightarrow> json list res" where
  "all_json f [] = Inr []"
| "all_json f (x # xs) =
     (case f x of Inl err \<Rightarrow> Inl err
      | Inr j \<Rightarrow> (case all_json f xs of Inl err \<Rightarrow> Inl err | Inr js \<Rightarrow> Inr (j # js)))"

definition strings_json :: "string list \<Rightarrow> json" where
  "strings_json xs = JArr (map JStr xs)"

definition publisher_identity_json :: "PublisherIdentity \<Rightarrow> json" where
  "publisher_identity_json p = JObj [(''issuer'', JStr (piIssuer p)), (''sub'', JStr (piSub p))]"

definition source_json :: "EvidenceSource \<Rightarrow> json res" where
  "source_json so = map_sum id (\<lambda>sealed.
     JObj [(''digest'', JStr (soDigest so)), (''logIndex'', JNum (show_int (soLogIndex so))),
       (''publisher'', publisher_identity_json (soPublisher so)), (''sealed'', sealed)]) (time_json (soSealed so))"

definition capability_json :: "ThreatModelCapability \<Rightarrow> json res" where
  "capability_json c = map_sum id (\<lambda>source.
     JObj [(''description'', JStr (tcDescription c)), (''id'', JStr (tcId c)), (''introduces'', strings_json (tcIntroduces c)),
       (''source'', source), (''title'', JStr (tcTitle c))]) (source_json (tcSource c))"

definition control_json :: "ThreatModelControl \<Rightarrow> json res" where
  "control_json c = map_sum id (\<lambda>source.
     JObj [(''applies'', strings_json (tlApplies c)),
       (''assessmentRequirements'', strings_json (tlAssessmentRequirements c)), (''id'', JStr (tlId c)),
       (''objective'', JStr (tlObjective c)), (''source'', source), (''title'', JStr (tlTitle c))]) (source_json (tlSource c))"

definition threat_json :: "ThreatModelThreat \<Rightarrow> json res" where
  "threat_json t = map_sum id (\<lambda>source.
     JObj [(''addressedBy'', strings_json (ttAddressedBy t)), (''description'', JStr (ttDescription t)),
       (''id'', JStr (ttId t)), (''leverages'', strings_json (ttLeverages t)), (''source'', source),
       (''title'', JStr (ttTitle t))]) (source_json (ttSource t))"

definition vector_json :: "ThreatModelVector \<Rightarrow> json" where
  "vector_json v = JObj [(''description'', JStr (tvDescription v)), (''id'', JStr (tvId v)), (''title'', JStr (tvTitle v))]"

definition threat_model_json :: "ThreatModelResult \<Rightarrow> json res" where
  "threat_model_json m =
     (case all_json capability_json (tmCapabilities m) of Inl err \<Rightarrow> Inl err | Inr caps \<Rightarrow>
     (case all_json control_json (tmControls m) of Inl err \<Rightarrow> Inl err | Inr controls \<Rightarrow>
     (case all_json threat_json (tmThreats m) of Inl err \<Rightarrow> Inl err | Inr threats \<Rightarrow>
        Inr (JObj [(''capabilities'', JArr caps), (''controls'', JArr controls), (''subjectId'', JStr (tmSubjectID m)),
          (''threats'', JArr threats), (''vectors'', JArr (map vector_json (tmVectors m)))]))))"

definition type_summary_json :: "ArtifactTypeSummary \<Rightarrow> json res" where
  "type_summary_json a = map_sum id (\<lambda>t. JObj [(''count'', JNum (show_int (atCount a))), (''lastUpdated'', t)]) (time_json (atLastUpdated a))"

text \<open>A map is encoded in the order of its keys.\<close>

definition type_map_json :: "(string \<times> ArtifactTypeSummary) list \<Rightarrow> json res" where
  "type_map_json m =
     (let ordered = sort_key (\<lambda>(k, _). map (of_char :: char \<Rightarrow> nat) k) m in
      map_sum id (\<lambda>js. JObj (zip (map fst ordered) js)) (all_json (\<lambda>(_, a). type_summary_json a) ordered))"

text \<open>\<^verbatim>\<open>SubjectSummary\<close> and \<^verbatim>\<open>SubjectDetail\<close> have the same fields.\<close>

definition subject_json :: "SubjectSummaryResult \<Rightarrow> json res" where
  "subject_json s = map_sum id (\<lambda>types.
     JObj [(''artifactTypes'', types), (''evidenceCount'', JNum (show_int (ssEvidenceCount s))),
       (''id'', JStr (ssSubjectID s)), (''publisherCount'', JNum (show_int (ssPublisherCount s)))])
     (type_map_json (ssArtifactTypes s))"

definition evidence_item_json :: "EvidenceItem \<Rightarrow> json res" where
  "evidence_item_json e = map_sum id (\<lambda>sealed.
     JObj [(''artifactType'', JStr (eiArtifactType' e)), (''digest'', JStr (eiDigest' e)),
       (''logIndex'', JNum (show_int (eiLogIndex' e))), (''publisher'', publisher_identity_json (eiPublisher' e)),
       (''sealed'', sealed), (''status'', JStr (eiStatus' e))]) (time_json (eiSealed' e))"

text \<open>An empty page is the nil slice, which encodes as null.\<close>

definition evidence_list_json :: "EvidenceResult \<Rightarrow> json res" where
  "evidence_list_json r = map_sum id (\<lambda>items.
     JObj ((''evidence'', if erEvidence r = [] then JNull else JArr items)
       # (case erNextCursor r of None \<Rightarrow> [] | Some c \<Rightarrow> [(''nextCursor'', JStr c)])
       @ [(''subjectId'', JStr (erSubjectID r))])) (all_json evidence_item_json (erEvidence r))"

definition status_text :: "CoverageControlStatus \<Rightarrow> string" where
  "status_text s = (case s of Covered \<Rightarrow> ''covered'' | Uncovered \<Rightarrow> ''uncovered'')"

definition coverage_control_json :: "CoverageControl \<Rightarrow> json res" where
  "coverage_control_json c =
     (case (case ccLatestEvidence c of None \<Rightarrow> Inr []
            | Some t \<Rightarrow> map_sum id (\<lambda>j. [(''latestEvidence'', j)]) (time_json t)) of
        Inl err \<Rightarrow> Inl err
      | Inr latest \<Rightarrow>
          Inr (JObj ((''id'', JStr (ccId c)) # latest
            @ [(''status'', JStr (status_text (ccStatus c))), (''title'', JStr (ccTitle c))])))"

definition coverage_json :: "CoverageResult \<Rightarrow> json res" where
  "coverage_json r = map_sum id (\<lambda>controls.
     JObj [(''catalog'', JStr (crCatalog r)), (''catalogType'', JStr (crCatalogType r)), (''controls'', JArr controls),
       (''covered'', JNum (show_int (crCovered r))), (''subjectId'', JStr (crSubjectID r)),
       (''total'', JNum (show_int (crTotal r)))]) (all_json coverage_control_json (crControls r))"

section \<open>Handlers\<close>

text \<open>The status is sent before the body is encoded: an encoding error arrives under the status that was meant.\<close>

definition graph_respondJSON :: "nat \<Rightarrow> json res \<Rightarrow> response" where
  "graph_respondJSON status data =
     (case data of Inl err \<Rightarrow> http_error (error_text err) status | Inr j \<Rightarrow> json_response status j)"

definition graph_respondError :: "nat \<Rightarrow> string \<Rightarrow> response" where
  "graph_respondError status message = graph_respondJSON status (Inr (JObj [(''error'', JStr message)]))"

text \<open>The answer to what the data access returned; \<open>None\<close> is a panic.\<close>

definition respond :: "('a \<Rightarrow> response) \<Rightarrow> 'a res option \<times> 'g \<Rightarrow> response option \<times> 'g" where
  "respond f x =
     (case x of
        (None, g) \<Rightarrow> (None, g)
      | (Some (Inl err), g) \<Rightarrow> (Some (graph_respondError 500 (error_text err)), g)
      | (Some (Inr result), g) \<Rightarrow> (Some (f result), g))"

definition graph_HealthCheck :: response where
  "graph_HealthCheck = graph_respondJSON 200 (Inr (JObj [(''status'', JStr ''ok'')]))"

definition api_ListSubjects :: "'g graph_db \<Rightarrow> 'g \<Rightarrow> response option \<times> 'g" where
  "api_ListSubjects D g =
     respond (\<lambda>subjects. graph_respondJSON 200
       (map_sum id (\<lambda>summaries. JObj [(''subjects'', JArr summaries)]) (all_json subject_json subjects))) (ListSubjects D g)"

definition api_GetSubject :: "'g graph_db \<Rightarrow> string \<Rightarrow> 'g \<Rightarrow> response option \<times> 'g" where
  "api_GetSubject D subject g =
     respond (\<lambda>summary. if ssEvidenceCount summary = 0 then graph_respondError 404 ''subject not found''
        else graph_respondJSON 200 (subject_json summary)) (SubjectSummary D subject g)"

definition api_GetThreatModel :: "'g graph_db \<Rightarrow> (string list \<Rightarrow> string list) \<Rightarrow> string \<Rightarrow> 'g \<Rightarrow> response option \<times> 'g" where
  "api_GetThreatModel D rng subject g =
     respond (\<lambda>result.
        if tmCapabilities result = [] \<and> tmThreats result = [] \<and> tmControls result = [] \<and> tmVectors result = []
        then graph_respondError 404 ''subject not found''
        else graph_respondJSON 200 (threat_model_json result)) (ThreatModel D rng subject g)"

record GetEvidenceParams =
  gpType :: "string option"
  gpSince :: "time option"
  gpBefore :: "time option"
  gpCursor :: "string option"
  gpLimit :: "int option"

definition evidence_limit :: "int option \<Rightarrow> int" where
  "evidence_limit l =
     (case l of None \<Rightarrow> 50
      | Some limit \<Rightarrow> let limit = (if limit > 200 then 200 else limit) in if limit < 1 then 1 else limit)"

definition evidence_filter :: "GetEvidenceParams \<Rightarrow> EvidenceFilter" where
  "evidence_filter params =
     \<lparr>efArtifactType = gpType params, efSince = gpSince params, efBefore = gpBefore params, efCursor = gpCursor params,
      efLimit = Some (evidence_limit (gpLimit params))\<rparr>"

definition api_GetEvidence :: "'g graph_db \<Rightarrow> string \<Rightarrow> GetEvidenceParams \<Rightarrow> 'g \<Rightarrow> response option \<times> 'g" where
  "api_GetEvidence D subject params g =
     respond (\<lambda>result. graph_respondJSON 200 (evidence_list_json result)) (Evidence D subject (evidence_filter params) g)"

definition api_GetCoverage :: "'g graph_db \<Rightarrow> string \<Rightarrow> string \<Rightarrow> 'g \<Rightarrow> response option \<times> 'g" where
  "api_GetCoverage D subject catalog g =
     respond (\<lambda>result. if crTotal result = 0 then graph_respondError 404 ''subject not found''
        else graph_respondJSON 200 (coverage_json result)) (Coverage D subject catalog g)"

section \<open>Generated wrappers\<close>

text \<open>
  The binding of parameters by the runtime library: a path parameter, a required and an optional query parameter.  The
  library tells a missing required parameter from a value it cannot bind.
\<close>

type_synonym url_values = "(string \<times> string list) list"

datatype bind_error = RequiredParameter | BindFailure goerr

record graph_binding =
  bind_path :: "string \<Rightarrow> string \<Rightarrow> string res"
  bind_required :: "string \<Rightarrow> url_values \<Rightarrow> bind_error + string"
  bind_string_opt :: "string \<Rightarrow> url_values \<Rightarrow> bind_error + string option"
  bind_time_opt :: "string \<Rightarrow> url_values \<Rightarrow> bind_error + time option"
  bind_int_opt :: "string \<Rightarrow> url_values \<Rightarrow> bind_error + int option"

definition invalid_path :: "string \<Rightarrow> goerr \<Rightarrow> response" where
  "invalid_path name err = http_error (''Invalid format for parameter '' @ name @ '': '' @ error_text err) 400"

definition invalid_query :: "string \<Rightarrow> bind_error \<Rightarrow> response" where
  "invalid_query name err =
     (case err of
        RequiredParameter \<Rightarrow> http_error (''Query argument '' @ name @ '' is required, but not found'') 400
      | BindFailure e \<Rightarrow> invalid_path name e)"

definition wrap_id :: "graph_binding \<Rightarrow> (string \<Rightarrow> string) \<Rightarrow> (string \<Rightarrow> 'g \<Rightarrow> response option \<times> 'g) \<Rightarrow> 'g \<Rightarrow> response option \<times> 'g" where
  "wrap_id B urlParam handler g =
     (case bind_path B ''id'' (urlParam ''id'') of
        Inl err \<Rightarrow> (Some (invalid_path ''id'' err), g)
      | Inr subject \<Rightarrow> handler subject g)"

definition wrap_GetSubject :: "graph_binding \<Rightarrow> (string \<Rightarrow> string) \<Rightarrow> 'g graph_db \<Rightarrow> 'g \<Rightarrow> response option \<times> 'g" where
  "wrap_GetSubject B urlParam D = wrap_id B urlParam (api_GetSubject D)"

definition wrap_GetCoverage :: "graph_binding \<Rightarrow> (string \<Rightarrow> string) \<Rightarrow> url_values \<Rightarrow> 'g graph_db \<Rightarrow> 'g \<Rightarrow> response option \<times> 'g" where
  "wrap_GetCoverage B urlParam qs D = wrap_id B urlParam (\<lambda>subject g.
     case bind_required B ''catalog'' qs of
       Inl err \<Rightarrow> (Some (invalid_query ''catalog'' err), g)
     | Inr catalog \<Rightarrow> api_GetCoverage D subject catalog g)"

definition wrap_GetEvidence :: "graph_binding \<Rightarrow> (string \<Rightarrow> string) \<Rightarrow> url_values \<Rightarrow> 'g graph_db \<Rightarrow> 'g \<Rightarrow> response option \<times> 'g" where
  "wrap_GetEvidence B urlParam qs D = wrap_id B urlParam (\<lambda>subject g.
     case bind_string_opt B ''type'' qs of
       Inl err \<Rightarrow> (Some (invalid_query ''type'' err), g)
     | Inr ty \<Rightarrow>
    (case bind_time_opt B ''since'' qs of
       Inl err \<Rightarrow> (Some (invalid_query ''since'' err), g)
     | Inr since \<Rightarrow>
    (case bind_time_opt B ''before'' qs of
       Inl err \<Rightarrow> (Some (invalid_query ''before'' err), g)
     | Inr before \<Rightarrow>
    (case bind_string_opt B ''cursor'' qs of
       Inl err \<Rightarrow> (Some (invalid_query ''cursor'' err), g)
     | Inr cursor \<Rightarrow>
    (case bind_int_opt B ''limit'' qs of
       Inl err \<Rightarrow> (Some (invalid_query ''limit'' err), g)
     | Inr limit \<Rightarrow>
         api_GetEvidence D subject \<lparr>gpType = ty, gpSince = since, gpBefore = before, gpCursor = cursor, gpLimit = limit\<rparr> g)))))"

definition wrap_GetThreatModel ::
    "graph_binding \<Rightarrow> (string \<Rightarrow> string) \<Rightarrow> 'g graph_db \<Rightarrow> (string list \<Rightarrow> string list) \<Rightarrow> 'g \<Rightarrow> response option \<times> 'g" where
  "wrap_GetThreatModel B urlParam D rng = wrap_id B urlParam (api_GetThreatModel D rng)"

section \<open>Routes\<close>

datatype graph_op = GraphListSubjects | GraphGetSubject | GraphGetCoverage | GraphGetEvidence | GraphGetThreatModel | GraphHealthCheck

definition graph_routes :: "(string \<times> string \<times> graph_op) list" where
  "graph_routes =
     [(''GET'', ''/api/subjects'', GraphListSubjects), (''GET'', ''/api/subjects/{id}'', GraphGetSubject),
      (''GET'', ''/api/subjects/{id}/coverage'', GraphGetCoverage), (''GET'', ''/api/subjects/{id}/evidence'', GraphGetEvidence),
      (''GET'', ''/api/subjects/{id}/threat-model'', GraphGetThreatModel), (''GET'', ''/healthz'', GraphHealthCheck)]"

definition serve_graph_op ::
    "graph_binding \<Rightarrow> 'g graph_db \<Rightarrow> (string list \<Rightarrow> string list) \<Rightarrow> (string \<Rightarrow> string) \<Rightarrow> url_values \<Rightarrow> graph_op \<Rightarrow> 'g
       \<Rightarrow> response option \<times> 'g" where
  "serve_graph_op B D rng urlParam qs op g =
     (case op of
        GraphListSubjects \<Rightarrow> api_ListSubjects D g
      | GraphGetSubject \<Rightarrow> wrap_GetSubject B urlParam D g
      | GraphGetCoverage \<Rightarrow> wrap_GetCoverage B urlParam qs D g
      | GraphGetEvidence \<Rightarrow> wrap_GetEvidence B urlParam qs D g
      | GraphGetThreatModel \<Rightarrow> wrap_GetThreatModel B urlParam D rng g
      | GraphHealthCheck \<Rightarrow> (Some graph_HealthCheck, g))"

text \<open>
  \<open>routed\<close> is what the router makes of the request: an operation with its path parameters, or an answer of its own.
  The middleware runs before the router chooses.
\<close>

definition graph_NewHandler ::
    "('s \<Rightarrow> request \<Rightarrow> Principal res \<times> 's) option \<Rightarrow> cedar \<Rightarrow> policy_set \<Rightarrow> MiddlewareConfig \<Rightarrow>
     (request \<Rightarrow> response + graph_op \<times> (string \<Rightarrow> string)) \<Rightarrow> graph_binding \<Rightarrow> 'g graph_db \<Rightarrow> (string list \<Rightarrow> string list) \<Rightarrow>
     request \<Rightarrow> url_values \<Rightarrow> 's \<Rightarrow> 'g \<Rightarrow> response option \<times> 's \<times> 'g" where
  "graph_NewHandler auth C policySet authzCfg routed B D rng r qs st g =
     protect auth C policySet authzCfg (\<lambda>resp st'. (Some resp, st', g))
       (\<lambda>r' st'. case routed r' of
          Inl resp \<Rightarrow> (Some resp, st', g)
        | Inr (op, urlParam) \<Rightarrow> (case serve_graph_op B D rng urlParam qs op g of (resp, g') \<Rightarrow> (resp, st', g'))) r st"

section \<open>Lemmas\<close>

lemma graph_respond_simps [simp]:
  "rsStatus (graph_respondJSON s j) = s" "rsStatus (graph_respondError s m) = s"
  "graph_respondJSON s (Inr d) = json_response s d"
  by (simp_all add: graph_respondError_def graph_respondJSON_def split: sum.split)

lemma evidence_limit_bounds: "1 \<le> evidence_limit l" "evidence_limit l \<le> 200"
  by (simp_all add: evidence_limit_def Let_def split: option.split)

lemma page_limit_evidence [simp]: "page_limit (evidence_filter params) = evidence_limit (gpLimit params)"
  using evidence_limit_bounds(1) [of "gpLimit params"] by (simp add: page_limit_def evidence_filter_def)

lemma cut_take:
  assumes "0 < n"
  shows "erEvidence (cut_page s n (take (nat (n + 1)) xs)) = take (nat n) xs"
    and "erNextCursor (cut_page s n (take (nat (n + 1)) xs)) \<noteq> None \<longleftrightarrow> n < int (length xs)"
    and "erSubjectID (cut_page s n (take (nat (n + 1)) xs)) = s"
  using assms by (auto simp: cut_page_def min_def nat_add_distrib)

text \<open>The base policies let nobody but a reader pass the guard.\<close>

lemma graph_reads_authorized:
  assumes "cedar_engine C" "cedar_parse C ''base.cedar'' data = Inr base_policies" "LoadEmbeddedPolicies C (Inr data) f [] = Inr ps"
    and "rqPath r \<noteq> ''/healthz''"
    and h: "graph_NewHandler (Some auth) C ps cfg routed B D rng r qs st g = (resp, st', g')"
  shows "(\<exists>x. resp = Some x \<and> rsStatus x \<in> {401, 403} \<and> g' = g) \<or>
    (\<exists>p. auth st r = (Inr p, st') \<and> reader cfg p)"
proof -
  let ?answer = "\<lambda>resp st'. (Some resp, st', g)"
  let ?handler = "\<lambda>r' st'. case routed r' of Inl resp \<Rightarrow> (Some resp, st', g)
    | Inr (op, urlParam) \<Rightarrow> (case serve_graph_op B D rng urlParam qs op g of (resp, g') \<Rightarrow> (resp, st', g'))"
  note h' = h [unfolded graph_NewHandler_def embedded_base [OF assms(2,3)]]
  from assms(1,4) show ?thesis
  proof (cases rule: protect_cases [where a = auth and cfg = cfg and st = st and answer = ?answer and handler = ?handler])
    case (refused x st1)
    then show ?thesis using h' by auto
  next
    case (passed p r' st1)
    have "st' = st1" using h' unfolding passed(4) by (auto split: sum.splits prod.splits)
    then show ?thesis using passed(1,2) by blast
  qed
qed

section \<open>Properties\<close>

text \<open>
  C39: what the evidence endpoint answers on a database that answers.  A request without a cursor gets 200 with the
  first page of the listing, of at most the requested size capped to 200, and a cursor exactly when more follow.
  A subject that has no evidence, or that does not exist, also gets 200, with a null list.
\<close>
theorem get_evidence_first_page:
  assumes "memgraph D view" "steady D" "listable subject (evidence_filter params) (view g)" "gpCursor params = None"
  shows "\<exists>page g'. api_GetEvidence D subject params g = (Some (graph_respondJSON 200 (evidence_list_json page)), g') \<and> view g' = view g
    \<and> erEvidence page = take (nat (evidence_limit (gpLimit params))) (listing subject (evidence_filter params) (view g))
    \<and> length (erEvidence page) \<le> 200
    \<and> (erNextCursor page \<noteq> None \<longleftrightarrow> evidence_limit (gpLimit params) < int (length (listing subject (evidence_filter params) (view g))))
    \<and> (listing subject (evidence_filter params) (view g) = [] \<longrightarrow> rsBody (graph_respondJSON 200 (evidence_list_json page))
         = Json (JObj [(''evidence'', JNull), (''subjectId'', JStr subject)]))"
proof -
  let ?n = "evidence_limit (gpLimit params)" and ?L = "listing subject (evidence_filter params) (view g)"
  let ?page = "cut_page subject ?n (take (nat (?n + 1)) ?L)"
  have n: "0 < ?n" "?n \<le> 200" using evidence_limit_bounds [of "gpLimit params"] by simp_all
  have all: "filter (after None) ?L = ?L" by (simp add: after_def)
  have c: "efCursor (evidence_filter params) = map_option encode_cursor None" by (simp add: evidence_filter_def assms(4))
  have lim: "page_limit (evidence_filter params) < max_int64" using n by simp
  obtain g' where g': "view g' = view g" "Evidence D subject (evidence_filter params) g = (Some (Inr ?page), g')"
    by (rule memgraph.Evidence_page [OF assms(1-3) lim c]) (simp_all add: all)
  have "rsBody (graph_respondJSON 200 (evidence_list_json ?page)) = Json (JObj [(''evidence'', JNull), (''subjectId'', JStr subject)])"
    if "?L = []" using that n by (simp add: cut_page_def evidence_list_json_def)
  moreover have "length (take (nat ?n) ?L) \<le> 200" using n by simp
  ultimately show ?thesis
    using g' cut_take [OF n(1), of subject ?L]
    by (intro exI [of _ ?page] exI [of _ g']) (simp add: api_GetEvidence_def respond_def)
qed

theorem get_evidence_first_page_witness:
  "\<exists>page g'. api_GetEvidence mem_graph ''app'' \<lparr>gpType = Some ''sbom'', gpSince = None, gpBefore = None, gpCursor = None, gpLimit = Some 2\<rparr> sample_graph
      = (Some (graph_respondJSON 200 (evidence_list_json page)), g') \<and> g' = sample_graph
    \<and> map eiLogIndex' (erEvidence page) = [1, 2] \<and> erNextCursor page \<noteq> None"
proof -
  let ?params = "\<lparr>gpType = Some ''sbom'', gpSince = None, gpBefore = None, gpCursor = None, gpLimit = Some 2\<rparr>"
  have f: "evidence_filter ?params = sample_filter" by (simp add: evidence_filter_def sample_filter_def evidence_limit_def)
  have c: "gpCursor ?params = None" by simp
  have n: "evidence_limit (gpLimit ?params) = 2" by (simp add: evidence_limit_def)
  have L: "listable ''app'' (evidence_filter ?params) sample_graph" unfolding f by (rule sample_listable)
  have i: "map eiLogIndex' (listing ''app'' sample_filter sample_graph) = [1, 2, 3]" by (rule sample_listing)
  then have l: "length (listing ''app'' sample_filter sample_graph) = 3" by (metis length_map list.size(3,4) numeral_3_eq_3 One_nat_def Suc_eq_plus1)
  obtain page g' where p: "api_GetEvidence mem_graph ''app'' ?params sample_graph = (Some (graph_respondJSON 200 (evidence_list_json page)), g')"
      "g' = sample_graph" "erEvidence page = take (nat 2) (listing ''app'' sample_filter sample_graph)"
      "erNextCursor page \<noteq> None \<longleftrightarrow> 2 < int (length (listing ''app'' sample_filter sample_graph))"
    using get_evidence_first_page [OF mem_memgraph.memgraph_axioms sample_steady L c] unfolding f n by (elim exE conjE) (rule that)
  have "map eiLogIndex' (erEvidence page) = [1, 2]" unfolding p(3) take_map [symmetric] i by simp
  moreover have "erNextCursor page \<noteq> None" unfolding p(4) l by simp
  ultimately show ?thesis by (intro exI conjI) (rule p(1), rule p(2), assumption+)
qed

end
