(* ===== verification/Ledger.thy ===== *)
theory Ledger
  imports Events GoFiles
begin

text \<open>
  One subject's transparency log (\<^verbatim>\<open>internal/locker/ledger.go\<close>): sealing, fetching by index through entry
  bundles, the digest index and its rebuilding, and the signer key file.  The Tessera log, its layout
  constants and the note-signing library are parameters; the locales \<open>tessera_log\<close> and \<open>note_keys\<close>
  state what the ledger relies on.
\<close>

section \<open>Parameters\<close>

text \<open>
  The log behind an appender and its reader.  \<open>t_tick\<close> is the background integration that runs while a
  caller waits.
\<close>

record 'l tessera =
  t_add :: "'l \<Rightarrow> bytes \<Rightarrow> nat res \<times> 'l"
  t_tick :: "'l \<Rightarrow> 'l"
  t_size :: "'l \<Rightarrow> nat res"
  t_bundle :: "'l \<Rightarrow> nat \<Rightarrow> nat \<Rightarrow> bytes res"
  t_unbundle :: "bytes \<Rightarrow> bytes list res"
  t_width :: nat
  t_partial :: "nat \<Rightarrow> nat \<Rightarrow> nat \<Rightarrow> nat"
  t_shutdown :: "'l \<Rightarrow> goerr option \<times> 'l"

record AppendOptions =
  aoBatchSize :: nat
  aoBatchAge :: duration
  aoCheckpointInterval :: duration
  aoSigner :: string

record ('d, 'l) tessera_open =
  posix_new :: "string \<Rightarrow> 'd res"
  new_appender :: "'d \<Rightarrow> AppendOptions \<Rightarrow> 'l res"

record note_lib =
  note_signer :: "string \<Rightarrow> goerr option"
  note_verifier :: "string \<Rightarrow> goerr option"
  note_generate :: "string \<Rightarrow> (string \<times> string) res"

section \<open>The ledger\<close>

record 'l Ledger =
  ldSubjectID :: string
  ldStoragePath :: string
  ldLog :: 'l
  ldVerifierKey :: string
  ldDigestIndex :: "string \<rightharpoonup> nat"

definition SHA256Hex :: "bytes \<Rightarrow> string" where
  "SHA256Hex data = hex_encode (sha256 data)"

definition ledgerOrigin :: "string \<Rightarrow> string" where
  "ledgerOrigin subjectID = ''complytime/'' @ subjectID"

definition VerifierKey :: "'l Ledger \<Rightarrow> string" where
  "VerifierKey l = ldVerifierKey l"

definition SubjectID :: "'l Ledger \<Rightarrow> string" where
  "SubjectID l = ldSubjectID l"

definition TesseraStoragePath :: "'l Ledger \<Rightarrow> string" where
  "TesseraStoragePath l = path_join [ldStoragePath l, ''tessera'']"

definition integratedSize :: "'l tessera \<Rightarrow> 'l Ledger \<Rightarrow> nat res" where
  "integratedSize T l = t_size T (ldLog l)"

definition Seal :: "'l tessera \<Rightarrow> bytes \<Rightarrow> 'l Ledger \<Rightarrow> nat res \<times> 'l Ledger" where
  "Seal T receipt l =
     (case t_add T (ldLog l) receipt of
        (Inl err, g) \<Rightarrow> (Inl (ErrorfW ''sealing receipt: '' err []), l\<lparr>ldLog := g\<rparr>)
      | (Inr idx, g) \<Rightarrow>
          (Inr idx, l\<lparr>ldLog := g, ldDigestIndex := (ldDigestIndex l)(SHA256Hex receipt \<mapsto> idx)\<rparr>))"

definition VerifyDigest :: "string \<Rightarrow> 'l Ledger \<Rightarrow> nat option" where
  "VerifyDigest hexDigest l = ldDigestIndex l hexDigest"

text \<open>
  What the \<^verbatim>\<open>select\<close> of \<^verbatim>\<open>waitForIntegration\<close> picks, one event per iteration.  A list of events is
  one schedule of the loop; \<open>None\<close> means it is still waiting when the schedule ends.
\<close>

datatype select_event = Tick | Timeout | CtxDone goerr

fun waitForIntegration ::
    "'l tessera \<Rightarrow> select_event list \<Rightarrow> nat \<Rightarrow> 'l Ledger \<Rightarrow> (goerr option \<times> 'l Ledger) option" where
  "waitForIntegration T [] targetIndex l = None"
| "waitForIntegration T (Timeout # evs) targetIndex l =
     Some (Some (Errorf (''timeout waiting for index '' @ show_nat targetIndex @ '' to be integrated'')), l)"
| "waitForIntegration T (CtxDone err # evs) targetIndex l = Some (Some err, l)"
| "waitForIntegration T (Tick # evs) targetIndex l =
     (let l' = l\<lparr>ldLog := t_tick T (ldLog l)\<rparr> in
      case t_size T (ldLog l') of
        Inl err \<Rightarrow> Some (Some (ErrorfW ''checking integrated size: '' err []), l')
      | Inr logSize \<Rightarrow> if logSize > targetIndex then Some (None, l') else waitForIntegration T evs targetIndex l')"

text \<open>The read of \<^verbatim>\<open>Fetch\<close> after the wait.  Integration may go on between the size and the bundle.\<close>

definition fetch_entry :: "'l tessera \<Rightarrow> nat \<Rightarrow> 'l Ledger \<Rightarrow> bytes res \<times> 'l Ledger" where
  "fetch_entry T index l =
     (case integratedSize T l of
        Inl err \<Rightarrow> (Inl (ErrorfW ''getting integrated size: '' err []), l)
      | Inr logSize \<Rightarrow>
          if index \<ge> logSize
          then (Inl (ErrorfW [] ErrIndexOutOfRange ('': index '' @ show_nat index @ '', size '' @ show_nat logSize)), l)
          else
            let bundleIndex = index div t_width T;
                p = t_partial T 0 bundleIndex logSize;
                l' = l\<lparr>ldLog := t_tick T (ldLog l)\<rparr>
            in (case t_bundle T (ldLog l') bundleIndex p of
                  Inl err \<Rightarrow> (Inl (ErrorfW ''reading entry bundle: '' err []), l')
                | Inr bundleData \<Rightarrow>
                  (case t_unbundle T bundleData of
                     Inl err \<Rightarrow> (Inl (ErrorfW ''parsing entry bundle: '' err []), l')
                   | Inr entries \<Rightarrow>
                     let localIndex = index mod t_width T in
                     if localIndex \<ge> length entries
                     then (Inl (ErrorfW [] ErrIndexOutOfRange ('': entry '' @ show_nat index @ '' not in bundle'')), l')
                     else (Inr (entries ! localIndex), l'))))"

definition Fetch ::
    "'l tessera \<Rightarrow> select_event list \<Rightarrow> nat \<Rightarrow> 'l Ledger \<Rightarrow> (bytes res \<times> 'l Ledger) option" where
  "Fetch T evs index l =
     (case waitForIntegration T evs index l of
        None \<Rightarrow> None
      | Some (Some err, l') \<Rightarrow> Some (Inl err, l')
      | Some (None, l') \<Rightarrow> Some (fetch_entry T index l'))"

text \<open>The loop of \<^verbatim>\<open>rebuildDigestIndex\<close> from index \<open>i\<close> for \<open>k\<close> more entries.\<close>

fun rebuild_loop ::
    "'l tessera \<Rightarrow> (nat \<Rightarrow> select_event list) \<Rightarrow> nat \<Rightarrow> nat \<Rightarrow> 'l Ledger \<Rightarrow> (goerr option \<times> 'l Ledger) option" where
  "rebuild_loop T evs i 0 l = Some (None, l)"
| "rebuild_loop T evs i (Suc k) l =
     (case Fetch T (evs i) i l of
        None \<Rightarrow> None
      | Some (Inl err, l') \<Rightarrow> Some (Some (ErrorfW (''fetching index '' @ show_nat i @ '': '') err []), l')
      | Some (Inr data, l') \<Rightarrow>
          rebuild_loop T evs (Suc i) k (l'\<lparr>ldDigestIndex := (ldDigestIndex l')(SHA256Hex data \<mapsto> i)\<rparr>))"

definition rebuildDigestIndex ::
    "'l tessera \<Rightarrow> (nat \<Rightarrow> select_event list) \<Rightarrow> 'l Ledger \<Rightarrow> (goerr option \<times> 'l Ledger) option" where
  "rebuildDigestIndex T evs l =
     (case integratedSize T l of
        Inl err \<Rightarrow> Some (Some err, l)
      | Inr logSize \<Rightarrow> rebuild_loop T evs 0 logSize l)"

definition LedgerClose :: "'l tessera \<Rightarrow> 'l Ledger \<Rightarrow> goerr option \<times> 'l Ledger" where
  "LedgerClose T l = (case t_shutdown T (ldLog l) of (e, g) \<Rightarrow> (e, l\<lparr>ldLog := g\<rparr>))"

text \<open>Everything that happens to an open ledger, and histories of sealing that never failed.\<close>

inductive ledger_step :: "'l tessera \<Rightarrow> 'l Ledger \<Rightarrow> 'l Ledger \<Rightarrow> bool" for T where
  seal_step: "Seal T receipt l = (q, l') \<Longrightarrow> ledger_step T l l'"
| fetch_step: "Fetch T evs n l = Some (b, l') \<Longrightarrow> ledger_step T l l'"
| close_step: "LedgerClose T l = (e, l') \<Longrightarrow> ledger_step T l l'"

fun seal_all :: "'l tessera \<Rightarrow> bytes list \<Rightarrow> 'l Ledger \<Rightarrow> 'l Ledger option" where
  "seal_all T [] l = Some l"
| "seal_all T (r # rs) l = (case Seal T r l of (Inl _, _) \<Rightarrow> None | (Inr _, l') \<Rightarrow> seal_all T rs l')"

section \<open>The key file\<close>

definition splitLines :: "string \<Rightarrow> string list" where
  "splitLines s = filter (\<lambda>line. line \<noteq> []) (split_on (CHR 0x0A) (trim_space s))"

definition parseKeyFile :: "note_lib \<Rightarrow> string \<Rightarrow> (string \<times> string) res" where
  "parseKeyFile N content =
     (let lines = splitLines content in
      if length lines < 2 then Inl (Errorf ''key file must have signer and verifier lines'')
      else
        let skey = lines ! 0; vkey = lines ! 1 in
        case note_signer N skey of
          Some err \<Rightarrow> Inl (ErrorfW ''invalid signer key: '' err [])
        | None \<Rightarrow>
          (case note_verifier N vkey of
             Some err \<Rightarrow> Inl (ErrorfW ''invalid verifier key: '' err [])
           | None \<Rightarrow> Inr (skey, vkey)))"

text \<open>\<open>tmp\<close> is the name that \<^verbatim>\<open>os.CreateTemp\<close> picks; the deferred \<^verbatim>\<open>os.Remove\<close> deletes it.\<close>

definition generateAndPersist ::
    "note_lib \<Rightarrow> string \<Rightarrow> string \<Rightarrow> string \<Rightarrow> fs \<Rightarrow> (string \<times> string) res \<times> fs" where
  "generateAndPersist N tmp path origin f =
     (case note_generate N origin of
        Inl err \<Rightarrow> (Inl (ErrorfW ''generating key: '' err []), f)
      | Inr (skey, vkey) \<Rightarrow>
     (case mkdir_all f (path_dir path) of
        (Some err, f1) \<Rightarrow> (Inl err, f1)
      | (None, f1) \<Rightarrow>
     (case create_file f1 tmp of
        (Some err, f2) \<Rightarrow> (Inl err, f2)
      | (None, f2) \<Rightarrow>
     (case fsFault f2 ''chmod'' tmp of
        Some err \<Rightarrow> (Inl err, fs_del f2 tmp)
      | None \<Rightarrow>
     (case write_file f2 tmp (skey @ [CHR 0x0A] @ vkey @ [CHR 0x0A]) of
        (Some err, f3) \<Rightarrow> (Inl err, fs_del f3 tmp)
      | (None, f3) \<Rightarrow>
     (case fsFault f3 ''close'' tmp of
        Some err \<Rightarrow> (Inl err, fs_del f3 tmp)
      | None \<Rightarrow>
     (case rename_file f3 tmp path of
        (Some err, f4) \<Rightarrow> (Inl err, fs_del f4 tmp)
      | (None, f4) \<Rightarrow> (Inr (skey, vkey), fs_del f4 tmp))))))))"

definition loadOrGenerateKey ::
    "note_lib \<Rightarrow> string \<Rightarrow> string \<Rightarrow> string \<Rightarrow> fs \<Rightarrow> (string \<times> string) res \<times> fs" where
  "loadOrGenerateKey N tmp path origin f =
     (case read_file f path of
        Inr data \<Rightarrow> (parseKeyFile N data, f)
      | Inl err \<Rightarrow>
          if \<not> errors_is err ErrNotExist then (Inl (ErrorfW ''reading key file: '' err []), f)
          else generateAndPersist N tmp path origin f)"

definition NewLedger ::
    "'l tessera \<Rightarrow> ('d, 'l) tessera_open \<Rightarrow> note_lib \<Rightarrow> (nat \<Rightarrow> select_event list) \<Rightarrow> string \<Rightarrow> string \<Rightarrow> string \<Rightarrow> fs
       \<Rightarrow> ('l Ledger res \<times> fs) option" where
  "NewLedger T P N evs tmp subjectID basePath f =
     (let storagePath = path_join [basePath, subjectID];
          origin = ledgerOrigin subjectID;
          keyPath = path_join [storagePath, ''signer.key'']
      in case loadOrGenerateKey N tmp keyPath origin f of
        (Inl err, f1) \<Rightarrow> Some (Inl (ErrorfW (''signer key for '' @ subjectID @ '': '') err []), f1)
      | (Inr (signerKey, verifierKey), f1) \<Rightarrow>
     (case note_signer N signerKey of
        Some err \<Rightarrow> Some (Inl (ErrorfW ''creating note signer: '' err []), f1)
      | None \<Rightarrow>
     (case posix_new P (path_join [storagePath, ''tessera'']) of
        Inl err \<Rightarrow> Some (Inl (ErrorfW (''creating posix driver for '' @ subjectID @ '': '') err []), f1)
      | Inr driver \<Rightarrow>
     (case new_appender P driver \<lparr>aoBatchSize = 256, aoBatchAge = second, aoCheckpointInterval = 10 * second,
             aoSigner = signerKey\<rparr> of
        Inl err \<Rightarrow> Some (Inl (ErrorfW (''creating appender for '' @ subjectID @ '': '') err []), f1)
      | Inr g \<Rightarrow>
     (case rebuildDigestIndex T evs \<lparr>ldSubjectID = subjectID, ldStoragePath = storagePath, ldLog = g,
             ldVerifierKey = verifierKey, ldDigestIndex = Map.empty\<rparr> of
        None \<Rightarrow> None
      | Some (_, l) \<Rightarrow> Some (Inr l, f1))))))"

section \<open>What the ledger relies on\<close>

text \<open>
  The log: a successful append gets the next index, a failed one adds at most the entry itself, integration
  never changes entries and never goes back, and the bundle with the partial width computed from an earlier
  size holds at least the entries of that size.
\<close>

locale tessera_log =
  fixes T :: "'l tessera"
    and entries :: "'l \<Rightarrow> bytes list"
    and integrated :: "'l \<Rightarrow> nat"
  assumes add_done: "t_add T g x = (Inr i, g') \<Longrightarrow> i = length (entries g) \<and> entries g' = entries g @ [x]"
    and add_failed: "t_add T g x = (Inl e, g') \<Longrightarrow> entries g' = entries g \<or> entries g' = entries g @ [x]"
    and add_integrated: "t_add T g x = (q, g') \<Longrightarrow> integrated g \<le> integrated g'"
    and tick_entries: "entries (t_tick T g) = entries g"
    and tick_integrated: "integrated g \<le> integrated (t_tick T g)"
    and integrated_le: "integrated g \<le> length (entries g)"
    and size_integrated: "t_size T g = Inr n \<Longrightarrow> n = integrated g"
    and width_pos: "0 < t_width T"
    and partial_size: "t_partial T 0 b n = (if b < n div t_width T then 0 else n mod t_width T)"
    and read_bundle: "t_bundle T g b (t_partial T 0 b n) = Inr d \<Longrightarrow> n \<le> integrated g \<Longrightarrow> b * t_width T < n \<Longrightarrow>
        \<exists>k. (if b < n div t_width T then t_width T else n mod t_width T) \<le> k \<and> k \<le> t_width T
          \<and> t_unbundle T d = Inr (take k (drop (b * t_width T) (entries g)))"
    and own_error: "t_size T g = Inl e \<or> t_bundle T g b n = Inl e \<or> t_unbundle T d = Inl e \<Longrightarrow>
        \<not> errors_is e ErrIndexOutOfRange"
    and shutdown_entries: "t_shutdown T g = (z, g') \<Longrightarrow> entries g' = entries g"

text \<open>A log that is available and integrates every entry within \<open>lag\<close> ticks.\<close>

locale tessera_live = tessera_log +
  fixes lag :: nat
  assumes size_ok: "\<exists>n. t_size T g = Inr n"
    and bundle_ok: "n \<le> integrated g \<Longrightarrow> b * t_width T < n \<Longrightarrow> \<exists>d. t_bundle T g b (t_partial T 0 b n) = Inr d"
    and lag: "integrated ((t_tick T ^^ lag) g) = length (entries g)"

text \<open>Keys the library generates are valid, not empty and contain no white space.\<close>

locale note_keys =
  fixes N :: note_lib
  assumes generated: "note_generate N origin = Inr (s, v) \<Longrightarrow>
      note_signer N s = None \<and> note_verifier N v = None \<and> s \<noteq> [] \<and> v \<noteq> []
      \<and> list_all (\<lambda>c. \<not> is_space c) s \<and> list_all (\<lambda>c. \<not> is_space c) v"

section \<open>Lemmas\<close>

text \<open>The digest index of a list of entries: the last index of each digest.\<close>

definition digest_map :: "bytes list \<Rightarrow> string \<rightharpoonup> nat" where
  "digest_map es = foldl (\<lambda>m i. m(SHA256Hex (es ! i) \<mapsto> i)) Map.empty [0..<length es]"

definition index_sound :: "bytes list \<Rightarrow> (string \<rightharpoonup> nat) \<Rightarrow> bool" where
  "index_sound es m \<longleftrightarrow> (\<forall>d i. m d = Some i \<longrightarrow> i < length es \<and> SHA256Hex (es ! i) = d)"

lemma digest_map_Nil [simp]: "digest_map [] = Map.empty"
  by (simp add: digest_map_def)

lemma digest_map_snoc: "digest_map (es @ [x]) = (digest_map es)(SHA256Hex x \<mapsto> length es)"
proof -
  have "foldl (\<lambda>m i. m(SHA256Hex ((es @ [x]) ! i) \<mapsto> i)) m is = foldl (\<lambda>m i. m(SHA256Hex (es ! i) \<mapsto> i)) m is"
    if "set is \<subseteq> {..<length es}" for m :: "string \<rightharpoonup> nat" and "is"
    using that by (induction "is" arbitrary: m) (auto simp: nth_append)
  from this [of "[0..<length es]"] show ?thesis by (simp add: digest_map_def lessThan_atLeast0)
qed

lemma dom_digest_map: "dom (digest_map es) = SHA256Hex ` set es"
  by (induction es rule: rev_induct) (simp_all add: digest_map_snoc del: fun_upd_apply)

lemma index_sound_append: "index_sound es m \<Longrightarrow> index_sound (es @ xs) m"
  by (fastforce simp: index_sound_def nth_append)

lemma index_sound_snoc: "index_sound es m \<Longrightarrow> index_sound (es @ [x]) (m(SHA256Hex x \<mapsto> length es))"
  by (fastforce simp: index_sound_def nth_append split: if_splits)

lemma index_sound_digest_map: "index_sound es (digest_map es)"
proof (induction es rule: rev_induct)
  case (snoc x es)
  then show ?case unfolding digest_map_snoc by (rule index_sound_snoc)
qed (simp add: index_sound_def)

context tessera_log
begin

abbreviation log_of :: "'l Ledger \<Rightarrow> bytes list" where
  "log_of l \<equiv> entries (ldLog l)"

lemma Seal_done:
  assumes "Seal T r l = (Inr i, l')"
  shows "i = length (log_of l)" "log_of l' = log_of l @ [r]"
    "ldDigestIndex l' = (ldDigestIndex l)(SHA256Hex r \<mapsto> i)"
  using assms by (auto simp: Seal_def dest: add_done split: prod.splits sum.splits)

lemma Seal_extends:
  assumes "Seal T r l = (q, l')"
  shows "log_of l' = log_of l \<or> log_of l' = log_of l @ [r]" "dom (ldDigestIndex l) \<subseteq> dom (ldDigestIndex l')"
    "ldSubjectID l' = ldSubjectID l" "ldStoragePath l' = ldStoragePath l" "ldVerifierKey l' = ldVerifierKey l"
  using assms by (auto simp: Seal_def dest: add_done add_failed split: prod.splits sum.splits)

lemma Seal_index_sound:
  assumes "Seal T r l = (q, l')" "index_sound (log_of l) (ldDigestIndex l)"
  shows "index_sound (log_of l') (ldDigestIndex l')"
proof (cases q)
  case (Inl e)
  then have "ldDigestIndex l' = ldDigestIndex l"
    using assms(1) by (auto simp: Seal_def split: prod.splits sum.splits)
  then show ?thesis
    using Seal_extends(1) [OF assms(1)] assms(2) index_sound_append by metis
next
  case (Inr i)
  then show ?thesis using Seal_done [of r l i l'] assms index_sound_snoc by fastforce
qed

lemma wait_keeps:
  "waitForIntegration T evs n l = Some (q, l') \<Longrightarrow>
     log_of l' = log_of l \<and> integrated (ldLog l) \<le> integrated (ldLog l') \<and> ldDigestIndex l' = ldDigestIndex l
     \<and> ldSubjectID l' = ldSubjectID l \<and> ldStoragePath l' = ldStoragePath l \<and> ldVerifierKey l' = ldVerifierKey l"
proof (induction evs arbitrary: l)
  case (Cons ev evs)
  show ?case
  proof (cases ev)
    case Tick
    let ?l = "l\<lparr>ldLog := t_tick T (ldLog l)\<rparr>"
    have "(q, l') = (q, ?l) \<or> waitForIntegration T evs n ?l = Some (q, l')"
      using Cons.prems Tick by (auto simp: Let_def split: sum.splits if_splits)
    then show ?thesis
      using Cons.IH [of ?l] tick_integrated [of "ldLog l"] by (auto simp: tick_entries)
  qed (use Cons.prems in auto)
qed simp

lemma wait_integrated: "waitForIntegration T evs n l = Some (None, l') \<Longrightarrow> n < integrated (ldLog l')"
proof (induction evs arbitrary: l)
  case (Cons ev evs)
  then show ?case
    by (cases ev) (auto simp: Let_def split: sum.splits if_splits dest: size_integrated)
qed simp

text \<open>The bundle of an index below an integrated size holds the entry at the remainder.\<close>

lemma bundle_entry:
  assumes "n < s" "s \<le> integrated g" "t_bundle T g (n div t_width T) (t_partial T 0 (n div t_width T) s) = Inr d"
  shows "\<exists>es. t_unbundle T d = Inr es \<and> n mod t_width T < length es \<and> es ! (n mod t_width T) = entries g ! n"
proof -
  let ?w = "t_width T" and ?b = "n div t_width T"
  have b: "?b * ?w \<le> n" "?b * ?w + n mod ?w = n" by simp_all
  obtain k where k: "(if ?b < s div ?w then ?w else s mod ?w) \<le> k" "k \<le> ?w"
      "t_unbundle T d = Inr (take k (drop (?b * ?w) (entries g)))"
    using read_bundle [OF assms(3,2)] b(1) assms(1) by auto
  have "n mod ?w < k"
  proof (cases "?b < s div ?w")
    case True
    then show ?thesis using k(1) less_le_trans [OF mod_less_divisor [OF width_pos]] by simp
  next
    case False
    then have "?b = s div ?w" using assms(1) div_le_mono [of n s ?w] by simp
    then have "n mod ?w < s mod ?w"
      using assms(1) b(2) div_mult_mod_eq [of s ?w] by (metis nat_add_left_cancel_less)
    then show ?thesis using k(1) False by simp
  qed
  moreover have len: "n < length (entries g)" using assms(1,2) integrated_le [of g] by simp
  ultimately have "n mod ?w < length (take k (drop (?b * ?w) (entries g)))"
    using b(2) by (simp add: less_diff_conv add.commute)
  moreover have "take k (drop (?b * ?w) (entries g)) ! (n mod ?w) = entries g ! n"
  proof -
    have "?b * ?w \<le> length (entries g)" using b(1) len by linarith
    then show ?thesis using calculation b(2) by simp
  qed
  ultimately show ?thesis using k(3) by blast
qed

lemma fetch_entry_cases:
  assumes "n < integrated (ldLog l)" "fetch_entry T n l = (q, l')"
  shows "q = Inr (log_of l ! n) \<or> (\<exists>e. q = Inl e \<and> \<not> errors_is e ErrIndexOutOfRange)"
    and "log_of l' = log_of l \<and> integrated (ldLog l) \<le> integrated (ldLog l') \<and> ldDigestIndex l' = ldDigestIndex l
      \<and> ldSubjectID l' = ldSubjectID l \<and> ldStoragePath l' = ldStoragePath l \<and> ldVerifierKey l' = ldVerifierKey l"
proof -
  let ?g = "t_tick T (ldLog l)"
  have le: "integrated (ldLog l) \<le> integrated ?g" by (rule tick_integrated)
  have ent: "\<exists>es. t_unbundle T d = Inr es \<and> n mod t_width T < length es \<and> es ! (n mod t_width T) = log_of l ! n"
    if "t_size T (ldLog l) = Inr s" "t_bundle T ?g (n div t_width T) (t_partial T 0 (n div t_width T) s) = Inr d" for s d
    using bundle_entry [OF _ _ that(2)] size_integrated [OF that(1)] assms(1) le by (simp add: tick_entries)
  show "q = Inr (log_of l ! n) \<or> (\<exists>e. q = Inl e \<and> \<not> errors_is e ErrIndexOutOfRange)"
    using assms ent size_integrated own_error
    by (fastforce simp: fetch_entry_def integratedSize_def Let_def split: sum.splits if_splits)
  show "log_of l' = log_of l \<and> integrated (ldLog l) \<le> integrated (ldLog l') \<and> ldDigestIndex l' = ldDigestIndex l
      \<and> ldSubjectID l' = ldSubjectID l \<and> ldStoragePath l' = ldStoragePath l \<and> ldVerifierKey l' = ldVerifierKey l"
    using assms(2) le
    by (auto simp: fetch_entry_def integratedSize_def Let_def tick_entries split: sum.splits if_splits)
qed

lemma Fetch_keeps:
  assumes "Fetch T evs n l = Some (q, l')"
  shows "log_of l' = log_of l" "integrated (ldLog l) \<le> integrated (ldLog l')" "ldDigestIndex l' = ldDigestIndex l"
    "ldSubjectID l' = ldSubjectID l" "ldStoragePath l' = ldStoragePath l" "ldVerifierKey l' = ldVerifierKey l"
proof -
  obtain w l1 where w: "waitForIntegration T evs n l = Some (w, l1)"
    using assms by (auto simp: Fetch_def split: option.splits)
  note k = wait_keeps [OF w]
  show "log_of l' = log_of l" "integrated (ldLog l) \<le> integrated (ldLog l')" "ldDigestIndex l' = ldDigestIndex l"
    "ldSubjectID l' = ldSubjectID l" "ldStoragePath l' = ldStoragePath l" "ldVerifierKey l' = ldVerifierKey l"
    using assms w k wait_integrated [of evs n l l1] fetch_entry_cases(2) [of n l1 q l']
    by (auto simp: Fetch_def split: option.splits)
qed

lemma Fetch_done: "Fetch T evs n l = Some (Inr d, l') \<Longrightarrow> n < length (log_of l) \<and> d = log_of l ! n"
proof -
  assume f: "Fetch T evs n l = Some (Inr d, l')"
  then obtain l1 where w: "waitForIntegration T evs n l = Some (None, l1)" and e: "fetch_entry T n l1 = (Inr d, l')"
    by (auto simp: Fetch_def split: option.splits)
  have "n < integrated (ldLog l1)" by (rule wait_integrated [OF w])
  then show ?thesis
    using fetch_entry_cases(1) [OF _ e] wait_keeps [OF w] integrated_le [of "ldLog l1"] by auto
qed

text \<open>
  The wait excludes the range error, so \<open>ErrIndexOutOfRange\<close> can only come from a cancelled context that
  carries it.
\<close>

lemma Fetch_no_range_error:
  assumes "Fetch T evs n l = Some (Inl e, l')" "\<forall>c. CtxDone c \<in> set evs \<longrightarrow> \<not> errors_is c ErrIndexOutOfRange"
  shows "\<not> errors_is e ErrIndexOutOfRange"
proof -
  have wait: "waitForIntegration T evs n l = Some (Some c, l1) \<Longrightarrow> \<not> errors_is c ErrIndexOutOfRange" for c l1
    using assms(2)
  proof (induction evs arbitrary: l)
    case (Cons ev evs)
    then show ?case
      by (cases ev) (auto simp: Let_def split: sum.splits if_splits dest: own_error [OF disjI1])
  qed simp
  show ?thesis
    using assms(1) wait wait_integrated [of evs n l] fetch_entry_cases(1) [of n]
    by (fastforce simp: Fetch_def split: option.splits)
qed

text \<open>Rebuilding from the log gives the index that sealing the same entries one by one built.\<close>

lemma rebuild_loop_done:
  assumes "rebuild_loop T evs i k l = Some (None, l')" "ldDigestIndex l = digest_map (take i (log_of l))"
    "i + k \<le> length (log_of l)"
  shows "ldDigestIndex l' = digest_map (take (i + k) (log_of l)) \<and> log_of l' = log_of l"
  using assms
proof (induction k arbitrary: i l)
  case (Suc k)
  then obtain d l1 where f: "Fetch T (evs i) i l = Some (Inr d, l1)"
    and r: "rebuild_loop T evs (Suc i) k (l1\<lparr>ldDigestIndex := (ldDigestIndex l1)(SHA256Hex d \<mapsto> i)\<rparr>) = Some (None, l')"
    by (auto split: option.splits sum.splits)
  have "take (Suc i) (log_of l) = take i (log_of l) @ [d]"
    using Fetch_done [OF f] by (simp add: take_Suc_conv_app_nth)
  then have "(ldDigestIndex l1)(SHA256Hex d \<mapsto> i) = digest_map (take (Suc i) (log_of l))"
    using Suc.prems(2,3) Fetch_keeps(3) [OF f] by (simp add: digest_map_snoc min_def)
  then show ?case
    using Suc.IH [OF r] Suc.prems(3) Fetch_keeps(1) [OF f] by simp
qed simp

lemma rebuild_done:
  assumes "rebuildDigestIndex T evs l = Some (None, l')" "ldDigestIndex l = Map.empty"
  shows "ldDigestIndex l' = digest_map (take (integrated (ldLog l)) (log_of l))" "log_of l' = log_of l"
proof -
  obtain n where n: "t_size T (ldLog l) = Inr n" "rebuild_loop T evs 0 n l = Some (None, l')"
    using assms(1) by (auto simp: rebuildDigestIndex_def integratedSize_def split: sum.splits)
  have "n = integrated (ldLog l)" by (rule size_integrated [OF n(1)])
  then show "ldDigestIndex l' = digest_map (take (integrated (ldLog l)) (log_of l))" "log_of l' = log_of l"
    using rebuild_loop_done [OF n(2)] assms(2) integrated_le by simp_all
qed

end

context tessera_live
begin

text \<open>Enough ticks end the wait of an index that the log holds.\<close>

lemma wait_returns:
  assumes "n < length (log_of l)" "0 < k" "lag \<le> k"
  shows "\<exists>l'. waitForIntegration T (replicate k Tick @ evs) n l = Some (None, l')"
proof -
  have reach: "\<exists>l'. waitForIntegration T (replicate m Tick @ evs) n l = Some (None, l')"
    if "0 < m" "n < integrated ((t_tick T ^^ m) (ldLog l))" for m l
    using that
  proof (induction m arbitrary: l)
    case (Suc m)
    let ?l = "l\<lparr>ldLog := t_tick T (ldLog l)\<rparr>"
    obtain s where s: "t_size T (t_tick T (ldLog l)) = Inr s" using size_ok by blast
    show ?case
    proof (cases "n < s")
      case True
      then show ?thesis using s by (simp add: Let_def)
    next
      case False
      moreover have "n < integrated ((t_tick T ^^ m) (ldLog ?l))"
        using Suc.prems(2) by (simp add: funpow_swap1)
      moreover have "0 < m"
        using False calculation(2) size_integrated [OF s] by (cases m) auto
      ultimately show ?thesis using Suc.IH [of ?l] s by (simp add: Let_def)
    qed
  qed simp
  have ticks: "integrated ((t_tick T ^^ lag) g) \<le> integrated ((t_tick T ^^ (j + lag)) g)" for j g
    by (induction j) (auto intro: order.trans tick_integrated)
  have "n < integrated ((t_tick T ^^ k) (ldLog l))"
    using assms lag [of "ldLog l"] ticks [of "ldLog l" "k - lag"] by simp
  then show ?thesis by (rule reach [OF assms(2)])
qed

lemma Fetch_returns:
  assumes "n < length (log_of l)" "0 < k" "lag \<le> k"
  shows "\<exists>l'. Fetch T (replicate k Tick @ evs) n l = Some (Inr (log_of l ! n), l')"
proof -
  obtain l1 where w: "waitForIntegration T (replicate k Tick @ evs) n l = Some (None, l1)"
    using wait_returns [OF assms] by blast
  have n: "n < integrated (ldLog l1)" by (rule wait_integrated [OF w])
  obtain s where s: "t_size T (ldLog l1) = Inr s" using size_ok by blast
  have sl: "s = integrated (ldLog l1)" by (rule size_integrated [OF s])
  let ?g = "t_tick T (ldLog l1)"
  have "s \<le> integrated ?g" using sl tick_integrated by simp
  moreover have "n div t_width T * t_width T < s" using n sl div_times_less_eq_dividend le_less_trans by blast
  ultimately obtain d where d: "t_bundle T ?g (n div t_width T) (t_partial T 0 (n div t_width T) s) = Inr d"
    using bundle_ok by blast
  obtain es where "t_unbundle T d = Inr es" "n mod t_width T < length es" "es ! (n mod t_width T) = entries ?g ! n"
    using bundle_entry [OF _ \<open>s \<le> integrated ?g\<close> d] n sl by blast
  then have "fetch_entry T n l1 = (Inr (log_of l ! n), l1\<lparr>ldLog := ?g\<rparr>)"
    using s sl n d wait_keeps [OF w] by (simp add: fetch_entry_def integratedSize_def Let_def tick_entries)
  then show ?thesis using w by (simp add: Fetch_def)
qed

lemma rebuild_loop_returns:
  assumes "i + k \<le> length (log_of l)" "\<And>j. \<exists>m r. evs j = replicate m Tick @ r \<and> 0 < m \<and> lag \<le> m"
  shows "\<exists>l'. rebuild_loop T evs i k l = Some (None, l')"
  using assms(1)
proof (induction k arbitrary: i l)
  case (Suc k)
  obtain m r where ev: "evs i = replicate m Tick @ r" "0 < m" "lag \<le> m" using assms(2) by blast
  have "i < length (log_of l)" using Suc.prems by simp
  then obtain l1 where f: "Fetch T (evs i) i l = Some (Inr (log_of l ! i), l1)"
    using Fetch_returns ev by metis
  then show ?case
    using Suc.IH [of "Suc i" "l1\<lparr>ldDigestIndex := (ldDigestIndex l1)(SHA256Hex (log_of l ! i) \<mapsto> i)\<rparr>"]
      Suc.prems Fetch_keeps(1) [OF f] by simp
qed simp

lemma rebuild_returns:
  assumes "\<And>j. \<exists>m r. evs j = replicate m Tick @ r \<and> 0 < m \<and> lag \<le> m"
  shows "\<exists>l'. rebuildDigestIndex T evs l = Some (None, l')"
proof -
  obtain s where s: "t_size T (ldLog l) = Inr s" using size_ok by blast
  then show ?thesis
    using rebuild_loop_returns [OF _ assms, where i = 0 and k = s and l = l] size_integrated [OF s] integrated_le [of "ldLog l"]
    by (simp add: rebuildDigestIndex_def integratedSize_def)
qed

end

context tessera_log
begin

lemma ledger_step_invariant:
  assumes "ledger_step T l l'"
  shows "\<exists>xs. log_of l' = log_of l @ xs"
    and "index_sound (log_of l) (ldDigestIndex l) \<Longrightarrow> index_sound (log_of l') (ldDigestIndex l')"
    and "dom (ldDigestIndex l) \<subseteq> dom (ldDigestIndex l')"
  using assms
proof (induction rule: ledger_step.induct)
  case (seal_step r l q l')
  {
    case 1
    show ?case using Seal_extends(1) [OF seal_step] by auto
  next
    case 2
    then show ?case by (rule Seal_index_sound [OF seal_step])
  next
    case 3
    show ?case by (rule Seal_extends(2) [OF seal_step])
  }
next
  case (fetch_step evs n l b l')
  note k = Fetch_keeps [OF fetch_step]
  {
    case 1
    show ?case using k by simp
  next
    case 2
    then show ?case using k by simp
  next
    case 3
    show ?case using k by simp
  }
next
  case (close_step l e l')
  have "log_of l' = log_of l" "ldDigestIndex l' = ldDigestIndex l"
    using close_step shutdown_entries by (auto simp: LedgerClose_def split: prod.splits)
  {
    case 1
    show ?case using \<open>log_of l' = log_of l\<close> by simp
  next
    case 2
    then show ?case using \<open>log_of l' = log_of l\<close> \<open>ldDigestIndex l' = ldDigestIndex l\<close> by simp
  next
    case 3
    show ?case using \<open>ldDigestIndex l' = ldDigestIndex l\<close> by simp
  }
qed

lemma ledger_run_invariant:
  assumes "(ledger_step T)\<^sup>*\<^sup>* l l'"
  shows "\<exists>xs. log_of l' = log_of l @ xs"
    and "index_sound (log_of l) (ldDigestIndex l) \<Longrightarrow> index_sound (log_of l') (ldDigestIndex l')"
    and "dom (ldDigestIndex l) \<subseteq> dom (ldDigestIndex l')"
  using assms by (induction rule: rtranclp_induct) (use ledger_step_invariant in fastforce)+

lemma seal_all_done:
  "seal_all T rs l = Some l' \<Longrightarrow> ldDigestIndex l = digest_map (log_of l) \<Longrightarrow>
     log_of l' = log_of l @ rs \<and> ldDigestIndex l' = digest_map (log_of l')"
proof (induction rs arbitrary: l)
  case (Cons r rs)
  then obtain i l1 where s: "Seal T r l = (Inr i, l1)" "seal_all T rs l1 = Some l'"
    by (auto split: prod.splits sum.splits)
  note d = Seal_done [OF s(1)]
  have "ldDigestIndex l1 = digest_map (log_of l1)"
    using Cons.prems(2) by (simp only: d digest_map_snoc)
  then show ?case using Cons.IH [OF s(2)] d(2) by simp
qed simp

end

section \<open>The key file survives a restart\<close>

lemma not_space_newline: "list_all (\<lambda>c. \<not> is_space c) s \<Longrightarrow> CHR 0x0A \<notin> set s"
  by (auto simp: list_all_iff is_space_def)

context note_keys
begin

lemma splitLines_keys:
  assumes "note_generate N origin = Inr (s, v)"
  shows "splitLines (s @ [CHR 0x0A] @ v @ [CHR 0x0A]) = [s, v]"
proof -
  note g = generated [OF assms]
  have ends: "\<not> is_space (hd s)" "\<not> is_space (last v)" using g by (auto simp: list_all_iff)
  have "dropWhile is_space (s @ CHR 0x0A # v @ [CHR 0x0A]) = s @ CHR 0x0A # v @ [CHR 0x0A]"
    using ends(1) g by (cases s) auto
  moreover have "trim_right_by is_space (s @ CHR 0x0A # v @ [CHR 0x0A]) = s @ CHR 0x0A # v"
    using ends(2) g trim_right_by_id [of "s @ CHR 0x0A # v" is_space]
    by (simp add: trim_right_by_def is_space_def)
  ultimately have "trim_space (s @ [CHR 0x0A] @ v @ [CHR 0x0A]) = s @ CHR 0x0A # v"
    by (simp add: trim_space_def)
  moreover have "split_on (CHR 0x0A) (s @ CHR 0x0A # v) = [s, v]"
    using g by (simp add: split_on_append split_on_single not_space_newline)
  ultimately show ?thesis using g by (simp add: splitLines_def)
qed

lemma parse_generated:
  "note_generate N origin = Inr (s, v) \<Longrightarrow> parseKeyFile N (s @ [CHR 0x0A] @ v @ [CHR 0x0A]) = Inr (s, v)"
  using splitLines_keys generated by (simp add: parseKeyFile_def)

lemma generateAndPersist_file:
  assumes "generateAndPersist N tmp path origin f = (Inr (s, v), f')" "tmp \<noteq> path"
  shows "note_generate N origin = Inr (s, v)" "fs_get f' path = Some (File (s @ [CHR 0x0A] @ v @ [CHR 0x0A]))"
    "fsFault f' = fsFault f" "fs_get f' tmp = None"
  using assms
  by (auto simp: generateAndPersist_def mkdir_all_def create_file_def write_file_def rename_file_def
      split: sum.splits option.splits prod.splits fnode.splits)

end

section \<open>An in-memory log and key library\<close>

record mem_log =
  mlEntries :: "bytes list"
  mlIntegrated :: nat

definition mem_integrated :: "mem_log \<Rightarrow> nat" where
  "mem_integrated g = min (mlIntegrated g) (length (mlEntries g))"

definition bundle_text :: "bytes list \<Rightarrow> bytes" where
  "bundle_text es = print_json (JArr (map (\<lambda>e. JStr (std_encode e)) es))"

definition bundle_item :: "json \<Rightarrow> bytes res" where
  "bundle_item j = (case j of JStr t \<Rightarrow> (case std_decode t of Some b \<Rightarrow> Inr b | None \<Rightarrow> Inl (Foreign ''bundle''))
     | _ \<Rightarrow> Inl (Foreign ''bundle''))"

definition bundle_parse :: "bytes \<Rightarrow> bytes list res" where
  "bundle_parse d = (case json_parse d of Inr (JArr js) \<Rightarrow> map_res bundle_item js | _ \<Rightarrow> Inl (Foreign ''bundle''))"

definition mem_tessera :: "mem_log tessera" where
  "mem_tessera = \<lparr>
     t_add = (\<lambda>g x. (Inr (length (mlEntries g)), g\<lparr>mlEntries := mlEntries g @ [x]\<rparr>)),
     t_tick = (\<lambda>g. g\<lparr>mlIntegrated := length (mlEntries g)\<rparr>),
     t_size = (\<lambda>g. Inr (mem_integrated g)),
     t_bundle = (\<lambda>g b p. Inr (bundle_text (take (if p = 0 then 256 else p) (drop (b * 256) (mlEntries g))))),
     t_unbundle = bundle_parse,
     t_width = 256,
     t_partial = (\<lambda>level b n. if b < n div 256 then 0 else n mod 256),
     t_shutdown = (\<lambda>g. (None, g))\<rparr>"

definition mem_notes :: note_lib where
  "mem_notes = \<lparr>note_signer = (\<lambda>_. None), note_verifier = (\<lambda>_. None),
     note_generate = (\<lambda>origin. Inr (''PRIVATE+KEY'', ''VERIFIER''))\<rparr>"

lemma bundle_parse_text: "bundle_parse (bundle_text es) = Inr es"
proof -
  have "wf_json (JArr (map (\<lambda>e. JStr (std_encode e)) es))" by auto
  moreover have "map_res bundle_item (map (\<lambda>e. JStr (std_encode e)) es) = Inr es"
    by (rule map_res_map) (simp add: bundle_item_def)
  ultimately show ?thesis unfolding bundle_parse_def bundle_text_def by (simp del: print_json.simps)
qed

lemma bundle_parse_error: "bundle_parse d = Inl e \<Longrightarrow> \<not> errors_is e ErrIndexOutOfRange"
proof -
  have "map_res bundle_item js = Inl e \<Longrightarrow> e = Foreign ''bundle''" for js
    by (induction js) (auto simp: bundle_item_def split: sum.splits json.splits option.splits)
  then show "bundle_parse d = Inl e \<Longrightarrow> \<not> errors_is e ErrIndexOutOfRange"
    by (fastforce simp: bundle_parse_def split: sum.splits json.splits)
qed

interpretation memlog: tessera_live mem_tessera mlEntries mem_integrated 1
proof unfold_locales
  show "\<exists>k. (if b < n div t_width mem_tessera then t_width mem_tessera else n mod t_width mem_tessera) \<le> k
      \<and> k \<le> t_width mem_tessera
      \<and> t_unbundle mem_tessera d = Inr (take k (drop (b * t_width mem_tessera) (mlEntries g)))"
    if "t_bundle mem_tessera g b (t_partial mem_tessera 0 b n) = Inr d" "n \<le> mem_integrated g"
      "b * t_width mem_tessera < n" for g b n d
  proof -
    let ?k = "if (if b < n div 256 then 0 else n mod 256) = 0 then 256 else (if b < n div 256 then 0 else n mod 256)"
    have "d = bundle_text (take ?k (drop (b * 256) (mlEntries g)))"
      using that(1) by (auto simp: mem_tessera_def)
    then have "bundle_parse d = Inr (take ?k (drop (b * 256) (mlEntries g)))" by (simp add: bundle_parse_text)
    moreover have "(if b < n div 256 then 256 else n mod 256) \<le> ?k" "?k \<le> 256" by simp_all
    ultimately show ?thesis by (auto simp: mem_tessera_def)
  qed
qed (auto simp: mem_tessera_def mem_integrated_def bundle_parse_error)

interpretation memnotes: note_keys mem_notes
  by unfold_locales (auto simp: mem_notes_def is_space_def)

definition ex_ledger :: "mem_log Ledger" where
  "ex_ledger = \<lparr>ldSubjectID = ''app'', ldStoragePath = ''/data/app'', ldLog = \<lparr>mlEntries = [], mlIntegrated = 0\<rparr>,
     ldVerifierKey = ''VERIFIER'', ldDigestIndex = Map.empty\<rparr>"

definition ex_sealed :: "mem_log Ledger" where
  "ex_sealed = snd (Seal mem_tessera ''r1'' ex_ledger)"

lemma ex_sealed: "Seal mem_tessera ''r1'' ex_ledger = (Inr 0, ex_sealed)"
  by (simp add: ex_sealed_def Seal_def mem_tessera_def ex_ledger_def)

section \<open>Properties\<close>

text \<open>
  C3: a receipt that \<^verbatim>\<open>Seal\<close> accepted is returned by \<^verbatim>\<open>Fetch\<close> of the index it got: on an
  available log that integrates within \<open>lag\<close> polls, the fetch ends and returns exactly the sealed bytes.
\<close>

theorem seal_then_fetch:
  assumes "tessera_live T entries integrated lag" "Seal T r l = (Inr i, l')" "0 < k" "lag \<le> k"
  shows "\<exists>l''. Fetch T (replicate k Tick @ evs) i l' = Some (Inr r, l'')"
proof -
  have log: "tessera_log T entries integrated" using assms(1) by (rule tessera_live.axioms)
  note d = tessera_log.Seal_done [OF log assms(2)]
  show ?thesis
    using tessera_live.Fetch_returns [OF assms(1) _ assms(3,4), of i l' evs] d by simp
qed

theorem seal_then_fetch_witness:
  "\<exists>l''. Fetch mem_tessera (replicate 1 Tick @ [Timeout]) 0 ex_sealed = Some (Inr ''r1'', l'')"
  by (rule seal_then_fetch [OF memlog.tessera_live_axioms ex_sealed]) simp_all

text \<open>
  C4: the ledger is append-only.  Over any sequence of seals, fetches and a shutdown, failed operations
  included, the log only grows, an index once readable always reads the same bytes, every entry of the digest
  index points at a log entry with that digest, and a digest once found stays found.
\<close>

theorem ledger_append_only:
  assumes "tessera_log T entries integrated" "(ledger_step T)\<^sup>*\<^sup>* l l'"
    and "index_sound (entries (ldLog l)) (ldDigestIndex l)"
    and "Fetch T evs n l = Some (Inr d, l1)"
  shows "(\<exists>xs. entries (ldLog l') = entries (ldLog l) @ xs)
    \<and> (\<forall>evs' d' l2. Fetch T evs' n l' = Some (Inr d', l2) \<longrightarrow> d' = d)
    \<and> index_sound (entries (ldLog l')) (ldDigestIndex l')
    \<and> (\<forall>h. VerifyDigest h l \<noteq> None \<longrightarrow> VerifyDigest h l' \<noteq> None)"
proof -
  note run = tessera_log.ledger_run_invariant [OF assms(1,2)]
  obtain xs where xs: "entries (ldLog l') = entries (ldLog l) @ xs" using run(1) by blast
  have "n < length (entries (ldLog l)) \<and> d = entries (ldLog l) ! n"
    by (rule tessera_log.Fetch_done [OF assms(1,4)])
  then have "d' = d" if "Fetch T evs' n l' = Some (Inr d', l2)" for evs' d' l2
    using tessera_log.Fetch_done [OF assms(1) that] xs by (simp add: nth_append)
  then show ?thesis using xs run(2) [OF assms(3)] run(3) by (auto simp: VerifyDigest_def)
qed

theorem ledger_append_only_witness:
  "(\<exists>xs. mlEntries (ldLog (snd (Seal mem_tessera ''r2'' ex_sealed))) = mlEntries (ldLog ex_sealed) @ xs)
   \<and> index_sound (mlEntries (ldLog (snd (Seal mem_tessera ''r2'' ex_sealed))))
       (ldDigestIndex (snd (Seal mem_tessera ''r2'' ex_sealed)))"
proof -
  have step: "(ledger_step mem_tessera)\<^sup>*\<^sup>* ex_sealed (snd (Seal mem_tessera ''r2'' ex_sealed))"
    by (rule r_into_rtranclp) (rule seal_step [OF prod.collapse [symmetric]])
  have "index_sound (mlEntries (ldLog ex_ledger)) (ldDigestIndex ex_ledger)" by (simp add: ex_ledger_def index_sound_def)
  then have sound: "index_sound (mlEntries (ldLog ex_sealed)) (ldDigestIndex ex_sealed)"
    by (rule memlog.Seal_index_sound [OF ex_sealed])
  have "0 < length (mlEntries (ldLog ex_sealed))" using memlog.Seal_done [OF ex_sealed] by simp
  then obtain l2 where "Fetch mem_tessera (replicate 1 Tick @ []) 0 ex_sealed = Some (Inr (mlEntries (ldLog ex_sealed) ! 0), l2)"
    using memlog.Fetch_returns [of 0 ex_sealed 1 "[]"] by auto
  from ledger_append_only [OF memlog.tessera_log_axioms step sound this] show ?thesis by blast
qed

text \<open>
  C15: restarting rebuilds the digest index the running ledger had.  For a ledger filled by successful seals
  and integrated, \<^verbatim>\<open>rebuildDigestIndex\<close> on an empty index returns without error, and the index equals the
  one the seals built.
\<close>

theorem rebuild_equals_running:
  assumes "tessera_live T entries integrated lag"
    and "entries (ldLog l0) = []" "ldDigestIndex l0 = Map.empty" "seal_all T rs l0 = Some l"
    and "integrated (ldLog l) = length rs"
    and "\<And>j. \<exists>m r. evs j = replicate m Tick @ r \<and> 0 < m \<and> lag \<le> m"
  shows "\<exists>l'. rebuildDigestIndex T evs (l\<lparr>ldDigestIndex := Map.empty\<rparr>) = Some (None, l')
    \<and> ldDigestIndex l' = ldDigestIndex l"
proof -
  have log: "tessera_log T entries integrated" using assms(1) by (rule tessera_live.axioms)
  have d: "entries (ldLog l) = rs" "ldDigestIndex l = digest_map rs"
    using tessera_log.seal_all_done [OF log assms(4)] assms(2,3) by auto
  obtain l' where r: "rebuildDigestIndex T evs (l\<lparr>ldDigestIndex := Map.empty\<rparr>) = Some (None, l')"
    using tessera_live.rebuild_returns [OF assms(1), of evs] assms(6) by blast
  then show ?thesis using tessera_log.rebuild_done [OF log r] d assms(5) by simp
qed

definition ex_restarted :: "mem_log Ledger" where
  "ex_restarted = ex_ledger\<lparr>ldLog := \<lparr>mlEntries = [], mlIntegrated = 9\<rparr>\<rparr>"

theorem rebuild_equals_running_witness:
  "\<exists>l l'. seal_all mem_tessera [''a'', ''b'', ''a''] ex_restarted = Some l
     \<and> rebuildDigestIndex mem_tessera (\<lambda>_. [Tick]) (l\<lparr>ldDigestIndex := Map.empty\<rparr>) = Some (None, l')
     \<and> ldDigestIndex l' = ldDigestIndex l"
proof -
  obtain l where l: "seal_all mem_tessera [''a'', ''b'', ''a''] ex_restarted = Some l"
      "mem_integrated (ldLog l) = length [''a'', ''b'', ''a'']"
    by (simp add: Seal_def mem_tessera_def ex_restarted_def ex_ledger_def mem_integrated_def)
  have "\<exists>m r. [Tick] = replicate m Tick @ r \<and> 0 < m \<and> 1 \<le> m"
    by (rule exI [of _ 1]) simp
  then show ?thesis
    using rebuild_equals_running [OF memlog.tessera_live_axioms _ _ l, where evs = "\<lambda>_. [Tick]"] l(1)
    by (auto simp: ex_restarted_def ex_ledger_def)
qed

text \<open>
  C23: \<^verbatim>\<open>Fetch\<close> never reports \<^verbatim>\<open>ErrIndexOutOfRange\<close>: it first waits until the index is integrated,
  which leaves both range checks unreachable.  An index beyond the log ends in a timeout or a context error.
\<close>

theorem fetch_never_out_of_range:
  assumes "tessera_log T entries integrated" "Fetch T evs n l = Some (Inl e, l')"
    and "\<forall>c. CtxDone c \<in> set evs \<longrightarrow> \<not> errors_is c ErrIndexOutOfRange"
  shows "\<not> errors_is e ErrIndexOutOfRange"
  by (rule tessera_log.Fetch_no_range_error [OF assms])

theorem fetch_never_out_of_range_witness:
  "\<exists>e l'. Fetch mem_tessera [Tick, Tick, Timeout] 7 ex_sealed = Some (Inl e, l') \<and> \<not> errors_is e ErrIndexOutOfRange"
proof -
  obtain e l' where f: "Fetch mem_tessera [Tick, Tick, Timeout] 7 ex_sealed = Some (Inl e, l')"
    by (simp add: Fetch_def ex_sealed_def Seal_def mem_tessera_def ex_ledger_def Let_def mem_integrated_def)
  then show ?thesis using fetch_never_out_of_range [OF memlog.tessera_log_axioms f] by auto
qed

text \<open>
  The signing identity of a ledger survives restarts.  After \<^verbatim>\<open>generateAndPersist\<close> succeeds, the
  temporary file is gone and every later \<^verbatim>\<open>loadOrGenerateKey\<close> whose read does not fail returns the same
  signer and verifier key and writes nothing.
\<close>

theorem key_file_round_trip:
  assumes "note_keys N" "generateAndPersist N tmp path origin f = (Inr (s, v), f')" "tmp \<noteq> path"
    and "fsFault f ''read'' path = None"
  shows "fs_get f' tmp = None \<and> loadOrGenerateKey N tmp' path origin' f' = (Inr (s, v), f')"
  using note_keys.generateAndPersist_file [OF assms(1,2,3)] note_keys.parse_generated [OF assms(1)] assms(4)
  by (simp add: loadOrGenerateKey_def read_file_def)

definition ex_fs :: fs where
  "ex_fs = \<lparr>fsNodes = [(''/data'', Dir)], fsFault = (\<lambda>_ _. None)\<rparr>"

theorem key_file_round_trip_witness:
  "\<exists>f'. generateAndPersist mem_notes ''/data/app/.signer-1.key'' ''/data/app/signer.key'' ''o'' ex_fs
      = (Inr (''PRIVATE+KEY'', ''VERIFIER''), f')
    \<and> loadOrGenerateKey mem_notes ''t'' ''/data/app/signer.key'' ''o'' f' = (Inr (''PRIVATE+KEY'', ''VERIFIER''), f')"
proof -
  let ?g = "generateAndPersist mem_notes ''/data/app/.signer-1.key'' ''/data/app/signer.key'' ''o'' ex_fs"
  have "fst ?g = Inr (''PRIVATE+KEY'', ''VERIFIER'')"
    by (simp add: generateAndPersist_def mem_notes_def ex_fs_def mkdir_all_def create_file_def write_file_def
        rename_file_def fs_get_def fs_set_def split: option.splits)
  then have g: "?g = (Inr (''PRIVATE+KEY'', ''VERIFIER''), snd ?g)" by (metis prod.collapse)
  have "fsFault ex_fs ''read'' ''/data/app/signer.key'' = None" by (simp add: ex_fs_def)
  then show ?thesis using key_file_round_trip [OF memnotes.note_keys_axioms g] g by blast
qed

end
