(* ===== verification/Locker.thy ===== *)
theory Locker
  imports Ledger Receipt
begin

text \<open>
  The locker service: the set of ledgers (\<^verbatim>\<open>internal/locker/locker.go\<close>), the worker that seals queued
  receipts (\<^verbatim>\<open>worker.go\<close>) and the subscriber for admin requests (\<^verbatim>\<open>admin.go\<close>).  The locks of the
  code make each operation atomic; operations interleave as sequences of steps.
\<close>

section \<open>The locker\<close>

definition SanitizeLogValue :: "string \<Rightarrow> string" where
  "SanitizeLogValue s =
     filter (\<lambda>r. \<not> ((of_char r :: nat) < 0x20 \<or> (of_char r :: nat) = 0x7f))
       (replace_all (CHR 0x0D) [] (replace_all (CHR 0x0A) [] s))"

text \<open>The map of ledgers, in the order an iteration visits it.\<close>

record 'l Locker =
  lkBasePath :: string
  lkLedgers :: "(string \<times> 'l Ledger) list"

text \<open>What an operation of the service uses: the libraries, the schedules and the clock.\<close>

record ('d, 'l, 'w) locker_env =
  leTessera :: "'l tessera"
  leOpen :: "('d, 'l) tessera_open"
  leNotes :: note_lib
  leSchedule :: "nat \<Rightarrow> select_event list"
  leTemp :: string
  leSdk :: ce_sdk
  leBus :: "'w bus"
  leSource :: string
  leReceipts :: receipt_lib
  leNow :: time

record ('l, 'w) locker_state =
  lsLocker :: "'l Locker"
  lsFiles :: fs
  lsWorld :: 'w

definition NewLocker :: "string \<Rightarrow> fs \<Rightarrow> 'l Locker res \<times> fs" where
  "NewLocker basePath f =
     (case mkdir_all f basePath of
        (Some err, f') \<Rightarrow> (Inl (ErrorfW (''creating base path '' @ basePath @ '': '') err []), f')
      | (None, f') \<Rightarrow> (Inr \<lparr>lkBasePath = basePath, lkLedgers = []\<rparr>, f'))"

definition GetLedger :: "'l Locker \<Rightarrow> string \<Rightarrow> 'l Ledger option" where
  "GetLedger lk subjectID = map_of (lkLedgers lk) subjectID"

definition put_ledger :: "string \<Rightarrow> 'l Ledger \<Rightarrow> 'l Locker \<Rightarrow> 'l Locker" where
  "put_ledger subjectID l lk = lk\<lparr>lkLedgers := assign subjectID l (lkLedgers lk)\<rparr>"

text \<open>\<open>None\<close> while the new ledger still waits for its log.\<close>

definition CreateLedger ::
    "('d, 'l, 'w) locker_env \<Rightarrow> string \<Rightarrow> ('l, 'w) locker_state \<Rightarrow> ('l Ledger res \<times> ('l, 'w) locker_state) option" where
  "CreateLedger E subjectID s =
     (case ValidateSubjectID subjectID of
        Some err \<Rightarrow> Some (Inl err, s)
      | None \<Rightarrow>
     (case GetLedger (lsLocker s) subjectID of
        Some _ \<Rightarrow> Some (Inl (ErrorfW [] ErrLedgerExists ('': '' @ subjectID)), s)
      | None \<Rightarrow>
     (case NewLedger (leTessera E) (leOpen E) (leNotes E) (leSchedule E) (leTemp E) subjectID
             (lkBasePath (lsLocker s)) (lsFiles s) of
        None \<Rightarrow> None
      | Some (Inl err, f) \<Rightarrow> Some (Inl err, s\<lparr>lsFiles := f\<rparr>)
      | Some (Inr ledger, f) \<Rightarrow>
          Some (Inr ledger, s\<lparr>lsFiles := f, lsLocker := put_ledger subjectID ledger (lsLocker s)\<rparr>))))"

fun open_loop ::
    "('d, 'l, 'w) locker_env \<Rightarrow> (string \<times> fnode) list \<Rightarrow> ('l, 'w) locker_state \<Rightarrow> ('l, 'w) locker_state option" where
  "open_loop E [] s = Some s"
| "open_loop E ((subjectID, node) # entries) s =
     (if node \<noteq> Dir then open_loop E entries s
      else case GetLedger (lsLocker s) subjectID of
        Some _ \<Rightarrow> open_loop E entries s
      | None \<Rightarrow>
     (case NewLedger (leTessera E) (leOpen E) (leNotes E) (leSchedule E) (leTemp E) subjectID
             (lkBasePath (lsLocker s)) (lsFiles s) of
        None \<Rightarrow> None
      | Some (Inl err, f) \<Rightarrow> open_loop E entries (s\<lparr>lsFiles := f\<rparr>)
      | Some (Inr ledger, f) \<Rightarrow>
          open_loop E entries (s\<lparr>lsFiles := f, lsLocker := put_ledger subjectID ledger (lsLocker s)\<rparr>)))"

definition OpenExistingLedgers ::
    "('d, 'l, 'w) locker_env \<Rightarrow> ('l, 'w) locker_state \<Rightarrow> (goerr option \<times> ('l, 'w) locker_state) option" where
  "OpenExistingLedgers E s =
     (case read_dir (lsFiles s) (lkBasePath (lsLocker s)) of
        Inl err \<Rightarrow> Some (Some (ErrorfW ''reading base path: '' err []), s)
      | Inr entries \<Rightarrow>
        (case open_loop E entries s of None \<Rightarrow> None | Some s' \<Rightarrow> Some (None, s')))"

definition SubjectsOf :: "'l Locker \<Rightarrow> string list" where
  "SubjectsOf lk = map fst (lkLedgers lk)"

fun close_loop :: "'l tessera \<Rightarrow> (string \<times> 'l Ledger) list \<Rightarrow> goerr option \<Rightarrow> goerr option \<times> (string \<times> 'l Ledger) list" where
  "close_loop T [] firstErr = (firstErr, [])"
| "close_loop T ((subjectID, ledger) # rest) firstErr =
     (case LedgerClose T ledger of
        (e, ledger') \<Rightarrow>
          (case close_loop T rest (if firstErr = None then e else firstErr) of
             (r, rest') \<Rightarrow> (r, (subjectID, ledger') # rest')))"

definition LockerClose :: "'l tessera \<Rightarrow> 'l Locker \<Rightarrow> goerr option \<times> 'l Locker" where
  "LockerClose T lk = (case close_loop T (lkLedgers lk) None of (e, ls) \<Rightarrow> (e, lk\<lparr>lkLedgers := ls\<rparr>))"

section \<open>The worker\<close>

definition retryDelay :: duration where "retryDelay = 5 * second"

text \<open>\<^verbatim>\<open>int64(index)\<close> of an unsigned 64-bit index.\<close>

definition to_int64 :: "nat \<Rightarrow> int" where
  "to_int64 n = (let m = int n mod 2 ^ 64 in if m < 2 ^ 63 then m else m - 2 ^ 64)"

text \<open>A type assertion and a comparison: neither looks through wrapped errors.\<close>

definition isPermanent :: "goerr \<Rightarrow> bool" where
  "isPermanent err = (case err of LedgerNotFoundError _ \<Rightarrow> True | ContextCanceled \<Rightarrow> True | _ \<Rightarrow> False)"

definition entry_ref :: "string \<Rightarrow> nat \<Rightarrow> string" where
  "entry_ref subjectID index = ''locker://'' @ subjectID @ ''/entry/'' @ show_nat index"

definition processReceipt ::
    "('d, 'l, 'w) locker_env \<Rightarrow> IngestRef \<Rightarrow> ('l, 'w) locker_state \<Rightarrow> goerr option \<times> ('l, 'w) locker_state" where
  "processReceipt E ref s =
     (case GetLedger (lsLocker s) (irSubjectID ref) of
        None \<Rightarrow> (Some (LedgerNotFoundError (irSubjectID ref)), s)
      | Some ledger \<Rightarrow>
        let digest = SHA256Hex (irReceiptBytes ref) in
        case VerifyDigest digest ledger of
          Some _ \<Rightarrow> (None, s)
        | None \<Rightarrow>
          (case Seal (leTessera E) (irReceiptBytes ref) ledger of
             (Inl err, ledger') \<Rightarrow>
               (Some (ErrorfW ''sealing receipt: '' err []),
                s\<lparr>lsLocker := put_ledger (irSubjectID ref) ledger' (lsLocker s)\<rparr>)
           | (Inr index, ledger') \<Rightarrow>
               (case PublishEvidenceSealed (leSdk E) (leBus E) (leSource E)
                       \<lparr>esContentDigest = irContentDigest ref, esLogIndex = to_int64 index, esReceiptDigest = digest,
                        esReceiptType = ''gemara-receipt/v1'', esStorageRef = entry_ref (irSubjectID ref) index,
                        esSubjectID = irSubjectID ref, esShardID = None\<rparr> (lsWorld s) of
                  (_, w) \<Rightarrow>
                    (None, s\<lparr>lsLocker := put_ledger (irSubjectID ref) ledger' (lsLocker s), lsWorld := w\<rparr>))))"

definition handleMessage ::
    "('d, 'l, 'w) locker_env \<Rightarrow> bytes \<Rightarrow> ('l, 'w) locker_state \<Rightarrow> verdict \<times> ('l, 'w) locker_state" where
  "handleMessage E data s =
     (case unmarshal_ingest_ref data of
        Inl err \<Rightarrow> (Term, s)
      | Inr ref \<Rightarrow>
        (case processReceipt E ref s of
           (Some err, s') \<Rightarrow> (if isPermanent err then Term else NakWithDelay retryDelay, s')
         | (None, s') \<Rightarrow> (Ack, s')))"

text \<open>
  One turn of the loop of \<^verbatim>\<open>processMessages\<close>: a stop signal, a cancelled context, a failed fetch, or a batch.
\<close>

datatype worker_event = WorkerStop | WorkerCancelled | FetchFailed goerr | Messages "bytes list"

fun handle_all ::
    "('d, 'l, 'w) locker_env \<Rightarrow> bytes list \<Rightarrow> ('l, 'w) locker_state \<Rightarrow> verdict list \<times> ('l, 'w) locker_state" where
  "handle_all E [] s = ([], s)"
| "handle_all E (m # ms) s =
     (case handleMessage E m s of (v, s') \<Rightarrow> (case handle_all E ms s' of (vs, s'') \<Rightarrow> (v # vs, s'')))"

fun processMessages ::
    "('d, 'l, 'w) locker_env \<Rightarrow> worker_event list \<Rightarrow> ('l, 'w) locker_state \<Rightarrow> verdict list \<times> ('l, 'w) locker_state" where
  "processMessages E [] s = ([], s)"
| "processMessages E (WorkerStop # evs) s = ([], s)"
| "processMessages E (WorkerCancelled # evs) s = ([], s)"
| "processMessages E (FetchFailed err # evs) s = processMessages E evs s"
| "processMessages E (Messages ms # evs) s =
     (case handle_all E ms s of (vs, s') \<Rightarrow> (case processMessages E evs s' of (vs', s'') \<Rightarrow> (vs @ vs', s'')))"

definition WorkerStart ::
    "('d, 'l, 'w) locker_env \<Rightarrow> ('w \<Rightarrow> string \<Rightarrow> ConsumerConfig \<Rightarrow> goerr option \<times> 'w) \<Rightarrow> worker_event list
       \<Rightarrow> ('l, 'w) locker_state \<Rightarrow> goerr option \<times> verdict list \<times> ('l, 'w) locker_state" where
  "WorkerStart E js_create_consumer evs s =
     (case js_create_consumer (lsWorld s) StreamIngest IngestConsumerConfig of
        (Some err, w) \<Rightarrow> (Some (ErrorfW ''creating ingest consumer: '' err []), [], s\<lparr>lsWorld := w\<rparr>)
      | (None, w) \<Rightarrow> (None, processMessages E evs (s\<lparr>lsWorld := w\<rparr>)))"

section \<open>Admin requests\<close>

text \<open>A Go map prints its keys in order.\<close>

definition registration_data :: "RegisterRequest \<Rightarrow> bytes" where
  "registration_data req = print_json (JObj
     [(''registrantIssuer'', JStr (rrRegistrantIssuer req)), (''registrantSub'', JStr (rrRegistrantSub req)),
      (''subjectId'', JStr (rrSubjectID req))])"

definition trust_data :: "SealTrustRequest \<Rightarrow> bytes" where
  "trust_data req = print_json (JObj
     [(''operatorIssuer'', JStr (stOperatorIssuer req)), (''operatorSub'', JStr (stOperatorSub req)),
      (''subjectId'', JStr (stSubjectID req)), (''trustedPublishers'', trust_list_json (stTrustedPublishers req))])"

definition register_error :: "string \<Rightarrow> bytes" where
  "register_error msg = print_json (register_response_json \<lparr>rpVerifierKey = [], rpError = msg\<rparr>)"

definition seal_trust_error :: "string \<Rightarrow> bytes" where
  "seal_trust_error msg = print_json (seal_trust_response_json \<lparr>srLogIndex = 0, srError = msg\<rparr>)"

definition handleRegister ::
    "('d, 'l, 'w) locker_env \<Rightarrow> bytes \<Rightarrow> ('l, 'w) locker_state \<Rightarrow> (bytes \<times> ('l, 'w) locker_state) option" where
  "handleRegister E data s =
     (case unmarshal_register_request data of
        Inl err \<Rightarrow> Some (register_error ''invalid request payload'', s)
      | Inr req \<Rightarrow>
     (case CreateLedger E (rrSubjectID req) s of
        None \<Rightarrow> None
      | Some (Inl err, s1) \<Rightarrow> Some (register_error (''creating ledger: '' @ error_text err), s1)
      | Some (Inr ledger, s1) \<Rightarrow>
     (case Wrap (leReceipts E) (leNow E) (registration_data req)
             \<lparr>pbIssuer = rrRegistrantIssuer req, pbSub = rrRegistrantSub req\<rparr> (rrSubjectID req) ''subject-registration'' of
        Inl err \<Rightarrow> Some (register_error (''wrapping receipt: '' @ error_text err), s1)
      | Inr receiptBytes \<Rightarrow>
     (case Seal (leTessera E) receiptBytes ledger of
        (Inl err, ledger') \<Rightarrow>
          Some (register_error (''sealing receipt: '' @ error_text err),
                s1\<lparr>lsLocker := put_ledger (rrSubjectID req) ledger' (lsLocker s1)\<rparr>)
      | (Inr _, ledger') \<Rightarrow>
     (case PublishSubjectRegistered (leSdk E) (leBus E) (leSource E) (rrSubjectID req) (lsWorld s1) of
        (_, w) \<Rightarrow>
          Some (print_json (register_response_json \<lparr>rpVerifierKey = VerifierKey ledger', rpError = []\<rparr>),
                s1\<lparr>lsLocker := put_ledger (rrSubjectID req) ledger' (lsLocker s1), lsWorld := w\<rparr>))))))"

definition handleSealTrust ::
    "('d, 'l, 'w) locker_env \<Rightarrow> bytes \<Rightarrow> ('l, 'w) locker_state \<Rightarrow> bytes \<times> ('l, 'w) locker_state" where
  "handleSealTrust E data s =
     (case unmarshal_seal_trust_request data of
        Inl err \<Rightarrow> (seal_trust_error ''invalid request payload'', s)
      | Inr req \<Rightarrow>
     (case GetLedger (lsLocker s) (stSubjectID req) of
        None \<Rightarrow> (seal_trust_error (''ledger not found for '' @ stSubjectID req), s)
      | Some ledger \<Rightarrow>
     (case Wrap (leReceipts E) (leNow E) (trust_data req)
             \<lparr>pbIssuer = stOperatorIssuer req, pbSub = stOperatorSub req\<rparr> (stSubjectID req) ''trust-modification'' of
        Inl err \<Rightarrow> (seal_trust_error (''wrapping receipt: '' @ error_text err), s)
      | Inr receiptBytes \<Rightarrow>
     (case Seal (leTessera E) receiptBytes ledger of
        (Inl err, ledger') \<Rightarrow>
          (seal_trust_error (''sealing receipt: '' @ error_text err),
           s\<lparr>lsLocker := put_ledger (stSubjectID req) ledger' (lsLocker s)\<rparr>)
      | (Inr logIndex, ledger') \<Rightarrow>
          (print_json (seal_trust_response_json \<lparr>srLogIndex = logIndex, srError = []\<rparr>),
           s\<lparr>lsLocker := put_ledger (stSubjectID req) ledger' (lsLocker s)\<rparr>)))))"

section \<open>Steps of the service\<close>

text \<open>
  What may happen to the locker, in any order: a queued message, an admin request, a fetch by the API or a scan
  for existing ledgers.  The clock, the schedule of the waits and the temporary name differ from step to step.
\<close>

definition at_time :: "('d, 'l, 'w) locker_env \<Rightarrow> time \<Rightarrow> (nat \<Rightarrow> select_event list) \<Rightarrow> string \<Rightarrow> ('d, 'l, 'w) locker_env" where
  "at_time E t sch tmp = E\<lparr>leNow := t, leSchedule := sch, leTemp := tmp\<rparr>"

lemma leTessera_at [simp]: "leTessera (at_time E t sch tmp) = leTessera E"
  by (simp add: at_time_def)

inductive locker_step :: "('d, 'l, 'w) locker_env \<Rightarrow> ('l, 'w) locker_state \<Rightarrow> ('l, 'w) locker_state \<Rightarrow> bool" for E where
  message: "handleMessage (at_time E t sch tmp) data s = (v, s') \<Longrightarrow> locker_step E s s'"
| register: "handleRegister (at_time E t sch tmp) data s = Some (r, s') \<Longrightarrow> locker_step E s s'"
| seal_trust: "handleSealTrust (at_time E t sch tmp) data s = (r, s') \<Longrightarrow> locker_step E s s'"
| fetch: "GetLedger (lsLocker s) k = Some l \<Longrightarrow> Fetch (leTessera E) evs n l = Some (b, l') \<Longrightarrow>
    locker_step E s (s\<lparr>lsLocker := put_ledger k l' (lsLocker s)\<rparr>)"
| open_existing: "OpenExistingLedgers (at_time E t sch tmp) s = Some (q, s') \<Longrightarrow> locker_step E s s'"

text \<open>How a ledger may change, and what holds of every ledger.\<close>

definition ledger_grows :: "('l \<Rightarrow> bytes list) \<Rightarrow> 'l Ledger \<Rightarrow> 'l Ledger \<Rightarrow> bool" where
  "ledger_grows entries l l' \<longleftrightarrow>
     (\<exists>xs. entries (ldLog l') = entries (ldLog l) @ xs) \<and> dom (ldDigestIndex l) \<subseteq> dom (ldDigestIndex l')
     \<and> ldVerifierKey l' = ldVerifierKey l"

definition locker_grows :: "('l \<Rightarrow> bytes list) \<Rightarrow> ('l, 'w) locker_state \<Rightarrow> ('l, 'w) locker_state \<Rightarrow> bool" where
  "locker_grows entries s s' \<longleftrightarrow> lkBasePath (lsLocker s') = lkBasePath (lsLocker s) \<and>
     (\<forall>k l. GetLedger (lsLocker s) k = Some l \<longrightarrow>
        (\<exists>l'. GetLedger (lsLocker s') k = Some l' \<and> ledger_grows entries l l'))"

definition ledger_ok :: "('l \<Rightarrow> bytes list) \<Rightarrow> string \<Rightarrow> string \<Rightarrow> 'l Ledger \<Rightarrow> bool" where
  "ledger_ok entries base k l \<longleftrightarrow> ldSubjectID l = k \<and> ldStoragePath l = path_join [base, k]
     \<and> index_sound (entries (ldLog l)) (ldDigestIndex l)"

definition locker_ok :: "('l \<Rightarrow> bytes list) \<Rightarrow> ('l, 'w) locker_state \<Rightarrow> bool" where
  "locker_ok entries s \<longleftrightarrow>
     (\<forall>k l. GetLedger (lsLocker s) k = Some l \<longrightarrow> ledger_ok entries (lkBasePath (lsLocker s)) k l)"

section \<open>Lemmas\<close>

lemma GetLedger_put [simp]: "GetLedger (put_ledger k l lk) k' = (if k' = k then Some l else GetLedger lk k')"
  by (simp add: GetLedger_def put_ledger_def)

lemma lkBasePath_put [simp]: "lkBasePath (put_ledger k l lk) = lkBasePath lk"
  by (simp add: put_ledger_def)

lemma ledger_grows_refl [simp]: "ledger_grows entries l l"
  by (simp add: ledger_grows_def)

lemma ledger_grows_trans: "ledger_grows entries a b \<Longrightarrow> ledger_grows entries b c \<Longrightarrow> ledger_grows entries a c"
  by (auto simp: ledger_grows_def)

lemma locker_grows_refl [simp]: "locker_grows entries s s"
  by (simp add: locker_grows_def)

lemma locker_grows_trans: "locker_grows entries a b \<Longrightarrow> locker_grows entries b c \<Longrightarrow> locker_grows entries a c"
  unfolding locker_grows_def by (metis ledger_grows_trans)

lemma locker_grows_put:
  assumes "\<And>l0. GetLedger (lsLocker s) k = Some l0 \<Longrightarrow> ledger_grows entries l0 l"
    and "lsLocker s' = put_ledger k l (lsLocker s)"
  shows "locker_grows entries s s'"
  using assms by (auto simp: locker_grows_def)

lemma locker_ok_put:
  assumes "locker_ok entries s" "ledger_ok entries (lkBasePath (lsLocker s)) k l"
    and "lsLocker s' = put_ledger k l (lsLocker s)"
  shows "locker_ok entries s'"
  using assms by (auto simp: locker_ok_def)

context tessera_log
begin

lemma rebuild_loop_sound:
  assumes "rebuild_loop T evs i k l = Some (q, l')" "index_sound (log_of l) (ldDigestIndex l)"
  shows "index_sound (log_of l') (ldDigestIndex l')" "log_of l' = log_of l" "ldSubjectID l' = ldSubjectID l"
    "ldStoragePath l' = ldStoragePath l" "ldVerifierKey l' = ldVerifierKey l"
proof -
  have "index_sound (log_of l') (ldDigestIndex l') \<and> log_of l' = log_of l \<and> ldSubjectID l' = ldSubjectID l
      \<and> ldStoragePath l' = ldStoragePath l \<and> ldVerifierKey l' = ldVerifierKey l"
    using assms
  proof (induction k arbitrary: i l)
    case (Suc k)
    obtain b l1 where f: "Fetch T (evs i) i l = Some (b, l1)"
      using Suc.prems(1) by (auto split: option.splits)
    note k = Fetch_keeps [OF f]
    show ?case
    proof (cases b)
      case (Inl e)
      then show ?thesis using Suc.prems f k by auto
    next
      case (Inr d)
      have "index_sound (log_of l1) ((ldDigestIndex l1)(SHA256Hex d \<mapsto> i))"
        using Fetch_done [OF f [unfolded Inr]] Suc.prems(2) k by (auto simp: index_sound_def)
      then show ?thesis
        using Suc.IH [of "Suc i" "l1\<lparr>ldDigestIndex := (ldDigestIndex l1)(SHA256Hex d \<mapsto> i)\<rparr>"] Suc.prems(1) f Inr k
        by (auto simp del: fun_upd_apply)
    qed
  qed auto
  then show "index_sound (log_of l') (ldDigestIndex l')" "log_of l' = log_of l" "ldSubjectID l' = ldSubjectID l"
    "ldStoragePath l' = ldStoragePath l" "ldVerifierKey l' = ldVerifierKey l" by blast+
qed

lemma NewLedger_ok:
  assumes "NewLedger T P N evs tmp k base f = Some (Inr l, f')"
  shows "ledger_ok entries base k l"
proof -
  obtain g vk q where "rebuildDigestIndex T evs \<lparr>ldSubjectID = k, ldStoragePath = path_join [base, k], ldLog = g,
      ldVerifierKey = vk, ldDigestIndex = Map.empty\<rparr> = Some (q, l)" (is "rebuildDigestIndex T evs ?l0 = _")
    using assms by (auto simp: NewLedger_def Let_def split: prod.splits sum.splits option.splits)
  moreover have "index_sound (log_of ?l0) (ldDigestIndex ?l0)" by (simp add: index_sound_def)
  ultimately show ?thesis
    using rebuild_loop_sound [of evs 0 _ ?l0 q l]
    by (auto simp: rebuildDigestIndex_def ledger_ok_def split: sum.splits)
qed

lemma Seal_grows: "Seal T r l = (q, l') \<Longrightarrow> ledger_grows entries l l'"
  using Seal_extends [of r l q l'] by (auto simp: ledger_grows_def)

lemma Seal_ok: "Seal T r l = (q, l') \<Longrightarrow> ledger_ok entries base k l \<Longrightarrow> ledger_ok entries base k l'"
  using Seal_extends [of r l q l'] Seal_index_sound [of r l q l'] by (simp add: ledger_ok_def)

lemma Fetch_grows: "Fetch T evs n l = Some (b, l') \<Longrightarrow> ledger_grows entries l l'"
  using Fetch_keeps [of evs n l b l'] by (auto simp: ledger_grows_def)

lemma Fetch_ok: "Fetch T evs n l = Some (b, l') \<Longrightarrow> ledger_ok entries base k l \<Longrightarrow> ledger_ok entries base k l'"
  using Fetch_keeps [of evs n l b l'] by (simp add: ledger_ok_def)

lemma CreateLedger_step:
  assumes "CreateLedger E k s = Some (q, s')" "leTessera E = T"
  shows "locker_grows entries s s'" "locker_ok entries s \<Longrightarrow> locker_ok entries s'" "lsWorld s' = lsWorld s"
    "q = Inr l \<Longrightarrow> GetLedger (lsLocker s) k = None \<and> GetLedger (lsLocker s') k = Some l
      \<and> ledger_ok entries (lkBasePath (lsLocker s)) k l \<and> valid_subject k"
    "q = Inl e \<Longrightarrow> lsLocker s' = lsLocker s"
proof -
  consider (err) e where "q = Inl e" "lsLocker s' = lsLocker s"
    | (new) l f where "q = Inr l" "lsLocker s' = put_ledger k l (lsLocker s)" "GetLedger (lsLocker s) k = None"
        "NewLedger T (leOpen E) (leNotes E) (leSchedule E) (leTemp E) k (lkBasePath (lsLocker s)) (lsFiles s) = Some (Inr l, f)"
        "valid_subject k"
    using assms ValidateSubjectID_None [of k]
    by (auto simp: CreateLedger_def split: option.splits prod.splits sum.splits)
  note c = this
  show "locker_grows entries s s'"
    using c by cases (auto simp: locker_grows_def)
  show "locker_ok entries s \<Longrightarrow> locker_ok entries s'"
    using c
  proof cases
    case err
    then show "locker_ok entries s \<Longrightarrow> locker_ok entries s'" by (simp add: locker_ok_def)
  next
    case new
    then show "locker_ok entries s \<Longrightarrow> locker_ok entries s'"
      using locker_ok_put [OF _ NewLedger_ok] by blast
  qed
  show "lsWorld s' = lsWorld s"
    using assms by (auto simp: CreateLedger_def split: option.splits prod.splits sum.splits)
  show "q = Inr l \<Longrightarrow> GetLedger (lsLocker s) k = None \<and> GetLedger (lsLocker s') k = Some l
      \<and> ledger_ok entries (lkBasePath (lsLocker s)) k l \<and> valid_subject k"
    using c by cases (auto dest: NewLedger_ok)
  show "q = Inl e \<Longrightarrow> lsLocker s' = lsLocker s" using c by cases auto
qed

lemma open_loop_step:
  assumes "open_loop E ns s = Some s'" "leTessera E = T"
  shows "locker_grows entries s s' \<and> (locker_ok entries s \<longrightarrow> locker_ok entries s')"
  using assms(1)
proof (induction ns arbitrary: s)
  case (Cons n ns)
  obtain k node where n: "n = (k, node)" by fastforce
  consider "open_loop E ns s = Some s'"
    | (err) f where "open_loop E ns (s\<lparr>lsFiles := f\<rparr>) = Some s'"
    | (new) l f where "open_loop E ns (s\<lparr>lsFiles := f, lsLocker := put_ledger k l (lsLocker s)\<rparr>) = Some s'"
        "GetLedger (lsLocker s) k = None"
        "NewLedger T (leOpen E) (leNotes E) (leSchedule E) (leTemp E) k (lkBasePath (lsLocker s)) (lsFiles s) = Some (Inr l, f)"
    using Cons.prems n assms(2) by (auto split: if_splits option.splits prod.splits sum.splits)
  then show ?case
  proof cases
    case 1
    then show ?thesis by (rule Cons.IH)
  next
    case err
    then show ?thesis using Cons.IH [OF err] by (auto simp: locker_grows_def locker_ok_def)
  next
    case new
    let ?s = "s\<lparr>lsFiles := f, lsLocker := put_ledger k l (lsLocker s)\<rparr>"
    have "locker_grows entries s ?s" using new(2) by (intro locker_grows_put) auto
    moreover have "locker_ok entries s \<Longrightarrow> locker_ok entries ?s"
      by (rule locker_ok_put [OF _ NewLedger_ok [OF new(3)]]) auto
    ultimately show ?thesis using Cons.IH [OF new(1)] locker_grows_trans by blast
  qed
qed simp

text \<open>Sealing into a ledger of the locker.\<close>

lemma locker_seal_step:
  assumes "GetLedger (lsLocker s) k = Some l" "Seal T r l = (q, l')" "lsLocker s' = put_ledger k l' (lsLocker s)"
  shows "locker_grows entries s s'" "locker_ok entries s \<Longrightarrow> locker_ok entries s'"
proof -
  show "locker_grows entries s s'"
    using assms Seal_grows [OF assms(2)] by (intro locker_grows_put) auto
  show "locker_ok entries s'" if "locker_ok entries s"
    using locker_ok_put [OF that Seal_ok [OF assms(2)] assms(3)] that assms(1) by (simp add: locker_ok_def)
qed

lemma processReceipt_cases:
  assumes "processReceipt E ref s = (q, s')" "leTessera E = T"
  obtains (missing) "GetLedger (lsLocker s) (irSubjectID ref) = None" "s' = s"
      "q = Some (LedgerNotFoundError (irSubjectID ref))"
  | (duplicate) l where "GetLedger (lsLocker s) (irSubjectID ref) = Some l" "s' = s" "q = None"
      "SHA256Hex (irReceiptBytes ref) \<in> dom (ldDigestIndex l)"
  | (failed) l l' e where "GetLedger (lsLocker s) (irSubjectID ref) = Some l" "SHA256Hex (irReceiptBytes ref) \<notin> dom (ldDigestIndex l)"
      "Seal T (irReceiptBytes ref) l = (Inl e, l')" "q = Some (ErrorfW ''sealing receipt: '' e [])"
      "s' = s\<lparr>lsLocker := put_ledger (irSubjectID ref) l' (lsLocker s)\<rparr>"
  | (sealed) l l' i where "GetLedger (lsLocker s) (irSubjectID ref) = Some l" "SHA256Hex (irReceiptBytes ref) \<notin> dom (ldDigestIndex l)"
      "Seal T (irReceiptBytes ref) l = (Inr i, l')" "q = None"
      "lsLocker s' = put_ledger (irSubjectID ref) l' (lsLocker s)" "lsFiles s' = lsFiles s"
      "lsWorld s' = snd (PublishEvidenceSealed (leSdk E) (leBus E) (leSource E)
         \<lparr>esContentDigest = irContentDigest ref, esLogIndex = to_int64 i, esReceiptDigest = SHA256Hex (irReceiptBytes ref),
          esReceiptType = ''gemara-receipt/v1'', esStorageRef = entry_ref (irSubjectID ref) i,
          esSubjectID = irSubjectID ref, esShardID = None\<rparr> (lsWorld s))"
  using assms
  by (auto simp: processReceipt_def Let_def VerifyDigest_def domIff split: option.splits prod.splits sum.splits)

lemma processReceipt_step:
  assumes "processReceipt E ref s = (q, s')" "leTessera E = T"
  shows "locker_grows entries s s' \<and> (locker_ok entries s \<longrightarrow> locker_ok entries s')"
  using assms
proof (cases rule: processReceipt_cases)
  case (failed l l' e)
  then show ?thesis using locker_seal_step [OF failed(1,3), of s'] by simp
next
  case (sealed l l' i)
  then show ?thesis using locker_seal_step [OF sealed(1,3,5)] by simp
qed auto

lemma handleRegister_step:
  assumes "handleRegister E data s = Some (r, s')" "leTessera E = T"
  shows "locker_grows entries s s' \<and> (locker_ok entries s \<longrightarrow> locker_ok entries s')"
proof (cases "unmarshal_register_request data")
  case (Inl e)
  then show ?thesis using assms(1) by (simp add: handleRegister_def)
next
  case (Inr req)
  obtain c s1 where c: "CreateLedger E (rrSubjectID req) s = Some (c, s1)"
    using assms(1) Inr by (auto simp: handleRegister_def split: option.splits)
  note st = CreateLedger_step [OF c assms(2)]
  have "s' = s1 \<or> (\<exists>l r' q l'. c = Inr l \<and> Seal T r' l = (q, l') \<and> lsLocker s' = put_ledger (rrSubjectID req) l' (lsLocker s1))"
    using assms Inr c by (fastforce simp: handleRegister_def split: option.splits prod.splits sum.splits)
  then show ?thesis
  proof
    assume "s' = s1"
    then show ?thesis using st(1,2) by simp
  next
    assume "\<exists>l r' q l'. c = Inr l \<and> Seal T r' l = (q, l') \<and> lsLocker s' = put_ledger (rrSubjectID req) l' (lsLocker s1)"
    then obtain l r' q l' where l: "c = Inr l" "Seal T r' l = (q, l')" "lsLocker s' = put_ledger (rrSubjectID req) l' (lsLocker s1)"
      by blast
    have "GetLedger (lsLocker s1) (rrSubjectID req) = Some l" using st(4) [OF l(1)] by blast
    then show ?thesis using locker_seal_step [OF _ l(2,3)] st(1,2) locker_grows_trans by blast
  qed
qed

lemma handleSealTrust_step:
  assumes "handleSealTrust E data s = (r, s')" "leTessera E = T"
  shows "locker_grows entries s s' \<and> (locker_ok entries s \<longrightarrow> locker_ok entries s')"
proof -
  have "s' = s \<or> (\<exists>k l r' q l'. GetLedger (lsLocker s) k = Some l \<and> Seal T r' l = (q, l')
      \<and> lsLocker s' = put_ledger k l' (lsLocker s))"
    using assms by (fastforce simp: handleSealTrust_def split: option.splits prod.splits sum.splits)
  then show ?thesis using locker_seal_step by auto
qed

lemma locker_step_invariant:
  assumes "locker_step E s s'" "leTessera E = T"
  shows "locker_grows entries s s' \<and> (locker_ok entries s \<longrightarrow> locker_ok entries s')"
  using assms(1)
proof (cases rule: locker_step.cases)
  case (message t sch tmp data v)
  then show ?thesis
    using assms(2)
    by (auto simp: handleMessage_def split: sum.splits prod.splits option.splits dest: processReceipt_step)
next
  case (register t sch tmp data r)
  then show ?thesis using handleRegister_step assms(2) by (metis leTessera_at)
next
  case (seal_trust t sch tmp data r)
  then show ?thesis using handleSealTrust_step assms(2) by (metis leTessera_at)
next
  case (fetch k l evs n b l')
  have f: "Fetch T evs n l = Some (b, l')" using fetch(3) assms(2) by simp
  have "locker_grows entries s s'"
    using fetch Fetch_grows [OF f] by (intro locker_grows_put [of s k _ l']) auto
  moreover have "locker_ok entries s'" if "locker_ok entries s"
    using locker_ok_put [OF that Fetch_ok [OF f], of k s'] fetch that by (simp add: locker_ok_def)
  ultimately show ?thesis by blast
next
  case (open_existing t sch tmp q)
  then show ?thesis
    using open_loop_step [of "at_time E t sch tmp"] assms(2)
    by (auto simp: OpenExistingLedgers_def split: sum.splits option.splits)
qed

lemma locker_run_invariant:
  assumes "(locker_step E)\<^sup>*\<^sup>* s s'" "leTessera E = T"
  shows "locker_grows entries s s'" "locker_ok entries s \<Longrightarrow> locker_ok entries s'"
proof -
  have "locker_grows entries s s' \<and> (locker_ok entries s \<longrightarrow> locker_ok entries s')"
    using assms(1)
  proof (induction rule: rtranclp_induct)
    case (step y z)
    then show ?case using locker_step_invariant [OF step(2) assms(2)] locker_grows_trans by blast
  qed simp
  then show "locker_grows entries s s'" "locker_ok entries s \<Longrightarrow> locker_ok entries s'" by blast+
qed

end

lemma register_error_response: "unmarshal_register_response (register_error m) = Inr \<lparr>rpVerifierKey = [], rpError = m\<rparr>"
  by (simp add: register_error_def)

text \<open>A registration whose reply has no error created the ledger and sealed its first receipt.\<close>

lemma handleRegister_done:
  assumes "tessera_log (leTessera E) entries integrated"
    and "handleRegister E (print_json (register_request_json req)) s = Some (resp, s')"
    and "unmarshal_register_response resp = Inr r" "rpError r = []"
  obtains l receipt es where "GetLedger (lsLocker s) (rrSubjectID req) = None" "valid_subject (rrSubjectID req)"
    "GetLedger (lsLocker s') (rrSubjectID req) = Some l" "VerifierKey l = rpVerifierKey r"
    "Wrap (leReceipts E) (leNow E) (registration_data req)
       \<lparr>pbIssuer = rrRegistrantIssuer req, pbSub = rrRegistrantSub req\<rparr> (rrSubjectID req) ''subject-registration'' = Inr receipt"
    "entries (ldLog l) = es @ [receipt]"
proof -
  obtain l0 s1 receipt i l w where c: "CreateLedger E (rrSubjectID req) s = Some (Inr l0, s1)"
    and wr: "Wrap (leReceipts E) (leNow E) (registration_data req)
       \<lparr>pbIssuer = rrRegistrantIssuer req, pbSub = rrRegistrantSub req\<rparr> (rrSubjectID req) ''subject-registration'' = Inr receipt"
    and se: "Seal (leTessera E) receipt l0 = (Inr i, l)"
    and resp: "resp = print_json (register_response_json \<lparr>rpVerifierKey = VerifierKey l, rpError = []\<rparr>)"
    and s': "s' = s1\<lparr>lsLocker := put_ledger (rrSubjectID req) l (lsLocker s1), lsWorld := w\<rparr>"
    using assms(2,3,4) register_error_response
    by (auto simp: handleRegister_def split: option.splits prod.splits sum.splits)
  note cs = tessera_log.CreateLedger_step(4) [OF assms(1) c refl refl]
  show thesis
    using that [of l receipt] cs wr tessera_log.Seal_done(2) [OF assms(1) se] s' assms(3) resp by auto
qed

section \<open>A concrete service\<close>

definition mem_open :: "(unit, mem_log) tessera_open" where
  "mem_open = \<lparr>posix_new = (\<lambda>_. Inr ()), new_appender = (\<lambda>_ _. Inr \<lparr>mlEntries = [], mlIntegrated = 0\<rparr>)\<rparr>"

definition mem_env :: "(unit, mem_log, (string \<times> bytes) list) locker_env" where
  "mem_env = \<lparr>leTessera = mem_tessera, leOpen = mem_open, leNotes = mem_notes, leSchedule = (\<lambda>_. [Tick]),
     leTemp = ''/data/.tmp'', leSdk = plain_sdk, leBus = mem_bus, leSource = ''locker'',
     leReceipts = plain_codec, leNow = 0\<rparr>"

definition ex_locker :: "(mem_log, (string \<times> bytes) list) locker_state" where
  "ex_locker = \<lparr>lsLocker = \<lparr>lkBasePath = ''/data'', lkLedgers = [(''app'', ex_ledger)]\<rparr>, lsFiles = ex_fs, lsWorld = []\<rparr>"

definition ex_ref :: IngestRef where
  "ex_ref = \<lparr>irJobID = ''j'', irSubjectID = ''app'', irContentDigest = ''d'', irArtifactType = ''t'', irReceiptBytes = ''r1''\<rparr>"

lemma ex_locker_ledger: "GetLedger (lsLocker ex_locker) ''app'' = Some ex_ledger"
  by (simp add: ex_locker_def GetLedger_def)

lemma ex_message_acked: "fst (handleMessage mem_env (marshal_ingest_ref ex_ref) ex_locker) = Ack"
proof -
  have "VerifyDigest (SHA256Hex ''r1'') ex_ledger = None" by (simp add: VerifyDigest_def ex_ledger_def)
  then show ?thesis
    using ex_locker_ledger ex_sealed
    by (simp add: handleMessage_def unmarshal_marshal_ingest_ref processReceipt_def ex_ref_def Let_def mem_env_def
        split: prod.splits)
qed

section \<open>Properties\<close>

text \<open>
  C6: redelivery is idempotent.  Once the worker has acknowledged a message, a later delivery of the same
  message, after any other activity of the service, is acknowledged again and changes nothing: the receipt is
  not sealed twice and no second event is published.
\<close>

theorem worker_redelivery:
  assumes "tessera_log (leTessera E) entries integrated"
    and "handleMessage (at_time E t sch tmp) m s = (Ack, s1)" "(locker_step E)\<^sup>*\<^sup>* s1 s2"
  shows "handleMessage (at_time E t' sch' tmp') m s2 = (Ack, s2)"
proof -
  obtain ref where ref: "unmarshal_ingest_ref m = Inr ref" "processReceipt (at_time E t sch tmp) ref s = (None, s1)"
    using assms(2) by (auto simp: handleMessage_def split: sum.splits prod.splits option.splits if_splits)
  let ?k = "irSubjectID ref" and ?d = "SHA256Hex (irReceiptBytes ref)"
  obtain l1 where l1: "GetLedger (lsLocker s1) ?k = Some l1" "?d \<in> dom (ldDigestIndex l1)"
    using ref(2) leTessera_at
  proof (cases rule: tessera_log.processReceipt_cases [OF assms(1), consumes 2, case_names missing duplicate failed sealed])
    case (sealed l l' i)
    then show ?thesis using that tessera_log.Seal_done(3) [OF assms(1) sealed(3)] by simp
  qed (use that in auto)
  obtain l2 where l2: "GetLedger (lsLocker s2) ?k = Some l2" "ledger_grows entries l1 l2"
    using tessera_log.locker_run_invariant(1) [OF assms(1,3)] l1(1) by (auto simp: locker_grows_def)
  then have "?d \<in> dom (ldDigestIndex l2)" using l1(2) by (auto simp: ledger_grows_def)
  then show ?thesis
    using ref(1) l2(1) by (auto simp: handleMessage_def processReceipt_def Let_def VerifyDigest_def)
qed

theorem worker_redelivery_witness:
  "let s1 = snd (handleMessage mem_env (marshal_ingest_ref ex_ref) ex_locker)
   in handleMessage mem_env (marshal_ingest_ref ex_ref) s1 = (Ack, s1)"
proof -
  have at: "at_time mem_env 0 (\<lambda>_. [Tick]) ''/data/.tmp'' = mem_env" by (simp add: at_time_def mem_env_def)
  have T: "leTessera mem_env = mem_tessera" by (simp add: mem_env_def)
  have "handleMessage mem_env (marshal_ingest_ref ex_ref) ex_locker
      = (Ack, snd (handleMessage mem_env (marshal_ingest_ref ex_ref) ex_locker))"
    using ex_message_acked by (metis prod.collapse)
  then show ?thesis
    using worker_redelivery [of mem_env mlEntries mem_integrated 0 "\<lambda>_. [Tick]" "''/data/.tmp''" _ ex_locker _ _ 0
        "\<lambda>_. [Tick]" "''/data/.tmp''"] memlog.tessera_log_axioms
    unfolding at T Let_def by blast
qed



text \<open>
  C22: the invariant of the locker.  Whatever sequence of messages, admin requests, fetches and scans runs, each
  ledger keeps its subject, storage directory and verifier key, its log only grows, and its digest index only
  points at entries with that digest; no ledger disappears.
\<close>

theorem locker_invariant:
  assumes "tessera_log (leTessera E) entries integrated" "(locker_step E)\<^sup>*\<^sup>* s s'" "locker_ok entries s"
  shows "locker_ok entries s' \<and> locker_grows entries s s'"
  using tessera_log.locker_run_invariant [OF assms(1,2)] assms(3) by blast

theorem locker_invariant_witness:
  "locker_ok mlEntries (snd (handleMessage mem_env (marshal_ingest_ref ex_ref) ex_locker))"
proof -
  have T: "leTessera mem_env = mem_tessera" by (simp add: mem_env_def)
  have at: "at_time mem_env 0 (\<lambda>_. [Tick]) ''/data/.tmp'' = mem_env" by (simp add: at_time_def mem_env_def)
  have p: "path_join [''/data'', ''app''] = ''/data/app''" by code_simp
  have ok: "locker_ok mlEntries ex_locker"
    by (auto simp: locker_ok_def ex_locker_def GetLedger_def ledger_ok_def ex_ledger_def index_sound_def p split: if_splits)
  have "(locker_step mem_env)\<^sup>*\<^sup>* ex_locker (snd (handleMessage mem_env (marshal_ingest_ref ex_ref) ex_locker))"
    by (rule r_into_rtranclp, rule message [of mem_env 0 "\<lambda>_. [Tick]" "''/data/.tmp''"], unfold at) (rule prod.collapse [symmetric])
  from locker_invariant [OF _ this ok, of mem_integrated] show ?thesis
    unfolding T using memlog.tessera_log_axioms by blast
qed

text \<open>
  \<^verbatim>\<open>SanitizeLogValue\<close> keeps exactly the characters that are not ASCII control characters, in their
  order; in particular its result has no line break.
\<close>

theorem sanitize_filters:
  "SanitizeLogValue s = filter (\<lambda>c. 32 \<le> (of_char c :: nat) \<and> (of_char c :: nat) \<noteq> 127) s"
  by (auto simp: SanitizeLogValue_def replace_all_empty intro: filter_cong)

text \<open>
  C16: registration happens once.  A registration reply without an error means that the subject is a valid slug
  that had no ledger, that its ledger now exists with the verifier key of the reply, and that the last entry of
  its log is a receipt whose publisher is the registrant.  Repeating the request, at any time and after any other
  activity, is refused and changes nothing.
\<close>

theorem register_once:
  assumes "tessera_log (leTessera E) entries integrated" "receipt_codec (leReceipts E)"
    and "handleRegister E (print_json (register_request_json req)) s = Some (resp, s')"
    and "unmarshal_register_response resp = Inr r" "rpError r = []"
    and "(locker_step E)\<^sup>*\<^sup>* s' s2"
  shows "valid_subject (rrSubjectID req) \<and> GetLedger (lsLocker s) (rrSubjectID req) = None
    \<and> (\<exists>l u. GetLedger (lsLocker s') (rrSubjectID req) = Some l \<and> VerifierKey l = rpVerifierKey r
        \<and> UnwrapContent (last (entries (ldLog l))) = Inr u
        \<and> urPublisher u = \<lparr>pbIssuer = rrRegistrantIssuer req, pbSub = rrRegistrantSub req\<rparr>)
    \<and> handleRegister (at_time E t sch tmp) (print_json (register_request_json req)) s2
        = Some (register_error (''creating ledger: ledger already exists: '' @ rrSubjectID req), s2)"
proof -
  obtain l receipt es where d: "GetLedger (lsLocker s) (rrSubjectID req) = None" "valid_subject (rrSubjectID req)"
      "GetLedger (lsLocker s') (rrSubjectID req) = Some l" "VerifierKey l = rpVerifierKey r"
      "Wrap (leReceipts E) (leNow E) (registration_data req)
         \<lparr>pbIssuer = rrRegistrantIssuer req, pbSub = rrRegistrantSub req\<rparr> (rrSubjectID req) ''subject-registration'' = Inr receipt"
      "entries (ldLog l) = es @ [receipt]"
    using assms(1,3,4,5) by (rule handleRegister_done)
  obtain u where u: "UnwrapContent receipt = Inr u" "urPublisher u = \<lparr>pbIssuer = rrRegistrantIssuer req, pbSub = rrRegistrantSub req\<rparr>"
    using receipt_codec.Wrap_Unwrap [OF assms(2) d(5)] by auto
  obtain l2 where "GetLedger (lsLocker s2) (rrSubjectID req) = Some l2"
    using tessera_log.locker_run_invariant(1) [OF assms(1,6) refl] d(3) by (auto simp: locker_grows_def)
  then have "handleRegister (at_time E t sch tmp) (print_json (register_request_json req)) s2
      = Some (register_error (''creating ledger: ledger already exists: '' @ rrSubjectID req), s2)"
    using d(2) by (simp add: handleRegister_def CreateLedger_def ValidateSubjectID_None [THEN iffD2])
  then show ?thesis using d u by auto
qed

definition ex_register :: RegisterRequest where
  "ex_register = \<lparr>rrSubjectID = ''app'', rrRegistrantIssuer = ''i'', rrRegistrantSub = ''s''\<rparr>"

definition ex_empty :: "(mem_log, (string \<times> bytes) list) locker_state" where
  "ex_empty = \<lparr>lsLocker = \<lparr>lkBasePath = ''/data'', lkLedgers = []\<rparr>, lsFiles = ex_fs, lsWorld = []\<rparr>"

lemma ex_create: "\<exists>l s1. CreateLedger mem_env ''app'' ex_empty = Some (Inr l, s1)"
proof -
  have "ValidateSubjectID ''app'' = None" by code_simp
  moreover have "fst (loadOrGenerateKey mem_notes ''/data/.tmp'' (path_join [path_join [''/data'', ''app''], ''signer.key''])
      (ledgerOrigin ''app'') ex_fs) = Inr (''PRIVATE+KEY'', ''VERIFIER'')" by code_simp
  then obtain f where "loadOrGenerateKey mem_notes ''/data/.tmp'' (path_join [path_join [''/data'', ''app''], ''signer.key''])
      (ledgerOrigin ''app'') ex_fs = (Inr (''PRIVATE+KEY'', ''VERIFIER''), f)" by (metis prod.collapse)
  moreover have "rebuildDigestIndex mem_tessera evs (l :: mem_log Ledger) = Some (None, l)" if "ldLog l = \<lparr>mlEntries = [], mlIntegrated = 0\<rparr>" for evs l
    using that by (simp add: rebuildDigestIndex_def integratedSize_def mem_tessera_def mem_integrated_def)
  moreover have "note_signer mem_notes k = None" for k by (simp add: mem_notes_def)
  ultimately show ?thesis
    by (simp add: CreateLedger_def ex_empty_def mem_env_def GetLedger_def NewLedger_def Let_def mem_open_def)
qed

theorem register_once_witness:
  "\<exists>resp s' r. handleRegister mem_env (print_json (register_request_json ex_register)) ex_empty = Some (resp, s')
     \<and> unmarshal_register_response resp = Inr r \<and> rpError r = []
     \<and> handleRegister mem_env (print_json (register_request_json ex_register)) s'
        = Some (register_error ''creating ledger: ledger already exists: app'', s')"
proof -
  have T: "leTessera mem_env = mem_tessera" "leReceipts mem_env = plain_codec" by (simp_all add: mem_env_def)
  have at: "at_time mem_env 0 (\<lambda>_. [Tick]) ''/data/.tmp'' = mem_env" by (simp add: at_time_def mem_env_def)
  obtain l s1 where c: "CreateLedger mem_env ''app'' ex_empty = Some (Inr l, s1)" using ex_create by blast
  have "wf_json (JObj [(''registrantIssuer'', JStr ''i''), (''registrantSub'', JStr ''s''), (''subjectId'', JStr ''app'')])" by simp
  from plain_wraps [OF json_parse_print [OF this] this]
  obtain w where w: "Wrap plain_codec (leNow mem_env) (registration_data ex_register)
      \<lparr>pbIssuer = ''i'', pbSub = ''s''\<rparr> ''app'' ''subject-registration'' = Inr w"
    unfolding registration_data_def ex_register_def by fastforce
  obtain i l' where "Seal mem_tessera w l = (Inr i, l')" by (simp add: Seal_def mem_tessera_def)
  moreover obtain e w' where "PublishSubjectRegistered (leSdk mem_env) (leBus mem_env) (leSource mem_env) ''app'' (lsWorld s1) = (e, w')"
    by fastforce
  ultimately obtain s' where h: "handleRegister mem_env (print_json (register_request_json ex_register)) ex_empty
      = Some (print_json (register_response_json \<lparr>rpVerifierKey = VerifierKey l', rpError = []\<rparr>), s')"
    using c w T by (simp add: handleRegister_def ex_register_def)
  then show ?thesis
    using register_once [of mem_env mlEntries mem_integrated ex_register ex_empty _ s' _ s' 0 "\<lambda>_. [Tick]" "''/data/.tmp''", OF _ _ h]
      memlog.tessera_log_axioms plain.receipt_codec_axioms
    unfolding at T by (fastforce simp: ex_register_def)
qed


definition ex_trust :: SealTrustRequest where
  "ex_trust = \<lparr>stSubjectID = ''app'', stTrustedPublishers = [], stOperatorIssuer = ''i'', stOperatorSub = ''s''\<rparr>"


end
