(* ===== verification/LockerApi.thy ===== *)
theory LockerApi
  imports Locker ReadAccess
begin

text \<open>
  The HTTP API of the locker: the handlers (\<^verbatim>\<open>internal/locker/handler.go\<close>), the tile server
  (\<^verbatim>\<open>tileserver.go\<close>) and the generated wrappers that bind path parameters and register the routes
  (\<^verbatim>\<open>gen.openapi.go\<close>).  The chi router and the parameter binding of the runtime library are parameters.
\<close>

section \<open>Handlers\<close>

record LedgerInfo =
  liSubjectId :: string
  liVerifierKey :: string

definition ledger_info_json :: "LedgerInfo \<Rightarrow> json" where
  "ledger_info_json i = JObj [(''subjectId'', JStr (liSubjectId i)), (''verifierKey'', JStr (liVerifierKey i))]"

definition ledger_list_json :: "LedgerInfo list \<Rightarrow> json" where
  "ledger_list_json is = JObj [(''ledgers'', JArr (map ledger_info_json is))]"

definition verify_response_json :: "bool \<Rightarrow> int option \<Rightarrow> json" where
  "verify_response_json found idx =
     JObj ((''found'', JBool found) # (case idx of None \<Rightarrow> [] | Some i \<Rightarrow> [(''index'', JNum (show_int i))]))"

definition respondJSON :: "nat \<Rightarrow> json \<Rightarrow> response" where
  "respondJSON status data = json_response status data"

definition respondError :: "nat \<Rightarrow> string \<Rightarrow> response" where
  "respondError status message = respondJSON status (JObj [(''error'', JStr message)])"

fun ledger_infos :: "'l Locker \<Rightarrow> string list \<Rightarrow> LedgerInfo list" where
  "ledger_infos lk [] = []"
| "ledger_infos lk (subjectID # rest) =
     (case GetLedger lk subjectID of
        None \<Rightarrow> ledger_infos lk rest
      | Some ledger \<Rightarrow> \<lparr>liSubjectId = SubjectID ledger, liVerifierKey = VerifierKey ledger\<rparr> # ledger_infos lk rest)"

definition ListLedgers :: "'l Locker \<Rightarrow> response" where
  "ListLedgers lk = respondJSON 200 (ledger_list_json (ledger_infos lk (SubjectsOf lk)))"

definition api_GetLedger :: "'l Locker \<Rightarrow> string \<Rightarrow> response" where
  "api_GetLedger lk subjectID =
     (case GetLedger lk subjectID of
        None \<Rightarrow> respondError 404 ''ledger not found''
      | Some ledger \<Rightarrow>
          respondJSON 200 (ledger_info_json \<lparr>liSubjectId = SubjectID ledger, liVerifierKey = VerifierKey ledger\<rparr>))"

text \<open>\<open>None\<close> while the handler still waits for integration.\<close>

definition FetchReceipt ::
    "'l tessera \<Rightarrow> select_event list \<Rightarrow> string \<Rightarrow> int \<Rightarrow> 'l Locker \<Rightarrow> (response \<times> 'l Locker) option" where
  "FetchReceipt T evs subjectID index lk =
     (case GetLedger lk subjectID of
        None \<Rightarrow> Some (respondError 404 ''ledger not found'', lk)
      | Some ledger \<Rightarrow>
        if index < 0 then Some (respondError 400 ''index must be non-negative'', lk)
        else case Fetch T evs (nat index) ledger of
          None \<Rightarrow> None
        | Some (Inl err, ledger') \<Rightarrow>
            Some (if errors_is err ErrIndexOutOfRange then respondError 404 ''receipt not found''
                  else respondError 500 (error_text err), put_ledger subjectID ledger' lk)
        | Some (Inr receipt, ledger') \<Rightarrow>
            Some (\<lparr>rsStatus = 200, rsBody = Raw receipt\<rparr>, put_ledger subjectID ledger' lk))"

definition VerifyReceipt :: "'l Locker \<Rightarrow> string \<Rightarrow> string \<Rightarrow> response" where
  "VerifyReceipt lk subjectID digest =
     (case GetLedger lk subjectID of
        None \<Rightarrow> respondError 404 ''ledger not found''
      | Some ledger \<Rightarrow>
        if digest = [] then respondError 400 ''digest is required''
        else case VerifyDigest digest ledger of
          None \<Rightarrow> respondJSON 200 (verify_response_json False None)
        | Some idx \<Rightarrow> respondJSON 200 (verify_response_json True (Some (to_int64 idx))))"

definition locker_HealthCheck :: response where
  "locker_HealthCheck = respondJSON 200 (JObj [(''status'', JStr ''ok'')])"

section \<open>Tiles\<close>

definition tile_char :: "char \<Rightarrow> bool" where
  "tile_char c \<longleftrightarrow> is_alnum c \<or> c = CHR ''.''"

definition tilePathSegment :: rx where
  "tilePathSegment = rx_plus (Cls tile_char)"

text \<open>
  \<^verbatim>\<open>http.ServeFile\<close>: it refuses a request path with a \<^verbatim>\<open>..\<close> element, redirects index pages and otherwise
  sends the file.
\<close>

definition contains_dotdot :: "string \<Rightarrow> bool" where
  "contains_dotdot p \<longleftrightarrow> ''..'' \<in> set (concat (map (split_on (CHR 0x5C)) (split_on (CHR ''/'') p)))"

definition serve_file :: "fs \<Rightarrow> string \<Rightarrow> string \<Rightarrow> response" where
  "serve_file f url path =
     (if contains_dotdot url then http_error ''invalid URL path'' 400
      else if has_suffix url ''/index.html'' then \<lparr>rsStatus = 301, rsBody = Text []\<rparr>
      else case read_file f path of
        Inr d \<Rightarrow> \<lparr>rsStatus = 200, rsBody = Raw d\<rparr>
      | Inl e \<Rightarrow> if errors_is e ErrNotExist then http_error ''404 page not found'' 404
                 else http_error ''500 Internal Server Error'' 500)"

definition serveTesseraFile :: "fs \<Rightarrow> 'l Locker \<Rightarrow> string \<Rightarrow> string \<Rightarrow> string \<Rightarrow> response" where
  "serveTesseraFile f lk url subjectID filePath =
     (case GetLedger lk subjectID of
        None \<Rightarrow> http_error ''ledger not found'' 404
      | Some ledger \<Rightarrow>
        let fullPath = path_join [TesseraStoragePath ledger, filePath];
            storagePath = TesseraStoragePath ledger
        in if \<not> has_prefix (path_clean fullPath) (path_clean storagePath) then http_error ''invalid path'' 400
           else case stat_file f fullPath of
             Inl err \<Rightarrow> if errors_is err ErrNotExist then http_error ''file not found'' 404
                        else http_error ''error accessing file'' 500
           | Inr info \<Rightarrow>
             if info = Dir then http_error ''not a file'' 400
             else serve_file f url fullPath)"

definition serve_checkpoint :: "fs \<Rightarrow> 'l Locker \<Rightarrow> string \<Rightarrow> string \<Rightarrow> response" where
  "serve_checkpoint f lk url subjectID =
     (case ValidateSubjectID subjectID of
        Some err \<Rightarrow> http_error ''invalid subject ID'' 400
      | None \<Rightarrow> serveTesseraFile f lk url subjectID ''checkpoint'')"

definition serve_tile :: "fs \<Rightarrow> 'l Locker \<Rightarrow> string \<Rightarrow> string \<Rightarrow> string \<Rightarrow> string \<Rightarrow> string \<Rightarrow> response" where
  "serve_tile f lk url subjectID level index width =
     (case ValidateSubjectID subjectID of
        Some err \<Rightarrow> http_error ''invalid subject ID'' 400
      | None \<Rightarrow>
        if \<not> rx_match tilePathSegment level \<or> \<not> rx_match tilePathSegment index \<or> \<not> rx_match tilePathSegment width
        then http_error ''invalid tile path'' 400
        else serveTesseraFile f lk url subjectID (''tile/'' @ level @ ''/'' @ index @ ''/'' @ width))"

section \<open>Routes\<close>

datatype locker_op = OpCheckpoint | OpTile | OpHealthCheck | OpListLedgers | OpGetLedger | OpFetchReceipt | OpVerifyReceipt

definition tile_routes :: "(string \<times> string \<times> locker_op) list" where
  "tile_routes =
     [(''GET'', ''/ledgers/{subjectId}/checkpoint'', OpCheckpoint),
      (''GET'', ''/ledgers/{subjectId}/tile/{level}/{index}/{width}'', OpTile)]"

definition locker_openapi_routes :: "(string \<times> string \<times> locker_op) list" where
  "locker_openapi_routes =
     [(''GET'', ''/healthz'', OpHealthCheck), (''GET'', ''/ledgers'', OpListLedgers),
      (''GET'', ''/ledgers/{subjectId}'', OpGetLedger),
      (''GET'', ''/ledgers/{subjectId}/entry/{index}'', OpFetchReceipt),
      (''GET'', ''/ledgers/{subjectId}/verify/{digest}'', OpVerifyReceipt)]"

text \<open>The binding of styled parameters by the runtime library, for the two types the API uses.\<close>

record param_binding =
  bind_string :: "string \<Rightarrow> string \<Rightarrow> string res"
  bind_int64 :: "string \<Rightarrow> string \<Rightarrow> int res"

definition invalid_param :: "string \<Rightarrow> goerr \<Rightarrow> response" where
  "invalid_param name err = http_error (''Invalid format for parameter '' @ name @ '': '' @ error_text err) 400"

definition wrap_GetLedger :: "param_binding \<Rightarrow> (string \<Rightarrow> string) \<Rightarrow> 'l Locker \<Rightarrow> response" where
  "wrap_GetLedger B urlParam lk =
     (case bind_string B ''subjectId'' (urlParam ''subjectId'') of
        Inl err \<Rightarrow> invalid_param ''subjectId'' err
      | Inr subjectId \<Rightarrow> api_GetLedger lk subjectId)"

definition wrap_FetchReceipt ::
    "param_binding \<Rightarrow> 'l tessera \<Rightarrow> select_event list \<Rightarrow> (string \<Rightarrow> string) \<Rightarrow> 'l Locker \<Rightarrow> (response \<times> 'l Locker) option" where
  "wrap_FetchReceipt B T evs urlParam lk =
     (case bind_string B ''subjectId'' (urlParam ''subjectId'') of
        Inl err \<Rightarrow> Some (invalid_param ''subjectId'' err, lk)
      | Inr subjectId \<Rightarrow>
     (case bind_int64 B ''index'' (urlParam ''index'') of
        Inl err \<Rightarrow> Some (invalid_param ''index'' err, lk)
      | Inr index \<Rightarrow> FetchReceipt T evs subjectId index lk))"

definition wrap_VerifyReceipt :: "param_binding \<Rightarrow> (string \<Rightarrow> string) \<Rightarrow> 'l Locker \<Rightarrow> response" where
  "wrap_VerifyReceipt B urlParam lk =
     (case bind_string B ''subjectId'' (urlParam ''subjectId'') of
        Inl err \<Rightarrow> invalid_param ''subjectId'' err
      | Inr subjectId \<Rightarrow>
     (case bind_string B ''digest'' (urlParam ''digest'') of
        Inl err \<Rightarrow> invalid_param ''digest'' err
      | Inr digest \<Rightarrow> VerifyReceipt lk subjectId digest))"

text \<open>The operation a route calls, with the path parameters the router extracted.\<close>

definition serve_locker_op ::
    "param_binding \<Rightarrow> 'l tessera \<Rightarrow> select_event list \<Rightarrow> fs \<Rightarrow> string \<Rightarrow> (string \<Rightarrow> string) \<Rightarrow> locker_op \<Rightarrow> 'l Locker
       \<Rightarrow> (response \<times> 'l Locker) option" where
  "serve_locker_op B T evs f url urlParam op lk =
     (case op of
        OpCheckpoint \<Rightarrow> Some (serve_checkpoint f lk url (urlParam ''subjectId''), lk)
      | OpTile \<Rightarrow> Some (serve_tile f lk url (urlParam ''subjectId'') (urlParam ''level'') (urlParam ''index'') (urlParam ''width''), lk)
      | OpHealthCheck \<Rightarrow> Some (locker_HealthCheck, lk)
      | OpListLedgers \<Rightarrow> Some (ListLedgers lk, lk)
      | OpGetLedger \<Rightarrow> Some (wrap_GetLedger B urlParam lk, lk)
      | OpFetchReceipt \<Rightarrow> wrap_FetchReceipt B T evs urlParam lk
      | OpVerifyReceipt \<Rightarrow> Some (wrap_VerifyReceipt B urlParam lk, lk))"

text \<open>
  \<open>routed\<close> is what the router makes of the request: an operation with its path parameters, or an answer of its own.
  \<open>None\<close> while the handler still waits.
\<close>

definition locker_NewHandler ::
    "('s \<Rightarrow> request \<Rightarrow> Principal res \<times> 's) option \<Rightarrow> cedar \<Rightarrow> policy_set \<Rightarrow> MiddlewareConfig \<Rightarrow>
     (request \<Rightarrow> response + locker_op \<times> (string \<Rightarrow> string)) \<Rightarrow> param_binding \<Rightarrow> 'l tessera \<Rightarrow> select_event list \<Rightarrow> fs \<Rightarrow>
     request \<Rightarrow> 's \<Rightarrow> 'l Locker \<Rightarrow> (response \<times> 's \<times> 'l Locker) option" where
  "locker_NewHandler auth C policySet authzCfg routed B T evs f r st lk =
     protect auth C policySet authzCfg (\<lambda>resp st'. Some (resp, st', lk))
       (\<lambda>r' st'. case routed r' of
          Inl resp \<Rightarrow> Some (resp, st', lk)
        | Inr (op, urlParam) \<Rightarrow>
            map_option (\<lambda>(resp, lk'). (resp, st', lk')) (serve_locker_op B T evs f (rqPath r') urlParam op lk)) r st"

section \<open>Lemmas\<close>

lemma respondError_status [simp]: "rsStatus (respondError s m) = s" "rsBody (respondError s m) = Json (JObj [(''error'', JStr m)])"
  by (simp_all add: respondError_def respondJSON_def)

lemma respondJSON_status [simp]: "rsStatus (respondJSON s j) = s" "rsBody (respondJSON s j) = Json j"
  by (simp_all add: respondJSON_def)

lemma serve_file_ok: "serve_file f url p = \<lparr>rsStatus = 200, rsBody = Raw d\<rparr> \<Longrightarrow> fs_get f p = Some (File d)"
  by (auto simp: serve_file_def http_error_def read_file_def split: if_splits sum.splits option.splits fnode.splits)

lemma valid_subject_plain: "valid_subject k \<Longrightarrow> plain_elem k"
  using valid_subject_safe [of k] by (auto simp: plain_elem_def valid_subject_def)

lemma storage_path:
  assumes "list_all plain_elem bs" "bs \<noteq> []" "valid_subject k" "ledger_ok entries (abs_path bs) k l"
  shows "TesseraStoragePath l = abs_path bs @ CHR ''/'' # k @ ''/tessera''"
proof -
  have k: "plain_elem k" by (rule valid_subject_plain [OF assms(3)])
  have t: "plain_elem ''tessera''" by (simp add: plain_elem_def)
  have "ldStoragePath l = abs_path (bs @ [k])"
    using assms(4) path_join_plain [OF assms(1,2) k] by (simp add: ledger_ok_def)
  then have "TesseraStoragePath l = abs_path ((bs @ [k]) @ [''tessera''])"
    using path_join_plain [of "bs @ [k]" "''tessera''"] assms(1) k t by (simp add: TesseraStoragePath_def)
  then show ?thesis using abs_path_snoc [of "bs @ [k]" "''tessera''"] abs_path_snoc [OF assms(2), of k] by simp
qed

lemma key_path:
  assumes "list_all plain_elem bs" "bs \<noteq> []" "valid_subject k"
  shows "path_join [path_join [abs_path bs, k], ''signer.key''] = abs_path bs @ CHR ''/'' # k @ ''/signer.key''"
proof -
  have k: "plain_elem k" by (rule valid_subject_plain [OF assms(3)])
  have "plain_elem ''signer.key''" by (simp add: plain_elem_def)
  then show ?thesis
    using path_join_plain [OF assms(1,2) k] path_join_plain [of "bs @ [k]" "''signer.key''"] assms(1) k
      abs_path_snoc [of "bs @ [k]" "''signer.key''"] abs_path_snoc [OF assms(2), of k] by simp
qed

text \<open>Only the storage directory of the subject has the prefix that the check demands.\<close>

lemma storage_prefix_not_key:
  assumes "valid_subject k" "valid_subject k'" "p = base @ CHR ''/'' # k @ ''/tessera'' @ r"
  shows "p \<noteq> base @ CHR ''/'' # k' @ ''/signer.key''"
proof
  assume "p = base @ CHR ''/'' # k' @ ''/signer.key''"
  then have eq: "k @ CHR ''/'' # ''tessera'' @ r = k' @ CHR ''/'' # ''signer.key''" using assms(3) by simp
  have ns: "CHR ''/'' \<notin> set k" "CHR ''/'' \<notin> set k'" using assms(1,2) valid_subject_safe by blast+
  have "split_on (CHR ''/'') (k @ CHR ''/'' # ''tessera'' @ r) = k # split_on (CHR ''/'') (''tessera'' @ r)"
    by (rule split_on_append [OF ns(1)])
  moreover have "split_on (CHR ''/'') (k' @ CHR ''/'' # ''signer.key'') = k' # split_on (CHR ''/'') ''signer.key''"
    by (rule split_on_append [OF ns(2)])
  ultimately have "k = k'" using eq by (metis list.inject)
  then show False using eq by simp
qed

text \<open>What \<^verbatim>\<open>serveTesseraFile\<close> sends is a file whose path starts with the storage path of the ledger.\<close>

lemma serveTesseraFile_confined:
  assumes "GetLedger lk k = Some l" "is_rooted (TesseraStoragePath l)"
    and "path_clean (TesseraStoragePath l) = TesseraStoragePath l"
    and "serveTesseraFile f lk url k filePath = \<lparr>rsStatus = 200, rsBody = Raw d\<rparr>"
  obtains r where "fs_get f (TesseraStoragePath l @ r) = Some (File d)"
proof -
  let ?full = "path_join [TesseraStoragePath l, filePath]"
  have ok: "has_prefix (path_clean ?full) (TesseraStoragePath l)" "fs_get f ?full = Some (File d)"
    using assms(1,3,4) serve_file_ok
    by (auto simp: serveTesseraFile_def Let_def http_error_def split: if_splits sum.splits)
  have "TesseraStoragePath l \<noteq> []" using assms(2) by (auto simp: is_rooted_def has_prefix_def)
  then have "?full = path_clean (TesseraStoragePath l @ (if filePath = [] then [] else CHR ''/'' # filePath))"
    by (simp add: path_join_def)
  moreover have "is_rooted (TesseraStoragePath l @ x)" for x
    using assms(2) by (cases "TesseraStoragePath l") (auto simp: is_rooted_def has_prefix_def)
  ultimately have "\<exists>x. ?full = path_clean x \<and> is_rooted x" by blast
  then have "path_clean ?full = ?full" using path_clean_idem by auto
  then show thesis using ok that by (metis has_prefix_iff)
qed

text \<open>The base policies let nobody but a reader pass the guard.\<close>

lemma locker_reads_authorized:
  assumes "cedar_engine C" "cedar_parse C ''base.cedar'' data = Inr base_policies" "LoadEmbeddedPolicies C (Inr data) f [] = Inr ps"
    and "rqPath r \<noteq> ''/healthz''"
    and h: "locker_NewHandler (Some auth) C ps cfg routed B T evs files r st lk = Some (resp, st', lk')"
  shows "rsStatus resp \<in> {401, 403} \<and> lk' = lk \<or>
    (\<exists>p. auth st r = (Inr p, st') \<and> reader cfg p)"
proof -
  let ?answer = "\<lambda>resp st'. Some (resp, st', lk)"
  let ?handler = "\<lambda>r' st'. case routed r' of Inl resp \<Rightarrow> Some (resp, st', lk)
    | Inr (op, urlParam) \<Rightarrow> map_option (\<lambda>(resp, lk'). (resp, st', lk')) (serve_locker_op B T evs files (rqPath r') urlParam op lk)"
  note h' = h [unfolded locker_NewHandler_def embedded_base [OF assms(2,3)]]
  from assms(1,4) show ?thesis
  proof (cases rule: protect_cases [where a = auth and cfg = cfg and st = st and answer = ?answer and handler = ?handler])
    case (refused x st1)
    then show ?thesis using h' by auto
  next
    case (passed p r' st1)
    have "st' = st1" using h' unfolding passed(4) by (auto split: sum.splits prod.splits)
    then show ?thesis using passed(1,2) by blast
  qed
qed

section \<open>Properties\<close>


definition ex_tiles :: fs where
  "ex_tiles = ex_fs\<lparr>fsNodes := (''/data/app/tessera/tile/0/000/p.1'', File ''t'') # fsNodes ex_fs\<rparr>"


text \<open>
  C20: the answers of \<^verbatim>\<open>FetchReceipt\<close>.  404 means that the subject has no ledger and 400 that the index is
  negative; a 200 body is exactly the log entry at that index.  An index beyond the log of an existing ledger is
  never answered with 404: the request waits and then fails with 500.
\<close>

theorem fetch_receipt_answers:
  assumes "tessera_log T entries integrated" "FetchReceipt T evs k i lk = Some (resp, lk')"
    and "\<forall>c. CtxDone c \<in> set evs \<longrightarrow> \<not> errors_is c ErrIndexOutOfRange"
  shows "case GetLedger lk k of
      None \<Rightarrow> rsStatus resp = 404 \<and> lk' = lk
    | Some l \<Rightarrow> if i < 0 then rsStatus resp = 400 \<and> lk' = lk
        else rsStatus resp = 200 \<and> nat i < length (entries (ldLog l)) \<and> rsBody resp = Raw (entries (ldLog l) ! nat i)
          \<or> rsStatus resp = 500"
proof (cases "GetLedger lk k")
  case None
  then show ?thesis using assms(2) by (auto simp: FetchReceipt_def)
next
  case (Some l)
  show ?thesis
  proof (cases "i < 0")
    case True
    then show ?thesis using assms(2) Some by (auto simp: FetchReceipt_def)
  next
    case False
    obtain b l' where f: "Fetch T evs (nat i) l = Some (b, l')"
      using assms(2) Some False by (auto simp: FetchReceipt_def split: option.splits)
    show ?thesis
    proof (cases b)
      case (Inl e)
      then show ?thesis
        using assms(2) Some False f tessera_log.Fetch_no_range_error [OF assms(1) f [unfolded Inl] assms(3)]
        by (auto simp: FetchReceipt_def)
    next
      case (Inr d)
      then show ?thesis
        using assms(2) Some False f tessera_log.Fetch_done [OF assms(1) f [unfolded Inr]] by (auto simp: FetchReceipt_def)
    qed
  qed
qed

theorem fetch_receipt_answers_witness:
  "\<exists>resp lk'. FetchReceipt mem_tessera [Tick, Timeout] ''app'' 7 (lsLocker ex_locker) = Some (resp, lk') \<and> rsStatus resp = 500"
proof -
  obtain resp lk' where f: "FetchReceipt mem_tessera [Tick, Timeout] ''app'' 7 (lsLocker ex_locker) = Some (resp, lk')"
    using ex_locker_ledger
    by (simp add: FetchReceipt_def Fetch_def Let_def mem_tessera_def mem_integrated_def ex_ledger_def)
  have "\<forall>c. CtxDone c \<in> set [Tick, Timeout] \<longrightarrow> \<not> errors_is c ErrIndexOutOfRange" by simp
  from fetch_receipt_answers [OF memlog.tessera_log_axioms f this] show ?thesis
    using f ex_locker_ledger by (simp add: ex_ledger_def)
qed


lemma ex_verify_locker: "locker_ok mlEntries (ex_locker\<lparr>lsLocker := put_ledger ''app'' ex_sealed (lsLocker ex_locker)\<rparr>)"
proof -
  have p: "path_join [''/data'', ''app''] = ''/data/app''" by code_simp
  have "locker_ok mlEntries ex_locker"
    by (auto simp: locker_ok_def ex_locker_def GetLedger_def ledger_ok_def ex_ledger_def index_sound_def p split: if_splits)
  then show ?thesis by (rule memlog.locker_seal_step(2) [OF ex_locker_ledger ex_sealed, rotated]) simp
qed


end
