(* ===== verification/Validate.thy ===== *)
theory Validate
  imports GoFiles
begin

text \<open>
  Validation of Gemara artifacts (\<^verbatim>\<open>internal/gateway/validate.go\<close>).  The JSON-Schema compiler and validator and the embedded
  schema files are parameters.  A Go map is iterated in any order; the orders are arguments of the constructor.
\<close>

section \<open>Validation errors\<close>

text \<open>A validation error of the schema library: its causes, its location in the instance and what it prints.\<close>

datatype schema_error = SchemaError "schema_error list" "string list" string

datatype validate_failure = FieldErrors schema_error | OtherFailure goerr

record ValidationError =
  veArtifactType :: string
  veDetails :: "string list"
  veError :: string

definition newValidationError :: "string \<Rightarrow> string list \<Rightarrow> ValidationError" where
  "newValidationError artifactType details =
     \<lparr>veArtifactType = artifactType, veDetails = details,
      veError = ''validation failed for '' @ artifactType @ '': '' @ join ''; '' details\<rparr>"

fun collectValidationErrors :: "schema_error \<Rightarrow> string list" where
  "collectValidationErrors (SchemaError causes loc kind) =
     (if causes = [] then [(if join ''/'' loc = [] then ''/'' else join ''/'' loc) @ '': '' @ kind] else [])
     @ concat (map collectValidationErrors causes)"

section \<open>The registry\<close>

record ('c, 'sch) schema_lib =
  schema_file :: "string \<Rightarrow> bytes res"
  new_compiler :: 'c
  add_resource :: "'c \<Rightarrow> string \<Rightarrow> json \<Rightarrow> goerr option \<times> 'c"
  compile_schema :: "'c \<Rightarrow> string \<Rightarrow> 'sch res \<times> 'c"
  schema_validate :: "'sch \<Rightarrow> (string \<times> json) list \<Rightarrow> validate_failure option"

definition schemaFiles :: "(string \<times> string) list" where
  "schemaFiles =
     [(''EvaluationLog'', ''schemas/evaluation-log.json''), (''EnforcementLog'', ''schemas/enforcement-log.json''),
      (''AuditLog'', ''schemas/audit-log.json''), (''Policy'', ''schemas/policy.json''),
      (''MappingDocument'', ''schemas/mapping-document.json''), (''ControlCatalog'', ''schemas/control-catalog.json''),
      (''CapabilityCatalog'', ''schemas/capability-catalog.json''), (''GuidanceCatalog'', ''schemas/guidance-catalog.json''),
      (''ThreatCatalog'', ''schemas/threat-catalog.json''), (''RiskCatalog'', ''schemas/risk-catalog.json''),
      (''Lexicon'', ''schemas/lexicon.json''), (''VectorCatalog'', ''schemas/vector-catalog.json''),
      (''PrincipleCatalog'', ''schemas/principle-catalog.json'')]"

type_synonym 'sch SchemaRegistry = "(string \<times> 'sch) list"

fun add_schemas :: "('c, 'sch) schema_lib \<Rightarrow> (string \<times> string) list \<Rightarrow> 'c \<Rightarrow> 'c res" where
  "add_schemas L [] c = Inr c"
| "add_schemas L ((artifactType, schemaFile) # rest) c =
     (case schema_file L schemaFile of
        Inl err \<Rightarrow> Inl (ErrorfW (''read schema '' @ schemaFile @ '': '') err [])
      | Inr schemaBytes \<Rightarrow>
     (case json_parse schemaBytes of
        Inl err \<Rightarrow> Inl (ErrorfW (''unmarshal schema '' @ schemaFile @ '': '') err [])
      | Inr schemaData \<Rightarrow>
     (case add_resource L c schemaFile schemaData of
        (Some err, c') \<Rightarrow> Inl (ErrorfW (''add schema resource '' @ schemaFile @ '': '') err [])
      | (None, c') \<Rightarrow> add_schemas L rest c')))"

fun compile_schemas :: "('c, 'sch) schema_lib \<Rightarrow> (string \<times> string) list \<Rightarrow> 'c \<Rightarrow> 'sch SchemaRegistry res" where
  "compile_schemas L [] c = Inr []"
| "compile_schemas L ((artifactType, schemaFile) # rest) c =
     (case compile_schema L c schemaFile of
        (Inl err, c') \<Rightarrow> Inl (ErrorfW (''compile schema '' @ schemaFile @ '': '') err [])
      | (Inr schema, c') \<Rightarrow>
     (case compile_schemas L rest c' of
        Inl err \<Rightarrow> Inl err
      | Inr schemas \<Rightarrow> Inr ((artifactType, schema) # schemas)))"

definition NewSchemaRegistry ::
    "('c, 'sch) schema_lib \<Rightarrow> (string \<times> string) list \<Rightarrow> (string \<times> string) list \<Rightarrow> 'sch SchemaRegistry res" where
  "NewSchemaRegistry L order1 order2 =
     (case add_schemas L order1 (new_compiler L) of
        Inl err \<Rightarrow> Inl err
      | Inr compiler \<Rightarrow> compile_schemas L order2 compiler)"

text \<open>\<^verbatim>\<open>artifact["metadata"]["type"]\<close> when both are there and of their types; empty otherwise.\<close>

definition metadata_type :: "(string \<times> json) list \<Rightarrow> string" where
  "metadata_type artifact =
     (case jget_obj artifact ''metadata'' of
        None \<Rightarrow> []
      | Some metadata \<Rightarrow> (case jget_str metadata ''type'' of None \<Rightarrow> [] | Some t \<Rightarrow> t))"

definition field_errors :: "validate_failure \<Rightarrow> string list" where
  "field_errors f = (case f of FieldErrors ve \<Rightarrow> collectValidationErrors ve | OtherFailure err \<Rightarrow> [error_text err])"

definition unsupported_detail :: "string \<Rightarrow> 'sch SchemaRegistry \<Rightarrow> string" where
  "unsupported_detail t schemas =
     ''unsupported artifact type '' @ (CHR 0x27 # t @ [CHR 0x27]) @ '', supported types: ['' @ join '' '' (sort (map fst schemas)) @ '']''"

definition Validate :: "('c, 'sch) schema_lib \<Rightarrow> 'sch SchemaRegistry \<Rightarrow> bytes \<Rightarrow> ValidationError option" where
  "Validate L schemas artifactBytes =
     (case unmarshal_map artifactBytes of
        Inl err \<Rightarrow> Some (newValidationError ''unknown'' [''invalid JSON: '' @ error_text err])
      | Inr artifact \<Rightarrow>
        let metadataType = metadata_type artifact in
        if metadataType \<noteq> [] then
          (case map_of schemas metadataType of
             None \<Rightarrow> Some (newValidationError metadataType [unsupported_detail metadataType schemas])
           | Some schema \<Rightarrow>
             (case schema_validate L schema artifact of
                Some f \<Rightarrow> Some (newValidationError metadataType (field_errors f))
              | None \<Rightarrow> None))
        else (case jget_str artifact ''type'' of
          None \<Rightarrow> None
        | Some topLevelType \<Rightarrow>
          (case map_of schemas topLevelType of
             None \<Rightarrow> None
           | Some schema \<Rightarrow>
             (case schema_validate L schema artifact of
                Some f \<Rightarrow> Some (newValidationError topLevelType (field_errors f))
              | None \<Rightarrow> None))))"

section \<open>Lemmas\<close>

lemma collect_nonempty: "collectValidationErrors e \<noteq> []"
proof (induction e rule: collectValidationErrors.induct)
  case (1 causes loc kind)
  then show ?case by (cases causes) simp_all
qed

lemma compile_schemas_keys:
  "compile_schemas L files c = Inr schemas \<Longrightarrow> map fst schemas = map fst files"
  by (induction L files c arbitrary: schemas rule: compile_schemas.induct) (auto split: sum.splits prod.splits)

text \<open>The schema an artifact must satisfy: the one of its \<^verbatim>\<open>metadata.type\<close>, or of its \<^verbatim>\<open>type\<close> if that is known.\<close>

definition conforms :: "('c, 'sch) schema_lib \<Rightarrow> 'sch SchemaRegistry \<Rightarrow> (string \<times> json) list \<Rightarrow> bool" where
  "conforms L schemas a \<longleftrightarrow>
     (if metadata_type a \<noteq> [] then \<exists>s. map_of schemas (metadata_type a) = Some s \<and> schema_validate L s a = None
      else \<forall>t s. jget_str a ''type'' = Some t \<and> map_of schemas t = Some s \<longrightarrow> schema_validate L s a = None)"

lemma Validate_None: "Validate L schemas b = None \<longleftrightarrow> (\<exists>a. unmarshal_map b = Inr a \<and> conforms L schemas a)"
proof (cases "unmarshal_map b")
  case (Inr a)
  show ?thesis
  proof (cases "metadata_type a = []")
    case True
    with Inr show ?thesis
      by (simp add: Validate_def conforms_def Let_def split: option.splits)
  next
    case False
    with Inr show ?thesis
      by (cases "map_of schemas (metadata_type a)") (simp_all add: Validate_def conforms_def Let_def split: option.splits)
  qed
qed (simp add: Validate_def)

lemma field_errors_nonempty: "field_errors f \<noteq> []"
  by (cases f) (simp_all add: field_errors_def collect_nonempty del: collectValidationErrors.simps)

lemma newValidationError_simps [simp]:
  "veDetails (newValidationError t ds) = ds" "veArtifactType (newValidationError t ds) = t"
  by (simp_all add: newValidationError_def)

lemma Validate_details: "Validate L schemas b = Some v \<Longrightarrow> veDetails v \<noteq> []"
  by (auto simp: Validate_def Let_def field_errors_nonempty split: sum.splits option.splits if_splits)

text \<open>A library in which a schema is the list of the fields it requires.\<close>

definition required_fields :: "json \<Rightarrow> string list" where
  "required_fields j = (case j of JArr js \<Rightarrow> List.map_filter (\<lambda>x. case x of JStr f \<Rightarrow> Some f | _ \<Rightarrow> None) js | _ \<Rightarrow> [])"

definition plain_schemas :: "((string \<times> json) list, string list) schema_lib" where
  "plain_schemas = \<lparr>schema_file = (\<lambda>f. Inr (print_json (JArr [JStr ''metadata'']))), new_compiler = [],
     add_resource = (\<lambda>c f j. (None, (f, j) # c)),
     compile_schema = (\<lambda>c f. (case map_of c f of None \<Rightarrow> Inl ErrNotExist | Some j \<Rightarrow> Inr (required_fields j), c)),
     schema_validate = (\<lambda>fs a. case filter (\<lambda>f. jget a f = None) fs of [] \<Rightarrow> None
       | missing \<Rightarrow> Some (FieldErrors (SchemaError (map (\<lambda>f. SchemaError [] [f] ''required'') missing) [] ''invalid'')))\<rparr>"

section \<open>Properties\<close>

text \<open>In whatever order the schemas are loaded, the registry accepts exactly the JSON objects that conform: an
  artifact with a \<^verbatim>\<open>metadata.type\<close> must name one of the thirteen Gemara types and satisfy its schema, one with only a top-level
  \<^verbatim>\<open>type\<close> must satisfy that type's schema if there is one.  A rejection always carries at least one detail.\<close>

theorem validate_accepts_conforming:
  assumes "NewSchemaRegistry L order1 order2 = Inr schemas" "set order2 = set schemaFiles"
  shows "(Validate L schemas b = None \<longleftrightarrow> (\<exists>a. unmarshal_map b = Inr a \<and> conforms L schemas a \<and>
           metadata_type a \<in> insert [] (fst ` set schemaFiles)))
       \<and> (\<forall>v. Validate L schemas b = Some v \<longrightarrow> veDetails v \<noteq> [])"
proof -
  have "fst ` set schemas = fst ` set schemaFiles"
  proof -
    obtain c where "compile_schemas L order2 c = Inr schemas"
      using assms(1) by (auto simp: NewSchemaRegistry_def split: sum.splits)
    then have "set (map fst schemas) = set (map fst order2)" using compile_schemas_keys by metis
    then show ?thesis using assms(2) by simp
  qed
  then have k: "conforms L schemas a \<Longrightarrow> metadata_type a \<in> insert [] (fst ` set schemaFiles)" for a
    by (cases "metadata_type a = []") (auto simp: conforms_def dest!: map_of_SomeD dest: image_eqI [of _ fst, OF sym [OF fst_conv]])
  have "unmarshal_map b = Inr a \<and> conforms L schemas a \<longleftrightarrow>
      unmarshal_map b = Inr a \<and> conforms L schemas a \<and> metadata_type a \<in> insert [] (fst ` set schemaFiles)" for a
    using k [of a] by (simp only: HOL.conj_ac) fast
  then show ?thesis using Validate_None [of L schemas b] Validate_details [of L schemas b] by simp
qed

definition ex_schemas :: "string list SchemaRegistry" where
  "ex_schemas = map (\<lambda>(t, _). (t, [''metadata''])) schemaFiles"

theorem validate_accepts_conforming_witness:
  "Validate plain_schemas ex_schemas ''{}'' = None \<and>
   (\<exists>v. Validate plain_schemas ex_schemas (print_json (JObj [(''type'', JStr ''Policy'')])) = Some v \<and> veDetails v \<noteq> [])"
proof -
  have r: "NewSchemaRegistry plain_schemas schemaFiles schemaFiles = Inr ex_schemas" by code_simp
  have a: "Validate plain_schemas ex_schemas ''{}'' = None" by code_simp
  have b: "Validate plain_schemas ex_schemas (print_json (JObj [(''type'', JStr ''Policy'')])) \<noteq> None" by code_simp
  show ?thesis
    using validate_accepts_conforming [OF r refl, of "print_json (JObj [(''type'', JStr ''Policy'')])"] a b by (auto simp del: print_json.simps)
qed

end
