(* ===== verification/Gateway.thy ===== *)
theory Gateway
  imports Authn Validate Receipt
begin

text \<open>
  The gateway (\<^verbatim>\<open>internal/gateway\<close>): ingest of artifacts, registration of subjects, modification of trust, the subject-id
  middleware and the routes of \<^verbatim>\<open>cmd/gateway/main.go\<close> with their middlewares.  The message bus, the CloudEvents SDK, the
  receipt libraries, the schema library, the JWT library and the Cedar engine are parameters; the identifier of a job
  is an argument.
\<close>

section \<open>The handler\<close>

definition MaxBodySize :: nat where "MaxBodySize = 256 * 1024"
definition ContentTypeDSSE :: string where "ContentTypeDSSE = ''application/vnd.dsse+json''"
definition HeaderSubjectID :: string where "HeaderSubjectID = ''X-Subject-ID''"

definition gateway_source :: string where "gateway_source = ''complytime-gateway''"

text \<open>\<open>geParseKey\<close> is \<^verbatim>\<open>jwk.ParseKey\<close>; its result says whether the key has a private part \<^verbatim>\<open>d\<close>.\<close>

record ('s, 'w, 'c, 'sch, 'k) gateway_env =
  geKV :: "'s kv"
  geBus :: "'w bus"
  geSDK :: ce_sdk
  geReceipts :: receipt_lib
  geSchemas :: "('c, 'sch) schema_lib"
  geParseKey :: "json option \<Rightarrow> bool res"
  geJWX :: "'k jwx"
  geCedar :: cedar
  gePolicies :: policy_set
  geAuthz :: MiddlewareConfig

record ('s, 'w, 'sch) GatewayHandler =
  ghTrust :: "'s TrustStore"
  ghWorld :: 'w
  ghSchemas :: "'sch SchemaRegistry"
  ghRegistry :: "'s TrustStore IssuerRegistry option"

definition NewHandler :: "'s TrustStore \<Rightarrow> 'w \<Rightarrow> 'sch SchemaRegistry \<Rightarrow> ('s, 'w, 'sch) GatewayHandler" where
  "NewHandler trustStore w schemas = \<lparr>ghTrust = trustStore, ghWorld = w, ghSchemas = schemas, ghRegistry = None\<rparr>"

definition WithRegistry :: "('s, 'w, 'sch) GatewayHandler \<Rightarrow> 's TrustStore IssuerRegistry \<Rightarrow> ('s, 'w, 'sch) GatewayHandler" where
  "WithRegistry h registry = h\<lparr>ghRegistry := Some registry\<rparr>"

section \<open>Ingest\<close>

definition body_subject :: "(string \<times> json) list \<Rightarrow> string" where
  "body_subject artifact =
     (let fromTarget = (case jget_obj artifact ''target'' of
            None \<Rightarrow> []
          | Some target \<Rightarrow> (case jget_str target ''id'' of None \<Rightarrow> [] | Some i \<Rightarrow> i)) in
      if fromTarget = [] then (case jget_str artifact ''subjectId'' of None \<Rightarrow> [] | Some i \<Rightarrow> i) else fromTarget)"

definition artifact_type :: "(string \<times> json) list \<Rightarrow> string" where
  "artifact_type artifact =
     (let fromMetadata = (case jget_obj artifact ''metadata'' of
            None \<Rightarrow> ''unknown''
          | Some metadata \<Rightarrow> (case jget_str metadata ''type'' of None \<Rightarrow> ''unknown'' | Some t \<Rightarrow> t)) in
      if fromMetadata = ''unknown'' then (case jget_str artifact ''type'' of None \<Rightarrow> ''unknown'' | Some t \<Rightarrow> t) else fromMetadata)"

definition validation_error_json :: "ValidationError \<Rightarrow> json" where
  "validation_error_json v = JObj [(''artifactType'', JStr (veArtifactType v)), (''details'', JArr (map JStr (veDetails v))),
     (''error'', JStr (veError v))]"

text \<open>The type of the artifact in the body, or the answer that rejects it.\<close>

definition classify :: "('c, 'sch) schema_lib \<Rightarrow> 'sch SchemaRegistry \<Rightarrow> string \<Rightarrow> string \<Rightarrow> bytes \<Rightarrow> response + string" where
  "classify L schemas contentType subjectID body =
     (if contentType = ContentTypeDSSE then Inr ''dsse''
      else case unmarshal_map body of
        Inl err \<Rightarrow> Inl (http_error ''Invalid JSON'' 400)
      | Inr artifact \<Rightarrow>
        if body_subject artifact \<noteq> [] \<and> body_subject artifact \<noteq> subjectID
        then Inl (http_error ''X-Subject-ID header does not match artifact body'' 400)
        else (case Validate L schemas body of
           Some ve \<Rightarrow> Inl (json_response 422 (validation_error_json ve))
         | None \<Rightarrow> Inr (artifact_type artifact)))"

definition publish_ingest ::
    "('s, 'w, 'c, 'sch, 'k) gateway_env \<Rightarrow> string \<Rightarrow> IngestRef \<Rightarrow> PublisherIdentity \<Rightarrow> ('s, 'w, 'sch) GatewayHandler
       \<Rightarrow> response \<times> ('s, 'w, 'sch) GatewayHandler" where
  "publish_ingest E jobID ref publisher h =
     (case js_publish (geBus E) (ghWorld h) SubjectIngest (marshal_ingest_ref ref) of
        (Some err, w) \<Rightarrow> (http_error (''Failed to publish to JetStream: '' @ error_text err) 500, h\<lparr>ghWorld := w\<rparr>)
      | (None, w) \<Rightarrow>
        let (_, w') = PublishEvidenceIngested (geSDK E) (geBus E) gateway_source
              \<lparr>eiContentDigest = irContentDigest ref, eiArtifactType = irArtifactType ref, eiStorageRef = [],
               eiSubjectID = irSubjectID ref, eiPublisher = publisher, eiShardID = None\<rparr> w in
        (json_response 202 (JObj [(''jobId'', JStr jobID)]), h\<lparr>ghWorld := w'\<rparr>))"

definition IngestArtifact ::
    "('s, 'w, 'c, 'sch, 'k) gateway_env \<Rightarrow> time \<Rightarrow> string \<Rightarrow> request \<Rightarrow> ('s, 'w, 'sch) GatewayHandler
       \<Rightarrow> response \<times> ('s, 'w, 'sch) GatewayHandler" where
  "IngestArtifact E now jobID r h =
     (let (issuer, sub) = GetPublisher (rqContext r) in
      if issuer = [] \<or> sub = [] then (http_error ''Unauthorized: missing publisher identity'' 401, h)
      else case map_sum (\<lambda>e. e) (take MaxBodySize) (rqBody r) of
        Inl err \<Rightarrow> (http_error ''Failed to read request body'' 400, h)
      | Inr body \<Rightarrow>
        if body = [] then (http_error ''Empty request body'' 400, h)
        else
          let contentDigest = hex_encode (sha256 body); subjectID = header_get r HeaderSubjectID in
          if subjectID = [] then (http_error ''Missing X-Subject-ID header'' 400, h)
          else case ValidateSubjectID subjectID of
            Some err \<Rightarrow> (http_error (''Invalid subject ID: '' @ error_text err) 400, h)
          | None \<Rightarrow>
         (case classify (geSchemas E) (ghSchemas h) (header_get r ''Content-Type'') subjectID body of
            Inl resp \<Rightarrow> (resp, h)
          | Inr artifactType \<Rightarrow>
         (case Wrap (geReceipts E) now body \<lparr>pbIssuer = issuer, pbSub = sub\<rparr> subjectID artifactType of
            Inl err \<Rightarrow> (http_error (''Failed to wrap receipt: '' @ error_text err) 500, h)
          | Inr receiptBytes \<Rightarrow>
            publish_ingest E jobID \<lparr>irJobID = jobID, irSubjectID = subjectID, irContentDigest = contentDigest,
              irArtifactType = artifactType, irReceiptBytes = receiptBytes\<rparr> \<lparr>piIssuer = issuer, piSub = sub\<rparr> h)))"

definition gateway_HealthCheck :: response where
  "gateway_HealthCheck = json_response 200 (JObj [(''status'', JStr ''ok'')])"

section \<open>Administration\<close>

text \<open>The body of a registration.  A repeated \<^verbatim>\<open>scannerJwk\<close> assigns into the same struct; \<^verbatim>\<open>null\<close> clears it.\<close>

record registration_body =
  rbSubjectID :: string
  rbTrustedPublishers :: "TrustEntry list"
  rbScannerJWK :: "JWKRecord option"

fun assign_scanner :: "JWKRecord option \<Rightarrow> json list \<Rightarrow> JWKRecord option res" where
  "assign_scanner v [] = Inr v"
| "assign_scanner v (JNull # js) = assign_scanner None js"
| "assign_scanner v (JObj ms # js) =
     (let old = (case v of None \<Rightarrow> \<lparr>jrJWK = None, jrNotAfter = zero_time\<rparr> | Some r \<Rightarrow> r) in
      case assign_time (jrNotAfter old) (jvals ms ''not_after'') of
        Inl e \<Rightarrow> Inl e
      | Inr t \<Rightarrow> assign_scanner (Some \<lparr>jrJWK = (case jfield ms ''jwk'' of None \<Rightarrow> jrJWK old | Some j \<Rightarrow> Some j), jrNotAfter = t\<rparr>) js)"
| "assign_scanner v (_ # js) = Inl JsonUnmarshalTypeError"

definition decode_registration :: "bytes res \<Rightarrow> registration_body res" where
  "decode_registration rbody =
     (case rbody of Inl e \<Rightarrow> Inl e | Inr body \<Rightarrow>
     (case json_decode_first body of Inl e \<Rightarrow> Inl e | Inr j \<Rightarrow>
     (case to_map j of Inl e \<Rightarrow> Inl e | Inr ms \<Rightarrow>
     (case field_str ms ''subjectId'' of Inl e \<Rightarrow> Inl e | Inr subj \<Rightarrow>
     (case field_trust_list ms ''trustedPublishers'' of Inl e \<Rightarrow> Inl e | Inr tps \<Rightarrow>
     (case assign_scanner None (jvals ms ''scannerJwk'') of Inl e \<Rightarrow> Inl e | Inr sc \<Rightarrow>
        Inr \<lparr>rbSubjectID = subj, rbTrustedPublishers = tps, rbScannerJWK = sc\<rparr>))))))"

definition scanner_issuer :: "TrustEntry list \<Rightarrow> string" where
  "scanner_issuer tps = (case find (\<lambda>tp. teIssuer tp = teSub tp) tps of None \<Rightarrow> [] | Some tp \<Rightarrow> teIssuer tp)"

text \<open>The checks of the scanner key; \<open>None\<close> lets the request continue.\<close>

definition check_scanner :: "(json option \<Rightarrow> bool res) \<Rightarrow> registration_body \<Rightarrow> response option" where
  "check_scanner parseKey body =
     (case rbScannerJWK body of
        None \<Rightarrow> None
      | Some scanner \<Rightarrow>
        if scanner_issuer (rbTrustedPublishers body) = []
        then Some (http_error ''scannerJwk requires a trusted publisher with issuer == sub (scanner identity convention)'' 400)
        else (case parseKey (jrJWK scanner) of
           Inl err \<Rightarrow> Some (http_error ''invalid scanner JWK: cannot parse key'' 400)
         | Inr True \<Rightarrow> Some (http_error ''invalid scanner JWK: must be a public key (contains private key material)'' 400)
         | Inr False \<Rightarrow> None))"

fun first_invalid :: "'s IssuerRegistry \<Rightarrow> TrustEntry list \<Rightarrow> (TrustEntry \<times> goerr) option" where
  "first_invalid reg [] = None"
| "first_invalid reg (tp # tps) =
     (case Registry_ValidateTrustEntry reg (teIssuer tp) (teSub tp) of
        Some err \<Rightarrow> Some (tp, err)
      | None \<Rightarrow> first_invalid reg tps)"

definition invalid_entry :: "'s IssuerRegistry option \<Rightarrow> TrustEntry list \<Rightarrow> (TrustEntry \<times> goerr) option" where
  "invalid_entry registry tps = (case registry of None \<Rightarrow> None | Some reg \<Rightarrow> first_invalid reg tps)"

text \<open>The error the locker reported, or of the answer that could not be decoded; empty when registration succeeded.
  A field that could be decoded keeps its value when another one could not.\<close>

fun last_str :: "string \<Rightarrow> json list \<Rightarrow> string" where
  "last_str v [] = v"
| "last_str v (JStr s # js) = last_str s js"
| "last_str v (_ # js) = last_str v js"

definition decoded_error :: "bytes \<Rightarrow> string" where
  "decoded_error data = (case unmarshal_map data of Inl e \<Rightarrow> [] | Inr ms \<Rightarrow> last_str [] (jvals ms ''error''))"

definition register_failure :: "bytes \<Rightarrow> string option" where
  "register_failure data =
     (case unmarshal_register_response data of
        Inr resp \<Rightarrow> if rpError resp = [] then None else Some (rpError resp)
      | Inl err \<Rightarrow> Some (if decoded_error data = [] then error_text err else decoded_error data))"

definition store_registration ::
    "'s kv \<Rightarrow> time \<Rightarrow> registration_body \<Rightarrow> 's TrustStore \<Rightarrow> response \<times> 's TrustStore" where
  "store_registration kv now body ts =
     (case SetPublisherTrust kv ts now (rbSubjectID body) (rbTrustedPublishers body) of
        (Some err, ts1) \<Rightarrow> (http_error ''failed to set publisher trust'' 500, ts1)
      | (None, ts1) \<Rightarrow>
     (case RegisterSubject kv ts1 now (rbSubjectID body) of
        (Some err, ts2) \<Rightarrow> (http_error ''failed to register subject'' 500, ts2)
      | (None, ts2) \<Rightarrow>
     (case rbScannerJWK body of
        None \<Rightarrow> (json_response 201 (JObj [(''subjectId'', JStr (rbSubjectID body))]), ts2)
      | Some scanner \<Rightarrow>
     (case StoreJWK kv ts2 now (scanner_issuer (rbTrustedPublishers body)) (jrJWK scanner) (jrNotAfter scanner) of
        (Some err, ts3) \<Rightarrow> (http_error ''failed to store scanner JWK'' 500, ts3)
      | (None, ts3) \<Rightarrow> (json_response 201 (JObj [(''subjectId'', JStr (rbSubjectID body))]), ts3)))))"

definition GatewayRegisterSubject ::
    "('s, 'w, 'c, 'sch, 'k) gateway_env \<Rightarrow> time \<Rightarrow> request \<Rightarrow> ('s, 'w, 'sch) GatewayHandler
       \<Rightarrow> response \<times> ('s, 'w, 'sch) GatewayHandler" where
  "GatewayRegisterSubject E now r h =
     (case decode_registration (rqBody r) of
        Inl err \<Rightarrow> (http_error ''invalid request body'' 400, h)
      | Inr body \<Rightarrow>
        if rbSubjectID body = [] then (http_error ''subjectId is required'' 400, h)
        else
     (case ValidateSubjectID (rbSubjectID body) of
        Some err \<Rightarrow> (http_error (error_text err) 400, h)
      | None \<Rightarrow>
        if rbTrustedPublishers body = [] then (http_error ''at least one trusted publisher required'' 400, h)
        else
     (case check_scanner (geParseKey E) body of
        Some resp \<Rightarrow> (resp, h)
      | None \<Rightarrow>
     (case invalid_entry (ghRegistry h) (rbTrustedPublishers body) of
        Some (tp, err) \<Rightarrow> (http_error (''invalid trusted publisher {issuer: '' @ quote (teIssuer tp) @ '', sub: '' @ quote (teSub tp) @
            ''}: '' @ error_text err) 400, h)
      | None \<Rightarrow>
        let (issuer, sub) = GetPublisher (rqContext r);
            payload = print_json (register_request_json
              \<lparr>rrSubjectID = rbSubjectID body, rrRegistrantIssuer = issuer, rrRegistrantSub = sub\<rparr>) in
        case nc_request (geBus E) (ghWorld h) SubjectAdminRegisterSubject payload of
          (Inl err, w) \<Rightarrow> (http_error (''locker request failed: '' @ error_text err) 500, h\<lparr>ghWorld := w\<rparr>)
        | (Inr data, w) \<Rightarrow>
       (case register_failure data of
          Some errMsg \<Rightarrow> (http_error (''registration failed: '' @ errMsg) 500, h\<lparr>ghWorld := w\<rparr>)
        | None \<Rightarrow>
         (case store_registration (geKV E) now body (ghTrust h) of
            (resp, ts) \<Rightarrow> (resp, h\<lparr>ghWorld := w, ghTrust := ts\<rparr>)))))))"

definition decode_trust_body :: "bytes res \<Rightarrow> TrustEntry list res" where
  "decode_trust_body rbody =
     (case rbody of Inl e \<Rightarrow> Inl e | Inr body \<Rightarrow>
     (case json_decode_first body of Inl e \<Rightarrow> Inl e | Inr j \<Rightarrow>
     (case to_map j of Inl e \<Rightarrow> Inl e | Inr ms \<Rightarrow> field_trust_list ms ''trustedPublishers'')))"

definition ModifyTrust ::
    "('s, 'w, 'c, 'sch, 'k) gateway_env \<Rightarrow> time \<Rightarrow> request \<Rightarrow> string \<Rightarrow> ('s, 'w, 'sch) GatewayHandler
       \<Rightarrow> response \<times> ('s, 'w, 'sch) GatewayHandler" where
  "ModifyTrust E now r subjectID h =
     (case ValidateSubjectID subjectID of
        Some err \<Rightarrow> (http_error (error_text err) 400, h)
      | None \<Rightarrow>
     (case SubjectExists (geKV E) (ghTrust h) now subjectID of
        Inl err \<Rightarrow> (http_error ''failed to check subject existence'' 500, h)
      | Inr False \<Rightarrow> (http_error (''subject '' @ subjectID @ '' not found'') 404, h)
      | Inr True \<Rightarrow>
     (case decode_trust_body (rqBody r) of
        Inl err \<Rightarrow> (http_error ''invalid request body'' 400, h)
      | Inr tps \<Rightarrow>
     (case invalid_entry (ghRegistry h) tps of
        Some (tp, err) \<Rightarrow> (http_error (''invalid trusted publisher: '' @ error_text err) 400, h)
      | None \<Rightarrow>
     (case SetPublisherTrust (geKV E) (ghTrust h) now subjectID tps of
        (Some err, ts) \<Rightarrow> (http_error ''failed to update trust'' 500, h\<lparr>ghTrust := ts\<rparr>)
      | (None, ts) \<Rightarrow>
        let (issuer, sub) = GetPublisher (rqContext r);
            payload = print_json (seal_trust_request_json
              \<lparr>stSubjectID = subjectID, stTrustedPublishers = tps, stOperatorIssuer = issuer, stOperatorSub = sub\<rparr>);
            (_, w) = nc_request (geBus E) (ghWorld h) SubjectAdminSealTrust payload in
        (json_response 200 (JObj [(''subjectId'', JStr subjectID)]), h\<lparr>ghTrust := ts, ghWorld := w\<rparr>))))))"

section \<open>Routes\<close>

definition SubjectIDExtractor :: "request \<Rightarrow> response + request" where
  "SubjectIDExtractor r =
     (let subjectID = header_get r HeaderSubjectID in
      if subjectID = [] then Inr r
      else case ValidateSubjectID subjectID of
        Some err \<Rightarrow> Inl (http_error ''Invalid X-Subject-ID'' 400)
      | None \<Rightarrow> Inr (r\<lparr>rqContext := SetSubjectIDContext (rqContext r) subjectID\<rparr>))"

definition jwkLookup :: "'s kv \<Rightarrow> 's TrustStore \<Rightarrow> time \<Rightarrow> string \<Rightarrow> StoredJWK option res" where
  "jwkLookup kv ts now issuerID =
     (case GetJWK kv ts now issuerID of
        Inl err \<Rightarrow> Inl err
      | Inr None \<Rightarrow> Inr None
      | Inr (Some rec) \<Rightarrow> Inr (Some \<lparr>sjJWK = jrJWK rec, sjNotAfter = jrNotAfter rec\<rparr>))"

definition gateway_registry :: "'s kv \<Rightarrow> OIDCIssuer \<Rightarrow> publisher_issuer list \<Rightarrow> string \<Rightarrow> 's TrustStore IssuerRegistry res" where
  "gateway_registry kv primary publishers audience =
     NewIssuerRegistry (Some primary) publishers (Some (jwkLookup kv)) (Some (ClaimJTI kv)) audience"

text \<open>Authentication, an optional middleware, authorization, then the handler.\<close>

definition guarded ::
    "('s, 'w, 'c, 'sch, 'k) gateway_env \<Rightarrow> 's TrustStore IssuerRegistry \<Rightarrow> time \<Rightarrow> (request \<Rightarrow> response + request) \<Rightarrow>
     (request \<Rightarrow> ('s, 'w, 'sch) GatewayHandler \<Rightarrow> response \<times> ('s, 'w, 'sch) GatewayHandler) \<Rightarrow>
     request \<Rightarrow> ('s, 'w, 'sch) GatewayHandler \<Rightarrow> response \<times> ('s, 'w, 'sch) GatewayHandler" where
  "guarded E reg now middleware handler r h =
     (case AuthMiddleware (Registry_Authenticate (geJWX E) reg now) (ghTrust h) r of
        (Inl resp, ts) \<Rightarrow> (resp, h\<lparr>ghTrust := ts\<rparr>)
      | (Inr r1, ts) \<Rightarrow>
     (case middleware r1 of
        Inl resp \<Rightarrow> (resp, h\<lparr>ghTrust := ts\<rparr>)
      | Inr r2 \<Rightarrow>
     (case Middleware (geCedar E) (gePolicies E) (Some (IsPublisherTrusted (geKV E) ts now)) (geAuthz E) r2 of
        Some resp \<Rightarrow> (resp, h\<lparr>ghTrust := ts\<rparr>)
      | None \<Rightarrow> handler r2 (h\<lparr>ghTrust := ts\<rparr>))))"

datatype gateway_op = OpHealth | OpRegister | OpModifyTrust | OpIngest

definition gateway_routes :: "(string \<times> string \<times> gateway_op) list" where
  "gateway_routes =
     [(''GET'', ''/healthz'', OpHealth), (''POST'', ''/admin/subjects'', OpRegister),
      (''PUT'', ''/admin/subjects/{subjectId}/trust'', OpModifyTrust), (''POST'', ''/api/ingest'', OpIngest)]"

text \<open>The operation a route calls, with the path parameters the router extracted.\<close>

definition serve_gateway ::
    "('s, 'w, 'c, 'sch, 'k) gateway_env \<Rightarrow> 's TrustStore IssuerRegistry \<Rightarrow> time \<Rightarrow> string \<Rightarrow> (string \<Rightarrow> string) \<Rightarrow> gateway_op \<Rightarrow>
     request \<Rightarrow> ('s, 'w, 'sch) GatewayHandler \<Rightarrow> response \<times> ('s, 'w, 'sch) GatewayHandler" where
  "serve_gateway E reg now jobID urlParam op r h =
     (case op of
        OpHealth \<Rightarrow> (gateway_HealthCheck, h)
      | OpRegister \<Rightarrow> guarded E reg now Inr (GatewayRegisterSubject E now) r h
      | OpModifyTrust \<Rightarrow> guarded E reg now Inr (\<lambda>r. ModifyTrust E now r (urlParam ''subjectId'')) r h
      | OpIngest \<Rightarrow> guarded E reg now SubjectIDExtractor (IngestArtifact E now jobID) r h)"

section \<open>Lemmas\<close>

lemma Middleware_status: "Middleware C ps lk cfg r = Some resp \<Longrightarrow> rsStatus resp \<in> {401, 403}"
  by (auto simp: Middleware_def Let_def split: option.splits sum.splits if_splits prod.splits)

lemma AuthMiddleware_Inr:
  "AuthMiddleware auth st r = (Inr r1, st') \<Longrightarrow> \<exists>p. auth st r = (Inr p, st') \<and> rqMethod r1 = rqMethod r \<and> rqPath r1 = rqPath r \<and>
     rqHeader r1 = rqHeader r \<and> rqBody r1 = rqBody r \<and> GetPublisher (rqContext r1) = (prIssuer p, prSub p) \<and>
     GetPublisherFlag (rqContext r1) = prPublisher p \<and> GetScopes (rqContext r1) = prScopes p \<and> GetGroups (rqContext r1) = prGroups p"
  by (auto simp: AuthMiddleware_def SetGroupsContext_def SetScopesContext_def SetPublisherFlagContext_def SetPublisherContext_def
      GetPublisher_def GetPublisherFlag_def GetScopes_def GetGroups_def split: prod.splits sum.splits)

lemma AuthMiddleware_Inl: "AuthMiddleware auth st r = (Inl resp, st') \<Longrightarrow> rsStatus resp = 401"
  by (auto simp: AuthMiddleware_def split: prod.splits sum.splits)

text \<open>A request that gets a success went through both middlewares.\<close>

lemma guarded_pass:
  assumes "guarded E reg now mw handler r h = (resp, h')" "rsStatus resp < 300"
    and mw: "\<forall>r1 resp. mw r1 = Inl resp \<longrightarrow> 400 \<le> rsStatus resp"
  obtains r1 r2 ts where
    "AuthMiddleware (Registry_Authenticate (geJWX E) reg now) (ghTrust h) r = (Inr r1, ts)" "mw r1 = Inr r2"
    "Middleware (geCedar E) (gePolicies E) (Some (IsPublisherTrusted (geKV E) ts now)) (geAuthz E) r2 = None"
    "handler r2 (h\<lparr>ghTrust := ts\<rparr>) = (resp, h')"
  using assms(1,2) AuthMiddleware_Inl Middleware_status mw
  by (fastforce simp: guarded_def split: prod.splits sum.splits option.splits)

lemma SubjectIDExtractor_status: "\<forall>r resp. SubjectIDExtractor r = Inl resp \<longrightarrow> 400 \<le> rsStatus resp"
  by (auto simp: SubjectIDExtractor_def Let_def split: if_splits option.splits)

lemma SubjectIDExtractor_Inr:
  "SubjectIDExtractor r = Inr r' \<Longrightarrow> r' = r \<or> (\<exists>s. r' = r\<lparr>rqContext := SetSubjectIDContext (rqContext r) s\<rparr>)"
  by (auto simp: SubjectIDExtractor_def Let_def split: if_splits option.splits)

lemma SubjectIDExtractor_keeps:
  "SubjectIDExtractor r = Inr r' \<Longrightarrow> rqMethod r' = rqMethod r \<and> rqPath r' = rqPath r \<and> rqHeader r' = rqHeader r \<and> rqBody r' = rqBody r \<and>
     GetPublisher (rqContext r') = GetPublisher (rqContext r) \<and> GetPublisherFlag (rqContext r') = GetPublisherFlag (rqContext r)"
  by (drule SubjectIDExtractor_Inr) (auto simp: SetSubjectIDContext_def GetPublisher_def GetPublisherFlag_def)

lemma SubjectIDExtractor_subject:
  "SubjectIDExtractor r = Inr r' \<Longrightarrow> header_get r HeaderSubjectID \<noteq> [] \<Longrightarrow> GetSubjectID (rqContext r') = header_get r HeaderSubjectID"
  by (auto simp: SubjectIDExtractor_def Let_def SetSubjectIDContext_def GetSubjectID_def split: option.splits)

lemma header_get_cong: "rqHeader r = rqHeader r' \<Longrightarrow> header_get r k = header_get r' k"
  by (simp add: header_get_def)

lemma publish_ingest_202:
  assumes "publish_ingest E jobID ref pub h = (resp, h')" "rsStatus resp < 300"
  shows "\<exists>w. js_publish (geBus E) (ghWorld h) SubjectIngest (marshal_ingest_ref ref) = (None, w) \<and> ghTrust h' = ghTrust h \<and> rsStatus resp = 202"
  using assms by (auto simp: publish_ingest_def Let_def split: prod.splits option.splits)

lemma classify_status: "classify L S ct subj b = Inl resp \<Longrightarrow> rsStatus resp \<in> {400, 422}"
  by (auto simp: classify_def split: if_splits sum.splits option.splits)

lemma ingest_success:
  assumes "IngestArtifact E now jobID r h = (resp, h')" "rsStatus resp < 300"
  shows "\<exists>body ty rc w. rqBody r = Inr body \<and> body \<noteq> [] \<and>
    header_get r HeaderSubjectID \<noteq> [] \<and> ValidateSubjectID (header_get r HeaderSubjectID) = None \<and>
    classify (geSchemas E) (ghSchemas h) (header_get r ''Content-Type'') (header_get r HeaderSubjectID) (take MaxBodySize body) = Inr ty \<and>
    Wrap (geReceipts E) now (take MaxBodySize body) \<lparr>pbIssuer = fst (GetPublisher (rqContext r)), pbSub = snd (GetPublisher (rqContext r))\<rparr>
       (header_get r HeaderSubjectID) ty = Inr rc \<and>
    js_publish (geBus E) (ghWorld h) SubjectIngest (marshal_ingest_ref \<lparr>irJobID = jobID, irSubjectID = header_get r HeaderSubjectID,
       irContentDigest = hex_encode (sha256 (take MaxBodySize body)), irArtifactType = ty, irReceiptBytes = rc\<rparr>) = (None, w) \<and>
    ghTrust h' = ghTrust h \<and> rsStatus resp = 202"
proof -
  obtain issuer sub where p: "GetPublisher (rqContext r) = (issuer, sub)" by fastforce
  have ne: "issuer \<noteq> [] \<and> sub \<noteq> []"
    using assms p by (auto simp: IngestArtifact_def split: if_splits)
  obtain body where b: "rqBody r = Inr body"
    using assms p ne by (cases "rqBody r") (auto simp: IngestArtifact_def)
  have nb: "take MaxBodySize body \<noteq> []"
    using assms p ne b by (auto simp: IngestArtifact_def split: if_splits)
  have hs: "header_get r HeaderSubjectID \<noteq> []" and v: "ValidateSubjectID (header_get r HeaderSubjectID) = None"
    using assms p ne b nb by (auto simp: IngestArtifact_def Let_def split: if_splits option.splits)
  obtain ty where t: "classify (geSchemas E) (ghSchemas h) (header_get r ''Content-Type'') (header_get r HeaderSubjectID) (take MaxBodySize body) = Inr ty"
    using assms p ne b nb hs v classify_status
    by (cases "classify (geSchemas E) (ghSchemas h) (header_get r ''Content-Type'') (header_get r HeaderSubjectID) (take MaxBodySize body)")
      (fastforce simp: IngestArtifact_def Let_def)+
  obtain rc where rc: "Wrap (geReceipts E) now (take MaxBodySize body) \<lparr>pbIssuer = issuer, pbSub = sub\<rparr> (header_get r HeaderSubjectID) ty = Inr rc"
    using assms p ne b nb hs v t
    by (cases "Wrap (geReceipts E) now (take MaxBodySize body) \<lparr>pbIssuer = issuer, pbSub = sub\<rparr> (header_get r HeaderSubjectID) ty")
      (auto simp: IngestArtifact_def Let_def)
  from assms(1) p ne b nb hs v t rc have "publish_ingest E jobID \<lparr>irJobID = jobID, irSubjectID = header_get r HeaderSubjectID,
       irContentDigest = hex_encode (sha256 (take MaxBodySize body)), irArtifactType = ty, irReceiptBytes = rc\<rparr>
       \<lparr>piIssuer = issuer, piSub = sub\<rparr> h = (resp, h')"
    by (simp add: IngestArtifact_def Let_def)
  from publish_ingest_202 [OF this assms(2)] b nb hs v t rc p show ?thesis by fastforce
qed

lemma gateway_registry_shape:
  "gateway_registry kv primary publishers aud = Inr reg \<Longrightarrow> rgPublishers reg = publisher_map publishers \<and> rgAudience reg = aud \<and> rgOidc reg = primary"
  by (auto simp: gateway_registry_def NewIssuerRegistry_def)

lemma extractBearer_cong: "rqHeader r = rqHeader r' \<Longrightarrow> extractBearerToken r = extractBearerToken r'"
  by (simp add: extractBearerToken_def header_get_def)

text \<open>What holds of an admitted ingest request, by composing the middlewares with the handler.\<close>

lemma ingest_admitted:
  assumes "cedar_engine (geCedar E)" "gePolicies E = base_policies" "kv_store (geKV E) view ttl"
    and "rqMethod r = ''POST''" "rqPath r = ''/api/ingest''"
    and "serve_gateway E reg now jobID prm OpIngest r h = (resp, h')" "rsStatus resp < 300"
  obtains p ts r2 where "Registry_Authenticate (geJWX E) reg now (ghTrust h) r = (Inr p, ts)" "prPublisher p"
    "\<lparr>teIssuer = prIssuer p, teSub = prSub p\<rparr> \<in> set (trusted_list view ts now (header_get r HeaderSubjectID))"
    "IngestArtifact E now jobID r2 (h\<lparr>ghTrust := ts\<rparr>) = (resp, h')" "rqHeader r2 = rqHeader r" "rqBody r2 = rqBody r"
    "GetPublisher (rqContext r2) = (prIssuer p, prSub p)"
proof -
  have g: "guarded E reg now SubjectIDExtractor (IngestArtifact E now jobID) r h = (resp, h')"
    using assms(6) by (simp add: serve_gateway_def)
  obtain r1 r2 ts where a: "AuthMiddleware (Registry_Authenticate (geJWX E) reg now) (ghTrust h) r = (Inr r1, ts)"
    and x: "SubjectIDExtractor r1 = Inr r2"
    and m: "Middleware (geCedar E) (gePolicies E) (Some (IsPublisherTrusted (geKV E) ts now)) (geAuthz E) r2 = None"
    and i: "IngestArtifact E now jobID r2 (h\<lparr>ghTrust := ts\<rparr>) = (resp, h')"
    using guarded_pass [OF g assms(7) SubjectIDExtractor_status] by blast
  obtain p where p: "Registry_Authenticate (geJWX E) reg now (ghTrust h) r = (Inr p, ts)" "rqMethod r1 = rqMethod r" "rqPath r1 = rqPath r"
    "rqHeader r1 = rqHeader r" "rqBody r1 = rqBody r" "GetPublisher (rqContext r1) = (prIssuer p, prSub p)" "GetPublisherFlag (rqContext r1) = prPublisher p"
    using AuthMiddleware_Inr [OF a] by blast
  note k = SubjectIDExtractor_keeps [OF x]
  have hd: "header_get r2 HeaderSubjectID \<noteq> []" using ingest_success [OF i assms(7)] by metis
  have sid: "GetSubjectID (rqContext r2) = header_get r HeaderSubjectID"
    using SubjectIDExtractor_subject [OF x] hd header_get_cong k p(4) by metis
  have "access_granted (Some (IsPublisherTrusted (geKV E) ts now)) (geAuthz E) r2"
    using cedar_engine.base_middleware [OF assms(1)] m assms(2) by simp
  moreover have "ActionForRoute (rqMethod r2) (rqPath r2) = Some ActionPublishArtifact"
    using assms(4,5) p k publish_route by simp
  ultimately have "prPublisher p \<and> IsPublisherTrusted (geKV E) ts now (header_get r HeaderSubjectID) (prIssuer p) (prSub p) = Inr True"
    using p k sid by (simp add: access_granted_def)
  then show ?thesis
    using that [OF p(1) _ _ i] p k kv_store.IsPublisherTrusted_lookup [OF assms(3)] by fastforce
qed

lemma StoreJWK_frame: "StoreJWK kv s t i j na = (q, s') \<Longrightarrow> publisherKV s' = publisherKV s \<and> subjectKV s' = subjectKV s \<and> jtiKV s' = jtiKV s"
  by (auto simp: StoreJWK_def split: prod.splits sum.splits)

lemma first_invalid_None: "first_invalid reg tps = None \<longleftrightarrow> (\<forall>tp \<in> set tps. Registry_ValidateTrustEntry reg (teIssuer tp) (teSub tp) = None)"
  by (induction tps) (auto split: option.splits)

lemma check_scanner_status: "check_scanner pk body = Some resp \<Longrightarrow> rsStatus resp = 400"
  by (auto simp: check_scanner_def split: option.splits if_splits sum.splits bool.splits)

context kv_store
begin

lemma store_registration_done:
  assumes "store_registration kv now body ts = (resp, ts')" "rsStatus resp < 300" "store_provisioned ttl ts"
  shows "trusted_list view ts' t' (rbSubjectID body) = rbTrustedPublishers body \<and>
    (\<forall>b. SubjectExists kv ts' t' (rbSubjectID body) = Inr b \<longrightarrow> b) \<and> rsStatus resp = 201"
proof -
  obtain ts1 where 1: "SetPublisherTrust kv ts now (rbSubjectID body) (rbTrustedPublishers body) = (None, ts1)"
    using assms(1,2) by (auto simp: store_registration_def split: prod.splits option.splits)
  obtain ts2 where 2: "RegisterSubject kv ts1 now (rbSubjectID body) = (None, ts2)"
    using assms(1,2) 1 by (auto simp: store_registration_def split: prod.splits option.splits)
  have 3: "publisherKV ts' = publisherKV ts2 \<and> subjectKV ts' = subjectKV ts2 \<and> rsStatus resp = 201"
    using assms(1,2) 1 2 StoreJWK_frame by (fastforce simp: store_registration_def split: prod.splits option.splits)
  have z: "ttl (publisherKV ts) = 0" "ttl (subjectKV ts1) = 0"
    using assms(3) SetPublisherTrust_frame(2) [OF 1] by (simp_all add: store_provisioned_def kv_configs)
  have "trusted_list view ts1 t' (rbSubjectID body) = rbTrustedPublishers body"
    using SetPublisherTrust_done [OF 1 z(1)] .
  moreover have "publisherKV ts2 = publisherKV ts1" using RegisterSubject_frame [OF 2] by simp
  moreover have "SubjectExists kv ts' t' (rbSubjectID body) = SubjectExists kv ts2 t' (rbSubjectID body)"
    using 3 by (simp add: SubjectExists_def)
  ultimately show ?thesis
    using 3 RegisterSubject_done [OF 2 z(2)] by (auto simp: trusted_list_def)
qed

end

lemma register_success:
  assumes "GatewayRegisterSubject E now r h = (resp, h')" "rsStatus resp < 300"
  shows "\<exists>body data w. decode_registration (rqBody r) = Inr body \<and> ValidateSubjectID (rbSubjectID body) = None \<and>
    rbTrustedPublishers body \<noteq> [] \<and> check_scanner (geParseKey E) body = None \<and>
    invalid_entry (ghRegistry h) (rbTrustedPublishers body) = None \<and>
    nc_request (geBus E) (ghWorld h) SubjectAdminRegisterSubject (print_json (register_request_json
      \<lparr>rrSubjectID = rbSubjectID body, rrRegistrantIssuer = fst (GetPublisher (rqContext r)), rrRegistrantSub = snd (GetPublisher (rqContext r))\<rparr>))
      = (Inr data, w) \<and> register_failure data = None \<and>
    store_registration (geKV E) now body (ghTrust h) = (resp, ghTrust h') \<and> ghWorld h' = w"
proof -
  obtain body where b: "decode_registration (rqBody r) = Inr body"
    using assms by (cases "decode_registration (rqBody r)") (auto simp: GatewayRegisterSubject_def)
  have v: "rbSubjectID body \<noteq> []" "ValidateSubjectID (rbSubjectID body) = None" "rbTrustedPublishers body \<noteq> []"
    using assms b by (auto simp: GatewayRegisterSubject_def split: if_splits option.splits)
  have c: "check_scanner (geParseKey E) body = None"
    using assms b v check_scanner_status by (cases "check_scanner (geParseKey E) body") (fastforce simp: GatewayRegisterSubject_def)+
  have e: "invalid_entry (ghRegistry h) (rbTrustedPublishers body) = None"
    using assms b v c by (cases "invalid_entry (ghRegistry h) (rbTrustedPublishers body)") (auto simp: GatewayRegisterSubject_def)
  show ?thesis
    using assms b v c e by (auto simp: GatewayRegisterSubject_def Let_def split: prod.splits sum.splits option.splits)
qed

lemma scanner_issuer_entry:
  "scanner_issuer tps \<noteq> [] \<Longrightarrow> \<exists>tp \<in> set tps. teIssuer tp = scanner_issuer tps \<and> teSub tp = scanner_issuer tps"
  by (auto simp: scanner_issuer_def split: option.splits dest!: find_Some_set)

lemma valid_entry_publisher:
  "Registry_ValidateTrustEntry reg i s = None \<Longrightarrow> i \<noteq> OIDC_URL (rgOidc reg) \<and> (\<exists>pub. map_of (rgPublishers reg) i = Some pub)"
  by (auto simp: Registry_ValidateTrustEntry_def OIDC_ValidateTrustEntry_def split: option.splits if_splits)

lemma configured_publisher_dispatch:
  assumes "extractBearerToken req = Inr tok" "peekIssuer X tok = Inr iss" "iss \<noteq> OIDC_URL (rgOidc reg)" "map_of (rgPublishers reg) iss = Some pub"
  shows "Registry_Authenticate X reg now st req
     = (map_sum (\<lambda>e. e) publisher_principal (publisher_Authenticate X pub now tok (rgAudience reg)), st)"
  using assms by (auto simp: Registry_Authenticate_def split: sum.splits)

lemma ingest_status:
  assumes "IngestArtifact E now jobID r h = (resp, h')"
  shows "rsStatus resp \<in> {202, 400, 401, 422, 500} \<and> (rsStatus resp \<in> {400, 401, 422} \<longrightarrow> h' = h) \<and> ghTrust h' = ghTrust h"
  using assms classify_status
  by (fastforce simp: IngestArtifact_def publish_ingest_def Let_def split: if_splits sum.splits option.splits prod.splits)

text \<open>A gateway over the in-memory store, a bus whose requests are answered, the table of tokens and the base policies.\<close>

definition answering_bus :: "(string \<times> bytes) list bus" where
  "answering_bus = mem_bus\<lparr>nc_request := (\<lambda>w t d. (Inr ''{}'', w @ [(t, d)]))\<rparr>"

definition ex_env :: "(mem_bucket, (string \<times> bytes) list, (string \<times> json) list, string list, string list) gateway_env" where
  "ex_env = \<lparr>geKV = mem_kv, geBus = answering_bus, geSDK = plain_sdk, geReceipts = plain_codec, geSchemas = plain_schemas,
     geParseKey = (\<lambda>_. Inr False), geJWX = plain_jwx ex_people, geCedar = plain_cedar base_only, gePolicies = base_policies,
     geAuthz = ex_config\<rparr>"

definition ex_trust_store :: "mem_bucket TrustStore" where
  "ex_trust_store = snd (SetPublisherTrust mem_kv mem_store 0 ''app'' [\<lparr>teIssuer = ''https://ci'', teSub = ''bot''\<rparr>])"

definition ex_handler :: "(mem_bucket, (string \<times> bytes) list, string list) GatewayHandler" where
  "ex_handler = NewHandler ex_trust_store [] ex_schemas"

definition ex_reg :: "mem_bucket TrustStore IssuerRegistry" where
  "ex_reg = \<lparr>rgOidc = ex_oidc, rgPublishers = publisher_map [ex_publisher], rgJwkStore = Some (jwkLookup mem_kv),
     rgJtiStore = Some (ClaimJTI mem_kv), rgAudience = ''core''\<rparr>"

lemma ex_reg_new: "gateway_registry mem_kv ex_oidc [ex_publisher] ''core'' = Inr ex_reg"
  by (simp add: gateway_registry_def NewIssuerRegistry_def ex_reg_def)

definition ex_submit :: request where
  "ex_submit = (ex_bearer ''tok'')\<lparr>rqHeader := [(''Authorization'', ''Bearer tok''), (''X-Subject-Id'', ''app'')], rqBody := Inr ''{}''\<rparr>"

definition ex_submit_context :: context_values where
  "ex_submit_context = \<lparr>cxIssuer = Some ''https://ci'', cxSub = Some ''bot'', cxSubjectID = Some ''app'', cxPublisher = Some True,
     cxScopes = Some [], cxGroups = Some []\<rparr>"

lemma ex_submit_admitted:
  "guarded ex_env ex_reg second SubjectIDExtractor handler ex_submit ex_handler
     = handler (ex_submit\<lparr>rqContext := ex_submit_context\<rparr>) ex_handler"
proof -
  have a: "Registry_Authenticate (plain_jwx ex_people) ex_reg second ex_trust_store ex_submit
     = (Inr \<lparr>prIssuer = ''https://ci'', prSub = ''bot'', prPublisher = True, prScopes = [], prGroups = []\<rparr>, ex_trust_store)" by code_simp
  have x: "SubjectIDExtractor (ex_submit\<lparr>rqContext := ex_submit_context\<lparr>cxSubjectID := None\<rparr>\<rparr>) = Inr (ex_submit\<lparr>rqContext := ex_submit_context\<rparr>)"
    by code_simp
  have m: "Middleware (plain_cedar base_only) base_policies (Some (IsPublisherTrusted mem_kv ex_trust_store second)) ex_config
      (ex_submit\<lparr>rqContext := ex_submit_context\<rparr>) = None" by code_simp
  have "AuthMiddleware (Registry_Authenticate (plain_jwx ex_people) ex_reg second) ex_trust_store ex_submit
      = (Inr (ex_submit\<lparr>rqContext := ex_submit_context\<lparr>cxSubjectID := None\<rparr>\<rparr>), ex_trust_store)"
    unfolding AuthMiddleware_def a by code_simp
  then show ?thesis
    using x m by (simp add: guarded_def ex_env_def ex_handler_def NewHandler_def)
qed

lemma ex_ingested:
  "\<exists>resp h'. serve_gateway ex_env ex_reg second ''job-1'' (\<lambda>_. []) OpIngest ex_submit ex_handler = (resp, h') \<and> rsStatus resp = 202"
proof -
  let ?r = "ex_submit\<lparr>rqContext := ex_submit_context\<rparr>"
  have j: "json_parse ''{}'' = Inr (JObj [])" by code_simp
  obtain rc where w: "Wrap plain_codec second ''{}'' \<lparr>pbIssuer = ''https://ci'', pbSub = ''bot''\<rparr> ''app'' ''unknown'' = Inr rc"
    using plain_wraps [OF j] by fastforce
  have c: "classify plain_schemas ex_schemas (header_get ?r ''Content-Type'') ''app'' ''{}'' = Inr ''unknown''"
    "header_get ?r HeaderSubjectID = ''app''" "ValidateSubjectID ''app'' = None" "GetPublisher ex_submit_context = (''https://ci'', ''bot'')"
    by code_simp+
  have b: "rqBody ?r = Inr ''{}''" by (simp add: ex_submit_def)
  have t: "take MaxBodySize ''{}'' = ''{}''" by (simp add: MaxBodySize_def)
  have "IngestArtifact ex_env second ''job-1'' ?r ex_handler = publish_ingest ex_env ''job-1'' \<lparr>irJobID = ''job-1'', irSubjectID = ''app'',
      irContentDigest = hex_encode (sha256 ''{}''), irArtifactType = ''unknown'', irReceiptBytes = rc\<rparr> \<lparr>piIssuer = ''https://ci'', piSub = ''bot''\<rparr> ex_handler"
    unfolding IngestArtifact_def using b c w t by (simp add: Let_def ex_env_def ex_handler_def NewHandler_def)
  then show ?thesis
    unfolding serve_gateway_def gateway_op.case ex_submit_admitted
    by (auto simp: publish_ingest_def ex_env_def answering_bus_def mem_bus_def split: prod.splits)
qed

section \<open>Properties\<close>




definition ex_registration :: request where
  "ex_registration = (ex_bearer ''ann'')\<lparr>rqBody := Inr (print_json (JObj [(''subjectId'', JStr ''svc''),
     (''trustedPublishers'', trust_list_json [\<lparr>teIssuer = ''https://ci'', teSub = ''bot''\<rparr>])]))\<rparr>"

definition ex_new_handler :: "(mem_bucket, (string \<times> bytes) list, string list) GatewayHandler" where
  "ex_new_handler = WithRegistry (NewHandler mem_store [] ex_schemas) ex_reg"

definition ex_registered :: "(mem_bucket, (string \<times> bytes) list, string list) GatewayHandler" where
  "ex_registered = snd (GatewayRegisterSubject ex_env second ex_registration ex_new_handler)"

lemma ex_registered_201: "GatewayRegisterSubject ex_env second ex_registration ex_new_handler
    = (json_response 201 (JObj [(''subjectId'', JStr ''svc'')]), ex_registered)"
proof -
  have "fst (GatewayRegisterSubject ex_env second ex_registration ex_new_handler) = json_response 201 (JObj [(''subjectId'', JStr ''svc'')])"
    by code_simp
  then show ?thesis by (metis ex_registered_def prod.collapse)
qed


text \<open>C36: a scanner key can be registered only for an issuer that is already a configured publisher, and is then never
  used.  Every listed publisher must pass the registry, which knows only configured issuers; but tokens of a configured
  publisher are verified with that publisher's key set before stored scanner keys are looked at.\<close>

theorem scanner_key_never_used:
  assumes "GatewayRegisterSubject E now r h = (resp, h')" "rsStatus resp < 300" "ghRegistry h = Some reg"
    and "decode_registration (rqBody r) = Inr body" "rbScannerJWK body = Some scanner"
  shows "\<exists>pub. map_of (rgPublishers reg) (scanner_issuer (rbTrustedPublishers body)) = Some pub \<and>
     (\<forall>now' st req tok. extractBearerToken req = Inr tok \<and> peekIssuer X tok = Inr (scanner_issuer (rbTrustedPublishers body)) \<longrightarrow>
        Registry_Authenticate X reg now' st req
          = (map_sum (\<lambda>e. e) publisher_principal (publisher_Authenticate X pub now' tok (rgAudience reg)), st))"
proof -
  have c: "check_scanner (geParseKey E) body = None" and e: "first_invalid reg (rbTrustedPublishers body) = None"
    using register_success [OF assms(1,2)] assms(3,4) by (auto simp: invalid_entry_def)
  have "scanner_issuer (rbTrustedPublishers body) \<noteq> []"
    using c assms(5) by (auto simp: check_scanner_def split: if_splits)
  then obtain pub where "map_of (rgPublishers reg) (scanner_issuer (rbTrustedPublishers body)) = Some pub"
    "scanner_issuer (rbTrustedPublishers body) \<noteq> OIDC_URL (rgOidc reg)"
    using scanner_issuer_entry valid_entry_publisher e unfolding first_invalid_None by metis
  then show ?thesis using configured_publisher_dispatch by metis
qed

definition ex_scanner_registration :: request where
  "ex_scanner_registration = (ex_bearer ''ann'')\<lparr>rqBody := Inr (print_json (JObj [(''subjectId'', JStr ''svc''),
     (''trustedPublishers'', trust_list_json [\<lparr>teIssuer = ''https://ci'', teSub = ''https://ci''\<rparr>]),
     (''scannerJwk'', JObj [(''jwk'', JStr ''key-1''), (''not_after'', JStr ''1970-01-01T00:00:00Z'')])]))\<rparr>"

theorem scanner_key_never_used_witness:
  "rsStatus (fst (GatewayRegisterSubject ex_env second ex_scanner_registration ex_new_handler)) = 201 \<and>
   (\<exists>pub. map_of (rgPublishers ex_reg) ''https://ci'' = Some pub)"
proof -
  let ?b = "\<lparr>rbSubjectID = ''svc'', rbTrustedPublishers = [\<lparr>teIssuer = ''https://ci'', teSub = ''https://ci''\<rparr>],
    rbScannerJWK = Some \<lparr>jrJWK = Some (JStr ''key-1''), jrNotAfter = 0\<rparr>\<rparr>"
  have d: "decode_registration (rqBody ex_scanner_registration) = Inr ?b" by code_simp
  have s: "rsStatus (fst (GatewayRegisterSubject ex_env second ex_scanner_registration ex_new_handler)) = 201" by code_simp
  have i: "scanner_issuer [\<lparr>teIssuer = ''https://ci'', teSub = ''https://ci''\<rparr>] = ''https://ci''" by code_simp
  obtain resp h' where g: "GatewayRegisterSubject ex_env second ex_scanner_registration ex_new_handler = (resp, h')" by fastforce
  have "\<exists>pub. map_of (rgPublishers ex_reg) (scanner_issuer (rbTrustedPublishers ?b)) = Some pub \<and>
     (\<forall>now' st req tok. extractBearerToken req = Inr tok \<and> peekIssuer (plain_jwx ex_people) tok = Inr (scanner_issuer (rbTrustedPublishers ?b)) \<longrightarrow>
        Registry_Authenticate (plain_jwx ex_people) ex_reg now' st req
          = (map_sum (\<lambda>e. e) publisher_principal (publisher_Authenticate (plain_jwx ex_people) pub now' tok (rgAudience ex_reg)), st))"
    by (rule scanner_key_never_used [OF g _ _ d]) (use s g in \<open>simp_all add: ex_new_handler_def WithRegistry_def NewHandler_def\<close>)
  then show ?thesis using s i by auto
qed

text \<open>C35: modifying trust.  A success means that the subject was registered, every new entry is well-formed for a configured
  issuer, and the trust list of the subject is from then on the new one while other subjects keep theirs.  A request for
  an unknown subject or with a bad entry changes nothing.\<close>

theorem modify_trust_effects:
  assumes "kv_store (geKV E) view ttl" "store_provisioned ttl (ghTrust h)" "ModifyTrust E now r subjectID h = (resp, h')"
  shows "if rsStatus resp < 300
         then \<exists>tps. decode_trust_body (rqBody r) = Inr tps \<and> SubjectExists (geKV E) (ghTrust h) now subjectID = Inr True \<and>
           (\<forall>reg tp. ghRegistry h = Some reg \<and> tp \<in> set tps \<longrightarrow> Registry_ValidateTrustEntry reg (teIssuer tp) (teSub tp) = None) \<and>
           trusted_list view (ghTrust h') t' subjectID = tps \<and>
           (\<forall>s. s \<noteq> subjectID \<longrightarrow> trusted_list view (ghTrust h') t' s = trusted_list view (ghTrust h) t' s)
         else rsStatus resp < 500 \<longrightarrow> h' = h"
proof (cases "rsStatus resp < 300")
  case True
  obtain tps ts where a: "SubjectExists (geKV E) (ghTrust h) now subjectID = Inr True" "decode_trust_body (rqBody r) = Inr tps"
    "invalid_entry (ghRegistry h) tps = None" "SetPublisherTrust (geKV E) (ghTrust h) now subjectID tps = (None, ts)" "ghTrust h' = ts"
    using assms(3) True by (auto simp: ModifyTrust_def Let_def split: option.splits sum.splits bool.splits prod.splits)
  have z: "ttl (publisherKV (ghTrust h)) = 0" using assms(2) by (simp add: store_provisioned_def kv_configs)
  have "trusted_list view ts t' s = trusted_list view (ghTrust h) t' s" if "s \<noteq> subjectID" for s
    using kv_store.SetPublisherTrust_frame(5) [OF assms(1) a(4) that] by (simp add: trusted_list_def)
  moreover have "trusted_list view ts t' subjectID = tps" using kv_store.SetPublisherTrust_done [OF assms(1) a(4) z] .
  moreover have "\<forall>reg tp. ghRegistry h = Some reg \<and> tp \<in> set tps \<longrightarrow> Registry_ValidateTrustEntry reg (teIssuer tp) (teSub tp) = None"
    using a(3) by (auto simp: invalid_entry_def first_invalid_None)
  ultimately show ?thesis using True a by auto
next
  case False
  then show ?thesis
    using assms(3) by (auto simp: ModifyTrust_def Let_def split: option.splits sum.splits bool.splits prod.splits)
qed

definition ex_trust_change :: request where
  "ex_trust_change = (ex_bearer ''ann'')\<lparr>rqBody := Inr (print_json (JObj [(''trustedPublishers'',
     trust_list_json [\<lparr>teIssuer = ''https://ci'', teSub = ''nightly''\<rparr>])]))\<rparr>"

definition ex_known :: "(mem_bucket, (string \<times> bytes) list, string list) GatewayHandler" where
  "ex_known = NewHandler (snd (RegisterSubject mem_kv ex_trust_store 0 ''app'')) [] ex_schemas"

theorem modify_trust_effects_witness:
  "\<exists>resp h'. ModifyTrust ex_env (2 * second) ex_trust_change ''app'' ex_known = (resp, h') \<and> rsStatus resp = 200 \<and>
     trusted_list mem_view (ghTrust h') (9 * second) ''app'' = [\<lparr>teIssuer = ''https://ci'', teSub = ''nightly''\<rparr>]"
proof -
  have E: "geKV ex_env = mem_kv" by (simp add: ex_env_def)
  have p: "store_provisioned memTTL (ghTrust ex_known)" by code_simp
  have s: "rsStatus (fst (ModifyTrust ex_env (2 * second) ex_trust_change ''app'' ex_known)) = 200" by code_simp
  have d: "decode_trust_body (rqBody ex_trust_change) = Inr [\<lparr>teIssuer = ''https://ci'', teSub = ''nightly''\<rparr>]" by code_simp
  obtain resp h' where m: "ModifyTrust ex_env (2 * second) ex_trust_change ''app'' ex_known = (resp, h')" by fastforce
  have "kv_store (geKV ex_env) mem_view memTTL" unfolding E by (fact mem.kv_store_axioms)
  from modify_trust_effects [OF this p m, of "9 * second"] s m d show ?thesis by auto
qed

text \<open>C37: the error paths of ingest.  The answer is 202, 400, 401, 422 or 500; a rejection of the request leaves the gateway
  and the queue as they were, and no outcome touches the trust store.  Of a body longer than 256 KiB the rest is
  silently ignored: the outcome is that of the body cut off there.\<close>

theorem ingest_error_paths:
  assumes "IngestArtifact E now jobID r h = (resp, h')"
  shows "rsStatus resp \<in> {202, 400, 401, 422, 500} \<and> (rsStatus resp \<in> {400, 401, 422} \<longrightarrow> h' = h) \<and> ghTrust h' = ghTrust h \<and>
     (\<forall>b. rqBody r = Inr b \<longrightarrow> IngestArtifact E now jobID (r\<lparr>rqBody := Inr (take (256 * 1024) b)\<rparr>) h = (resp, h'))"
proof -
  have "IngestArtifact E now jobID (r\<lparr>rqBody := Inr (take MaxBodySize b)\<rparr>) h = IngestArtifact E now jobID r h" if "rqBody r = Inr b" for b
  proof -
    have h: "header_get (r\<lparr>rqBody := x\<rparr>) k = header_get r k" for x k by (simp add: header_get_def)
    show ?thesis unfolding IngestArtifact_def h using that by (cases "GetPublisher (rqContext r)") simp
  qed
  then show ?thesis using ingest_status [OF assms] assms by (simp add: MaxBodySize_def)
qed

theorem ingest_error_paths_witness:
  "\<exists>h'. IngestArtifact ex_env 0 ''job'' (ex_ingest ''bot'') ex_handler = (http_error ''Empty request body'' 400, h') \<and> h' = ex_handler"
proof -
  have a: "IngestArtifact ex_env 0 ''job'' (ex_ingest ''bot'') ex_handler = (http_error ''Empty request body'' 400, ex_handler)"
    by (simp add: IngestArtifact_def ex_ingest_def GetPublisher_def)
  show ?thesis using a ingest_error_paths [OF a] by auto
qed

end
