(* ===== verification/Services.thy ===== *)
theory Services
  imports Config GraphApi LockerApi Gateway
begin

text \<open>
  How the three services start (\<^verbatim>\<open>cmd/gateway/main.go\<close>, \<^verbatim>\<open>cmd/locker/main.go\<close>, \<^verbatim>\<open>cmd/graph/main.go\<close>): from the
  configuration to the guarded request handler, or to the error with which the process exits.  Listening, signals and the
  orderly shutdown are not part of the model.
\<close>

section \<open>Startup\<close>

text \<open>The message that is logged before \<^verbatim>\<open>os.Exit(1)\<close> and its error, or what has been set up.\<close>

type_synonym 'a startup = "(string \<times> goerr) + 'a"

definition attempt :: "string \<Rightarrow> 'a res \<Rightarrow> ('a \<Rightarrow> 'b startup) \<Rightarrow> 'b startup" where
  "attempt msg x f = (case x of Inl err \<Rightarrow> Inl (msg, err) | Inr v \<Rightarrow> f v)"

definition require :: "string \<Rightarrow> goerr option \<Rightarrow> 'b startup \<Rightarrow> 'b startup" where
  "require msg x s = (case x of Some err \<Rightarrow> Inl (msg, err) | None \<Rightarrow> s)"

text \<open>
  The outside of a process: its flags, the libraries and the servers they connect to.
\<close>

record ('c, 'k, 'w, 's) host =
  hoKoanf :: "'c koanf"
  hoFlags :: "(string \<times> string) list"
  hoRange :: "string list \<Rightarrow> string list"
  hoConnect :: "string \<Rightarrow> goerr option"
  hoJetStream :: "goerr option"
  hoAdmin :: "'w js_admin"
  hoWorld :: 'w
  hoKeyValue :: "string \<Rightarrow> 's res"
  hoJWX :: "'k jwx"
  hoWeb :: web
  hoNow :: time
  hoCedar :: cedar
  hoBasePolicies :: bytes
  hoFiles :: fs

definition nats_Connect :: "('c, 'k, 'w, 's) host \<Rightarrow> string \<Rightarrow> goerr option" where
  "nats_Connect H url =
     (case hoConnect H url of Some err \<Rightarrow> Some (ErrorfW (''connecting to nats at '' @ url @ '': '') err []) | None \<Rightarrow> None)"

definition config_path :: "('c, 'k, 'w, 's) host \<Rightarrow> string" where
  "config_path H = (case map_of (hoFlags H) ''config'' of Some p \<Rightarrow> p | None \<Rightarrow> [])"

definition infrastructure :: "('c, 'k, 'w, 's) host \<Rightarrow> string \<Rightarrow> 'b startup \<Rightarrow> 'b startup" where
  "infrastructure H url s =
     require ''failed to connect to nats'' (nats_Connect H url)
    (require ''failed to get jetstream context'' (hoJetStream H)
    (require ''failed to ensure nats infrastructure'' (fst (EnsureInfrastructure (hoAdmin H) (hoWorld H))) s))"

definition authz_config :: "IssuersConfig \<Rightarrow> MiddlewareConfig" where
  "authz_config issuers = \<lparr>mcAdminGroup = odAdminGroup (icOIDC issuers), mcAuditorGroup = odAuditorGroup (icOIDC issuers)\<rparr>"

text \<open>What the request handlers of a running service use.\<close>

record ('s, 't) service =
  svListenAddr :: string
  svAuth :: "'s IssuerRegistry"
  svPolicies :: policy_set
  svAuthz :: MiddlewareConfig
  svState :: 't

definition gateway_main :: "('c, 'k, 'w, 's) host \<Rightarrow> 's kv \<Rightarrow> 'sch SchemaRegistry res \<Rightarrow> ('s TrustStore, 's TrustStore \<times> 'sch SchemaRegistry) service startup" where
  "gateway_main H kv schemas =
     attempt ''failed to load configuration'' (Load (hoKoanf H) (config_path H) (Some (hoFlags H))) (\<lambda>k.
     attempt ''invalid configuration'' (LoadGatewayConfig (hoKoanf H) k) (\<lambda>cfg.
     infrastructure H (gcNatsURL cfg)
    (attempt ''failed to create trust store'' (NewTrustStore (hoKeyValue H)) (\<lambda>trustStore.
     attempt ''failed to load cedar policies''
       (LoadEmbeddedPolicies (hoCedar H) (Inr (hoBasePolicies H)) (hoFiles H) (gcCedarPolicyDir cfg)) (\<lambda>policySet.
     attempt ''failed to build issuers'' (BuildIssuers (hoJWX H) (hoWeb H) (hoNow H) (gcIssuers cfg)) (\<lambda>(primary, publishers).
     attempt ''failed to build issuer registry'' (gateway_registry kv primary publishers (gcJWTAudience cfg)) (\<lambda>registry.
     attempt ''failed to load gemara schemas'' schemas (\<lambda>schemas.
       Inr \<lparr>svListenAddr = gcListenAddr cfg, svAuth = registry, svPolicies = policySet, svAuthz = authz_config (gcIssuers cfg),
            svState = (trustStore, schemas)\<rparr>))))))))"

text \<open>\<open>None\<close> while a ledger that is being opened still waits for its log.\<close>

definition locker_main ::
    "('c, 'k, 'w, 's) host \<Rightarrow> 's kv \<Rightarrow> ('d, 'l, 'v) locker_env \<Rightarrow> 'v \<Rightarrow> ('s TrustStore, 'l Locker \<times> 's TrustStore) service startup option" where
  "locker_main H kv E v =
     (case attempt ''failed to load configuration'' (Load (hoKoanf H) (config_path H) (Some (hoFlags H))) (\<lambda>k.
           attempt ''invalid configuration'' (LoadLockerConfig (hoKoanf H) k) (\<lambda>cfg.
           case NewLocker (lcDataPath cfg) (hoFiles H) of (lk, f) \<Rightarrow>
           attempt ''failed to create locker'' lk (\<lambda>lk. Inr (cfg, \<lparr>lsLocker = lk, lsFiles = f, lsWorld = v\<rparr>)))) of
        Inl failed \<Rightarrow> Some (Inl failed)
      | Inr (cfg, s0) \<Rightarrow>
     (case OpenExistingLedgers E s0 of
        None \<Rightarrow> None
      | Some (err, s) \<Rightarrow> Some
         (require ''failed to open existing ledgers'' err
         (infrastructure H (lcNatsURL cfg)
         (attempt ''failed to create trust store'' (NewTrustStore (hoKeyValue H)) (\<lambda>trustStore.
          attempt ''failed to build issuers'' (BuildIssuers (hoJWX H) (hoWeb H) (hoNow H) (lcIssuers cfg)) (\<lambda>(primary, publishers).
          attempt ''failed to build issuer registry''
            (NewIssuerRegistry (Some primary) publishers (Some (jwkLookup kv)) (Some (ClaimJTI kv)) (lcJWTAudience cfg)) (\<lambda>auth.
          attempt ''failed to load cedar policies''
            (LoadEmbeddedPolicies (hoCedar H) (Inr (hoBasePolicies H)) (lsFiles s) (lcCedarPolicyDir cfg)) (\<lambda>policySet.
            Inr \<lparr>svListenAddr = lcListenAddr cfg, svAuth = auth, svPolicies = policySet, svAuthz = authz_config (lcIssuers cfg),
                 svState = (lsLocker s, trustStore)\<rparr>)))))))))"

text \<open>The graph service has no trust store, so no scanner keys; \<open>create\<close> creates the loader's consumer.\<close>

definition graph_main ::
    "('c, 'k, 'w, 's) host \<Rightarrow> (string \<Rightarrow> goerr option) \<Rightarrow> 'g loader_env \<Rightarrow> (string \<Rightarrow> ConsumerConfig \<Rightarrow> goerr option) \<Rightarrow> 'g
       \<Rightarrow> (unit, 'g loader_env) service startup" where
  "graph_main H connect_memgraph L create g =
     attempt ''failed to load configuration'' (Load (hoKoanf H) (config_path H) (Some (hoFlags H))) (\<lambda>k.
     attempt ''invalid configuration'' (LoadGraphConfig (hoKoanf H) (hoRange H) k) (\<lambda>cfg.
     require ''failed to connect to memgraph'' (connect_memgraph (gfMemgraphURL cfg))
    (infrastructure H (gfNatsURL cfg)
    (let loader = L\<lparr>loLockerURL := gfLockerURL cfg\<rparr> in
     require ''failed to start loader'' (fst (LoaderStart loader create [] g))
    (attempt ''failed to build issuers'' (BuildIssuers (hoJWX H) (hoWeb H) (hoNow H) (gfIssuers cfg)) (\<lambda>(primary, publishers).
     attempt ''failed to build issuer registry'' (NewIssuerRegistry (Some primary) publishers None None (gfJWTAudience cfg)) (\<lambda>auth.
     attempt ''failed to load cedar policies''
       (LoadEmbeddedPolicies (hoCedar H) (Inr (hoBasePolicies H)) (hoFiles H) (gfCedarPolicyDir cfg)) (\<lambda>policySet.
       Inr \<lparr>svListenAddr = gfListenAddr cfg, svAuth = auth, svPolicies = policySet, svAuthz = authz_config (gfIssuers cfg),
            svState = loader\<rparr>))))))))"

text \<open>Requests to the running services.\<close>

definition graph_request ::
    "('c, 'k, 'w, 's) host \<Rightarrow> (unit, 'g loader_env) service \<Rightarrow> time \<Rightarrow> (request \<Rightarrow> response + graph_op \<times> (string \<Rightarrow> string)) \<Rightarrow>
     graph_binding \<Rightarrow> request \<Rightarrow> url_values \<Rightarrow> 'g \<Rightarrow> response option \<times> unit \<times> 'g" where
  "graph_request H S now routed B r qs g =
     graph_NewHandler (Some (Registry_Authenticate (hoJWX H) (svAuth S) now)) (hoCedar H) (svPolicies S) (svAuthz S) routed B
       (loDB (svState S)) (hoRange H) r qs () g"

definition locker_request ::
    "('c, 'k, 'w, 's) host \<Rightarrow> ('s TrustStore, 'l Locker \<times> 's TrustStore) service \<Rightarrow> time \<Rightarrow>
     (request \<Rightarrow> response + locker_op \<times> (string \<Rightarrow> string)) \<Rightarrow> param_binding \<Rightarrow> 'l tessera \<Rightarrow> select_event list \<Rightarrow> fs \<Rightarrow>
     request \<Rightarrow> 's TrustStore \<Rightarrow> 'l Locker \<Rightarrow> (response \<times> 's TrustStore \<times> 'l Locker) option" where
  "locker_request H S now routed B T evs f r ts lk =
     locker_NewHandler (Some (Registry_Authenticate (hoJWX H) (svAuth S) now)) (hoCedar H) (svPolicies S) (svAuthz S) routed B T evs f r ts lk"

section \<open>Lemmas\<close>

lemma configured_issuer:
  assumes "UnmarshalIssuers K k = Inr issuers" "BuildIssuers X W now issuers = Inr (primary, publishers)"
  shows "OIDC_URL primary = normalize_url (with_default (k_string K k ''oidc.expected.issuer'') (k_string K k ''oidc.issuer''))"
proof -
  have "odURL (icOIDC issuers) = k_string K k ''oidc.issuer''" "odExpectedIssuer (icOIDC issuers) = k_string K k ''oidc.expected.issuer''"
    using assms(1) by (auto simp: UnmarshalIssuers_def Let_def split: if_splits sum.splits)
  moreover obtain oc where "NewOIDCIssuer X W now oc = Inr primary" "ocURL oc = odURL (icOIDC issuers)"
      "ocExpectedIssuer oc = odExpectedIssuer (icOIDC issuers)"
    using assms(2) by (auto simp: BuildIssuers_def Let_def split: sum.splits option.splits)
  ultimately show ?thesis using NewOIDCIssuer_URL [of X W now oc primary] by (simp add: with_default_def)
qed

lemma startup_Inr [simp]:
  "attempt msg x f = Inr y \<longleftrightarrow> (\<exists>v. x = Inr v \<and> f v = Inr y)"
  "require msg e s = Inr y \<longleftrightarrow> e = None \<and> s = Inr y"
  by (auto simp: attempt_def require_def split: sum.splits option.splits)

text \<open>A reader that the registry of a service accepted is a person of the operator's issuer, with a verified token.\<close>

lemma reader_person:
  assumes "jwt_library X verifies intended" "NewIssuerRegistry (Some primary) publishers jwks jtis audience = Inr registry"
    and "Registry_Authenticate X registry now st r = (Inr p, st')" "reader cfg p"
  shows "\<not> prPublisher p \<and> (\<exists>s keys tok. extractBearerToken r = Inr s \<and> verifies keys s \<and> intended s audience
     \<and> jwt_parse_insecure X s = Inr tok \<and> tkIssuer tok = Some (OIDC_URL primary) \<and> tkSubject tok = Some (prSub p))"
proof -
  have reg: "rgPublishers registry = publisher_map publishers" "rgAudience registry = audience" "rgOidc registry = primary"
    using assms(2) by (auto simp: NewIssuerRegistry_def split: if_splits)
  have "wf_principal registry p" by (rule registry_principal [OF assms(3) reg(1)])
  then have "\<not> prPublisher p" "prIssuer p = OIDC_URL primary"
    using assms(4) reg(3) by (auto simp: wf_principal_def reader_def split: if_splits)
  then show ?thesis using jwt_library.registry_sound [OF assms(1,3) reg(1)] reg(2) by auto
qed

section \<open>Properties\<close>


text \<open>A host whose environment configures the graph service.\<close>

definition plain_koanf :: "(string \<times> string) list \<Rightarrow> (string \<times> string) list koanf" where
  "plain_koanf env = \<lparr>k_new = [], k_load_file = (\<lambda>k _. (Some ErrNotExist, k)),
     k_load_env = (\<lambda>k f. (None, fold (\<lambda>(n, v). assign (f n) v) env k)),
     k_load_map = (\<lambda>k m. (None, fold (\<lambda>(n, v). assign n v) m k)),
     k_string = (\<lambda>k s. case map_of k s of Some v \<Rightarrow> v | None \<Rightarrow> []), k_custom = (\<lambda>_ _. Inr [])\<rparr>"

definition ex_host :: "((string \<times> string) list, string list, unit, unit) host" where
  "ex_host = \<lparr>hoKoanf = plain_koanf [(''OIDC_ISSUER'', ''https://idp''), (''JWT_AUDIENCE'', ''core''), (''NATS_URL'', ''nats://n''),
       (''LOCKER_URL'', ''http://locker''), (''TOKEN_FILE'', ''/token''), (''MEMGRAPH_URL'', ''bolt://m'')],
     hoFlags = [], hoRange = (\<lambda>xs. xs), hoConnect = (\<lambda>_. None), hoJetStream = None,
     hoAdmin = \<lparr>js_create_stream = (\<lambda>w _. (None, w)), js_create_kv = (\<lambda>w _. (None, w))\<rparr>, hoWorld = (), hoKeyValue = (\<lambda>_. Inr ()),
     hoJWX = plain_jwx ex_people, hoWeb = ex_web, hoNow = 0, hoCedar = plain_cedar base_only, hoBasePolicies = [], hoFiles = ex_policy_fs\<rparr>"

definition ex_binding :: graph_binding where
  "ex_binding = \<lparr>bind_path = (\<lambda>_ v. Inr v),
     bind_required = (\<lambda>n qs. case map_of qs n of Some (v # _) \<Rightarrow> Inr v | _ \<Rightarrow> Inl RequiredParameter),
     bind_string_opt = (\<lambda>n qs. Inr (case map_of qs n of Some (v # _) \<Rightarrow> Some v | _ \<Rightarrow> None)),
     bind_time_opt = (\<lambda>_ _. Inr None), bind_int_opt = (\<lambda>_ _. Inr None)\<rparr>"

definition ex_graph_read :: "(unit, graph loader_env) service \<Rightarrow> string \<Rightarrow> response option \<times> unit \<times> graph" where
  "ex_graph_read S token = graph_request ex_host S second (\<lambda>_. Inr (GraphGetSubject, \<lambda>_. ''app'')) ex_binding
     ((ex_bearer token)\<lparr>rqMethod := ''GET'', rqPath := ''/api/subjects/app''\<rparr>) [] sample_graph"

definition ex_settings :: "(string \<times> string) list" where
  "ex_settings = [(''oidc.issuer'', ''https://idp''), (''jwt.audience'', ''core''), (''nats.url'', ''nats://n''),
     (''locker.url'', ''http://locker''), (''token.file'', ''/token''), (''memgraph.url'', ''bolt://m'')]"

definition ex_graph_config :: GraphConfig where
  "ex_graph_config = \<lparr>gfNatsURL = ''nats://n'', gfLockerURL = ''http://locker'', gfTokenFile = ''/token'', gfMemgraphURL = ''bolt://m'',
     gfJWTAudience = ''core'', gfListenAddr = '':8082'', gfCedarPolicyDir = [],
     gfIssuers = \<lparr>icOIDC = \<lparr>odURL = ''https://idp'', odExpectedIssuer = [], odGroupClaim = [], odAdminGroup = [], odAuditorGroup = [],
       odGroupMode = []\<rparr>, icEnabledShortnames = [], icCustom = []\<rparr>\<rparr>"

lemma ex_load: "Load (hoKoanf ex_host) (config_path ex_host) (Some (hoFlags ex_host)) = Inr ex_settings"
  "k_string (hoKoanf ex_host) ex_settings ''cedar.policy.dir'' = []"
  by code_simp+

lemma ex_graph_starts: "\<exists>S. graph_main ex_host (\<lambda>_. None) sample_loader (\<lambda>_ _. None) no_graph = Inr S"
proof -
  have c: "LoadGraphConfig (hoKoanf ex_host) (hoRange ex_host) ex_settings = Inr ex_graph_config" by code_simp
  have "\<not> isl (BuildIssuers (hoJWX ex_host) (hoWeb ex_host) (hoNow ex_host) (gfIssuers ex_graph_config))" by code_simp
  then obtain primary publishers where
      b: "BuildIssuers (hoJWX ex_host) (hoWeb ex_host) (hoNow ex_host) (gfIssuers ex_graph_config) = Inr (primary, publishers)"
    by (cases "BuildIssuers (hoJWX ex_host) (hoWeb ex_host) (hoNow ex_host) (gfIssuers ex_graph_config)") auto
  have p: "LoadEmbeddedPolicies (hoCedar ex_host) (Inr (hoBasePolicies ex_host)) (hoFiles ex_host) (gfCedarPolicyDir ex_graph_config) = Inr base_policies"
    by (simp add: LoadEmbeddedPolicies_def ex_host_def ex_graph_config_def ex_base_parse)
  have "nats_Connect ex_host u = None" "hoJetStream ex_host = None" "fst (EnsureInfrastructure (hoAdmin ex_host) (hoWorld ex_host)) = None" for u
    by (simp_all add: nats_Connect_def ex_host_def EnsureInfrastructure_def)
  moreover have "fst (LoaderStart L (\<lambda>_ _. None) [] no_graph) = None" for L :: "graph loader_env" by (simp add: LoaderStart_def)
  ultimately show ?thesis
    unfolding graph_main_def infrastructure_def by (simp add: ex_load(1) c b p Let_def NewIssuerRegistry_def)
qed


end
