(* ===== verification/Spec2Isabelle.thy ===== *)
theory Spec2Isabelle
  imports Services
begin

text \<open>
  A verification of the evidence pipeline: a gateway that accepts compliance artifacts from trusted publishers, a
  locker that seals them as receipts in one transparency log per subject, and a graph service that indexes what was
  sealed.  File names below are relative to \<^verbatim>\<open>src/\<close>.

  \<^bold>\<open>The program.\<close>  A publisher posts an artifact with a bearer token.  The gateway (\<^verbatim>\<open>internal/gateway\<close>)
  authenticates it (\<^verbatim>\<open>internal/authn\<close>), authorizes it by Cedar policies and the trust store (\<^verbatim>\<open>internal/authz\<close>,
  \<^verbatim>\<open>internal/trust\<close>), validates the artifact, wraps it in a receipt and queues a reference on NATS.  The worker of the
  locker (\<^verbatim>\<open>internal/locker\<close>) seals the receipt in the ledger of the subject and publishes a sealed event.  The loader
  of the graph service (\<^verbatim>\<open>internal/graph\<close>) follows the storage reference of the event back to the locker's HTTP
  API, parses the artifact and upserts evidence, entities and edges into Memgraph.  Administrators register subjects and
  change trust through the gateway, which asks the locker over NATS requests; auditors and administrators read through
  the HTTP APIs of the locker and of the graph.

  \<^bold>\<open>Theories and sources.\<close>
  \<^item> \<open>Prelude\<close>: byte strings, Go errors with wrapping, results, shared lemmas.  \<open>GoStrings\<close>, \<open>GoRegex\<close>,
    \<open>GoEncoding\<close>, \<open>GoJson\<close>, \<open>GoTime\<close>, \<open>GoFiles\<close>: what the code uses of Go's standard library.
  \<^item> \<open>Subjects\<close> (\<^verbatim>\<open>internal/subjects\<close>), \<open>Nats\<close> (\<^verbatim>\<open>internal/nats\<close>: subjects, streams, buckets), \<open>Events\<close>
    (\<^verbatim>\<open>events\<close>, \<^verbatim>\<open>internal/events\<close>, \<^verbatim>\<open>internal/ingest\<close>, \<^verbatim>\<open>internal/admin\<close>).
  \<^item> \<open>Trust\<close> (\<^verbatim>\<open>internal/trust/store.go\<close>): the record \<open>TrustStore\<close> of its four buckets and every operation.
  \<^item> \<open>Receipt\<close> (\<^verbatim>\<open>internal/gateway/receipt\<close>), \<open>Ledger\<close> (\<^verbatim>\<open>internal/locker/ledger.go\<close>), \<open>Locker\<close>
    (\<^verbatim>\<open>locker.go\<close>, \<^verbatim>\<open>worker.go\<close>, \<^verbatim>\<open>admin.go\<close>), \<open>LockerApi\<close> (\<^verbatim>\<open>handler.go\<close>, \<^verbatim>\<open>tileserver.go\<close>, the generated server).
  \<^item> \<open>Authz\<close> (\<^verbatim>\<open>internal/authz\<close>), \<open>Publishers\<close> (\<^verbatim>\<open>internal/authn/publisher\<close>), \<open>Authn\<close> (\<^verbatim>\<open>internal/authn\<close>),
    \<open>ReadAccess\<close> (the guard that both read APIs put before their routers).
  \<^item> \<open>Validate\<close> and \<open>Gateway\<close> (\<^verbatim>\<open>internal/gateway\<close>, the routes of \<^verbatim>\<open>cmd/gateway/main.go\<close>).
  \<^item> \<open>Cypher\<close>: the database interface; \<open>GraphWriter\<close> (\<^verbatim>\<open>internal/graph/writer.go\<close>), \<open>GraphSpec\<close> and \<open>GraphReads\<close>
    (its specification on keyed graphs), \<open>GraphLoader\<close> (\<^verbatim>\<open>parser.go\<close>, \<^verbatim>\<open>loader.go\<close>), \<open>GraphPages\<close> (paging), \<open>GraphApi\<close>
    (\<^verbatim>\<open>handler.go\<close>, \<^verbatim>\<open>gen.openapi.go\<close>).
  \<^item> \<open>Config\<close> (\<^verbatim>\<open>internal/config\<close> and the \<^verbatim>\<open>config.go\<close> files), \<open>Services\<close> (the \<^verbatim>\<open>main\<close> functions of \<^verbatim>\<open>cmd\<close>).

  \<^bold>\<open>How code becomes definitions.\<close>  A struct is a record, an operation one function that returns the changed state
  with its result; the nil error is \<^const>\<open>None\<close>, a panic the value \<^const>\<open>None\<close> of an option around the result.  A
  definition has the name of its Go function, with a prefix where two packages share the name.  Third-party code is a
  record of operations that the definitions take as an argument, and a locale states the documented laws that a lemma
  needs: \<open>kv_store\<close> (JetStream buckets), \<open>tessera_log\<close> and \<open>tessera_live\<close> (Tessera), \<open>note_keys\<close>, \<open>receipt_codec\<close>
  (canonical JSON, protobuf structs), \<open>cedar_engine\<close>, \<open>jwt_library\<close>, \<open>cloud_events\<close>, \<open>nats_matching\<close> and \<open>memgraph\<close>
  (openCypher).  Each is interpreted on an executable in-memory instance, on which the witnesses evaluate.  Contracts
  between the components are locales as well: \<open>trust_provider\<close> and \<open>jti_store\<close>, which every \<open>kv_store\<close> provides through
  the operations of \<open>Trust\<close>.

  \<^bold>\<open>What is shown.\<close>
  \<^item> Ingest: an accepted artifact comes from a publisher with a verified token that is trusted for the subject, the
    queued receipt unwraps to it, and a rejected request changes nothing (\<open>Gateway\<close>).
  \<^item> Trust: reads see the last successful write, concurrent writers do not lose updates, a token identifier is claimed
    once (\<open>Trust\<close>), so that a static-key token is accepted once over any sequence of calls (\<open>Publishers\<close>).
  \<^item> Ledgers: they are append-only, sealed receipts are fetched again, the digest index equals the one rebuilt from the
    log, and operations in any order keep the invariant of the locker (\<open>Ledger\<close>, \<open>Locker\<close>); a redelivered message has no
    effect; the tile server stays inside the subject's directory (\<open>LockerApi\<close>).
  \<^item> Access: with the base policies the middleware admits exactly what the access rules grant; it fails closed; the
    registry yields only principals of verified tokens (\<open>Authz\<close>, \<open>Authn\<close>), down to a started service (\<open>Services\<close>).
  \<^item> Graph: each upsert refines its specification, and a sealed event that is redelivered after failures at any point
    converges to the specified graph (\<open>GraphLoader\<close>); paging terminates with the whole listing (\<open>GraphPages\<close>).
  \<^item> Below: what the worker seals reaches the graph, through the storage reference and the locker's API.

  \<^bold>\<open>Bounds, schedules and time.\<close>  A time is the number of nanoseconds since the Unix epoch and an argument of what
  reads the clock; one call runs at one instant.  A loop that waits takes the list of its select events: it yields
  \<^const>\<open>None\<close> when the list ends first, and progress is proved for every list that lets the log integrate.
  \<open>follow_cursors\<close> takes a number of requests, which is proved to suffice when it is two more than the number of full
  pages.  JSON parsing recurses on the length of the input.  Integers keep their width where the code converts them
  (\<open>to_int64\<close>) and in the words of SHA-256.  The order in which Go ranges over a map is an argument.  Goroutines and
  their locks become sequences of atomic operations.

  \<^bold>\<open>Simplifications.\<close>  Strings are byte strings: case mapping and white space are those of ASCII, and JSON numbers are
  kept as their lexemes.  The texts of errors that the JSON decoder reports are not reproduced.  Logging has no effect.

  \<^bold>\<open>Not modelled.\<close>  Listening, signals, timeouts of HTTP servers and the orderly shutdown in \<^verbatim>\<open>cmd\<close> (input and
  output only); \<^verbatim>\<open>cmd/testjwks\<close>, a helper of the tests; \<^verbatim>\<open>drivers\<close>, a client library that no service uses; the
  unused parts of the generated servers; the routing of chi, which is a parameter.
\<close>

section \<open>From the locker to the graph\<close>

text \<open>
  A network in which the loader's request for an entry reaches the HTTP API of a locker: \<open>FetchReceipt\<close> in the state
  \<open>lk\<close>, with the answers \<open>evs\<close> of its clock while it waits for integration.
\<close>

definition entry_answer :: "'l tessera \<Rightarrow> select_event list \<Rightarrow> 'l Locker \<Rightarrow> string \<Rightarrow> nat \<Rightarrow> (int \<times> bytes res) res" where
  "entry_answer T evs lk subjectID index =
     (case FetchReceipt T evs subjectID (int index) lk of
        None \<Rightarrow> Inl ContextDeadlineExceeded
      | Some (resp, _) \<Rightarrow> Inr (int (rsStatus resp), Inr (case rsBody resp of Raw b \<Rightarrow> b | _ \<Rightarrow> [])))"

definition entry_url :: "string \<Rightarrow> string \<Rightarrow> nat \<Rightarrow> string" where
  "entry_url lockerURL subjectID index = lockerURL @ ''/ledgers/'' @ subjectID @ ''/entry/'' @ show_nat index"

definition reaches_locker :: "web \<Rightarrow> string \<Rightarrow> 'l tessera \<Rightarrow> select_event list \<Rightarrow> 'l Locker \<Rightarrow> string \<Rightarrow> nat \<Rightarrow> bool" where
  "reaches_locker W lockerURL T evs lk subjectID index \<longleftrightarrow>
     web_request W (entry_url lockerURL subjectID index) = None
     \<and> web_do W (entry_url lockerURL subjectID index) = entry_answer T evs lk subjectID index"

lemma fetch_sealed:
  assumes "tessera_live T entries integrated lag" "Seal T r l = (Inr i, l')" "0 < k" "lag \<le> k"
    and "GetLedger lk subj = Some l'" "reaches_locker W url T (replicate k Tick @ evs) lk subj i"
  shows "fetchArtifact W url (entry_ref subj i) = Some (Inr r)"
proof -
  have log: "tessera_log T entries integrated" using assms(1) by (rule tessera_live.axioms)
  obtain l'' where "Fetch T (replicate k Tick @ evs) i l' = Some (Inr r, l'')"
    using tessera_live.Fetch_returns [OF assms(1) _ assms(3,4), of i l' evs] tessera_log.Seal_done [OF log assms(2)] by auto
  then have "FetchReceipt T (replicate k Tick @ evs) subj (int i) lk
      = Some (\<lparr>rsStatus = 200, rsBody = Raw r\<rparr>, put_ledger subj l'' lk)"
    using assms(5) by (simp add: FetchReceipt_def)
  then show ?thesis
    using assms(6) by (simp add: reaches_locker_def entry_url_def entry_answer_def fetchArtifact_def entry_ref_def Let_def)
qed


definition pipeline_ref :: IngestRef where
  "pipeline_ref = \<lparr>irJobID = ''j'', irSubjectID = ''app'', irContentDigest = ''sha256:aa'', irArtifactType = ''t'', irReceiptBytes = sample_receipt\<rparr>"

definition pipeline_event :: cloud_event where
  "pipeline_event = \<lparr>ceType = TypeEvidenceSealed, ceSource = ''locker'', ceSubject = ''app'', ceTime = 1,
     ceData = Some (JObj [(''contentDigest'', JStr ''sha256:aa''), (''logIndex'', JNum ''0''), (''receiptDigest'', JStr (SHA256Hex sample_receipt)),
       (''receiptType'', JStr ''gemara-receipt/v1''), (''storageRef'', JStr ''locker://app/entry/0''), (''subjectId'', JStr ''app'')])\<rparr>"

definition pipeline_loader :: "mem_log Locker \<Rightarrow> graph loader_env" where
  "pipeline_loader lk = sample_loader\<lparr>loSdk := plain_sdk\<lparr>ce_parse := (\<lambda>_. Inr pipeline_event)\<rparr>,
     loWeb := \<lparr>web_request = (\<lambda>_. None), web_do = (\<lambda>u. if u = entry_url ''http://locker'' ''app'' 0
       then entry_answer mem_tessera [Tick] lk ''app'' 0 else Inr (404, Inr []))\<rparr>\<rparr>"

lemma pipeline_sealed: "\<exists>l'. Seal mem_tessera r ex_ledger = (Inr 0, l')"
  by (simp add: Seal_def mem_tessera_def ex_ledger_def)

lemma pipeline_keys:
  "to_lower ''contentDigest'' = ''contentdigest''" "to_lower ''logIndex'' = ''logindex''" "to_lower ''receiptDigest'' = ''receiptdigest''"
  "to_lower ''receiptType'' = ''receipttype''" "to_lower ''storageRef'' = ''storageref''" "to_lower ''subjectId'' = ''subjectid''"
  "to_lower ''shardId'' = ''shardid''"
  by code_simp+

lemma pipeline_message:
  "sealed_message (pipeline_loader lk) [] pipeline_event \<lparr>esContentDigest = ''sha256:aa'', esLogIndex = 0,
     esReceiptDigest = SHA256Hex sample_receipt, esReceiptType = ''gemara-receipt/v1'', esStorageRef = ''locker://app/entry/0'',
     esSubjectID = ''app'', esShardID = None\<rparr>"
proof -
  have "parse_int64 ''0'' = (None, 0)" by code_simp
  moreover have "(1 :: int) \<noteq> zero_time" by code_simp
  ultimately show ?thesis
    by (simp add: sealed_message_def pipeline_loader_def pipeline_event_def sample_loader_def DataAs_def to_map_def sealed_data_of_def
        field_str_def jvals_def pipeline_keys)
qed


end
